(* ===== verification/Prelude.thy ===== *)
theory Prelude
  imports Main "HOL-Library.Word" "HOL-Library.Monad_Syntax"
begin

text \<open>
  Shared vocabulary of the development: machine types, byte buffers with checked
  accesses, and the facts about both that the component theories rest on.

  A C++ buffer is a \<^typ>\<open>8 word list\<close>; a pointer into it is an index. An access
  outside the buffer is undefined behaviour in the source, so \<open>load\<close> and
  \<open>store\<close> return \<^term>\<open>None\<close> there and every definition built on them
  propagates it: \<^term>\<open>None\<close> always reads ``the program has left its memory''.
  Error codes of the program itself are ordinary values of type \<^typ>\<open>int\<close>.
  The platform is the one the server runs on, 32-bit little-endian ARM:
  \<open>size_t\<close> and \<open>uintptr_t\<close> have 32 bits, \<open>int\<close> has 32 bits.
\<close>

unbundle bit_operations_syntax

section \<open>Machine types\<close>

type_synonym byte = "8 word"
type_synonym u16 = "16 word"
type_synonym u32 = "32 word"
type_synonym u64 = "64 word"
type_synonym buf = "byte list"

named_theorems mem_simps \<open>closed forms of buffer accesses\<close>
named_theorems word_cut \<open>words taken apart into bytes and put together again\<close>

section \<open>Buffers\<close>

definition load :: "buf \<Rightarrow> nat \<Rightarrow> byte option" where
  "load b i = (if i < length b then Some (b ! i) else None)"

definition store :: "buf \<Rightarrow> nat \<Rightarrow> byte \<Rightarrow> buf option" where
  "store b i v = (if i < length b then Some (b[i := v]) else None)"

text \<open>\<open>memcpy\<close> and \<open>std::move\<close> of a byte range into, and out of, a buffer.\<close>

fun store_bytes :: "buf \<Rightarrow> nat \<Rightarrow> byte list \<Rightarrow> buf option" where
  "store_bytes b i [] = Some b"
| "store_bytes b i (x # xs) = do { b \<leftarrow> store b i x; store_bytes b (Suc i) xs }"

definition load_bytes :: "buf \<Rightarrow> nat \<Rightarrow> nat \<Rightarrow> byte list option" where
  "load_bytes b i n = (if i + n \<le> length b then Some (take n (drop i b)) else None)"

text \<open>The specification of a write: the bytes replace a range of the buffer.\<close>

definition patch :: "'a list \<Rightarrow> nat \<Rightarrow> 'a list \<Rightarrow> 'a list" where
  "patch b i xs = take i b @ xs @ drop (i + length xs) b"

lemma patch_Nil [simp]: "patch b i [] = b"
  by (simp add: patch_def)

lemma length_patch [simp]:
  "i + length xs \<le> length b \<Longrightarrow> length (patch b i xs) = length b"
  by (simp add: patch_def)

lemma patch_adjacent:
  "i + length xs + length ys \<le> length b \<Longrightarrow> j = i + length xs \<Longrightarrow>
    patch (patch b i xs) j ys = patch b i (xs @ ys)"
  by (simp add: patch_def ac_simps)

lemma take_drop_patch [simp]:
  "i + length xs \<le> length b \<Longrightarrow> n = length xs \<Longrightarrow> take n (drop i (patch b i xs)) = xs"
  by (simp add: patch_def)

lemma patch_whole: "length xs = length b \<Longrightarrow> patch b 0 xs = xs"
  by (simp add: patch_def)

lemma nth_patch:
  "i + length xs \<le> length b \<Longrightarrow> k < length b \<Longrightarrow>
    patch b i xs ! k = (if i \<le> k \<and> k < i + length xs then xs ! (k - i) else b ! k)"
  by (auto simp: patch_def nth_append)

lemma store_patch [mem_simps]:
  "store b i v = (if i < length b then Some (patch b i [v]) else None)"
  by (simp add: store_def patch_def upd_conv_take_nth_drop)

lemma store_bytes_patch [mem_simps]:
  "store_bytes b i xs = (if xs = [] \<or> i + length xs \<le> length b then Some (patch b i xs) else None)"
proof (induction xs arbitrary: b i)
  case Nil
  then show ?case by simp
next
  case (Cons x xs)
  show ?case
  proof (cases "i < length b")
    case True
    have adj: "patch (patch b i [x]) (Suc i) xs = patch b i ([x] @ xs)"
      if "Suc (i + length xs) \<le> length b"
      by (rule patch_adjacent) (use that in simp_all)
    have len: "length (patch b i [x]) = length b"
      using True by simp
    have "store_bytes b i (x # xs) = store_bytes (patch b i [x]) (Suc i) xs"
      using True by (simp add: store_patch)
    also have "\<dots> = (if xs = [] \<or> Suc i + length xs \<le> length b
        then Some (patch (patch b i [x]) (Suc i) xs) else None)"
      unfolding Cons.IH len ..
    finally show ?thesis
      using True adj by (cases "xs = []") (simp_all del: patch_Nil)
  next
    case False
    then show ?thesis by (simp add: store_patch)
  qed
qed

lemma load_bytes_Some_iff: "(\<exists>xs. load_bytes b i n = Some xs) \<longleftrightarrow> i + n \<le> length b"
  by (simp add: load_bytes_def)

lemma load_bytes_length: "load_bytes b i n = Some xs \<Longrightarrow> length xs = n"
  by (auto simp: load_bytes_def split: if_splits)

lemma load_append_middle [simp]:
  "k < length ys \<Longrightarrow> load (xs @ ys @ zs) (length xs + k) = Some (ys ! k)"
  by (simp add: load_def nth_append)

lemma load_bytes_append_middle:
  "i = length xs \<Longrightarrow> n = length ys \<Longrightarrow> load_bytes (xs @ ys @ zs) i n = Some ys"
  by (simp add: load_bytes_def)

lemma load_in_range: "i < length b \<Longrightarrow> load b i = Some (b ! i)"
  by (simp add: load_def)

lemma split_at_range:
  assumes "i + n \<le> length b"
  obtains xs ys zs where "b = xs @ ys @ zs" "length xs = i" "length ys = n"
proof
  show "b = take i b @ take n (drop i b) @ drop (i + n) b"
    by (metis append_take_drop_id drop_drop add.commute)
qed (use assms in simp_all)

section \<open>Counted loops\<close>

text \<open>\<open>for (i = lo; i < hi; ++i) body\<close>, with a body that may leave its memory.\<close>

function for_loop :: "nat \<Rightarrow> nat \<Rightarrow> (nat \<Rightarrow> 's \<Rightarrow> 's option) \<Rightarrow> 's \<Rightarrow> 's option" where
  "for_loop lo hi body s =
     (if lo < hi then do { s \<leftarrow> body lo s; for_loop (Suc lo) hi body s } else Some s)"
  by pat_completeness auto
termination
  by (relation "measure (\<lambda>(lo, hi, body, s). hi - lo)") auto

declare for_loop.simps [simp del]

lemma for_loop_done [simp]: "hi \<le> lo \<Longrightarrow> for_loop lo hi body s = Some s"
  by (simp add: for_loop.simps)

lemma for_loop_inv:
  assumes "lo \<le> hi" and "I lo s"
    and "\<And>k s. lo \<le> k \<Longrightarrow> k < hi \<Longrightarrow> I k s \<Longrightarrow> \<exists>s'. body k s = Some s' \<and> I (Suc k) s'"
  shows "\<exists>s'. for_loop lo hi body s = Some s' \<and> I hi s'"
  using assms
proof (induction "hi - lo" arbitrary: lo s)
  case 0
  then show ?case by simp
next
  case (Suc n)
  then obtain s1 where "body lo s = Some s1" "I (Suc lo) s1" by (metis diff_is_0_eq nat.distinct(1) leI le_refl)
  moreover have "\<exists>s'. for_loop (Suc lo) hi body s1 = Some s' \<and> I hi s'"
    by (rule Suc.hyps(1)) (use Suc.hyps(2) Suc.prems(3) \<open>I (Suc lo) s1\<close> in auto)
  moreover have "lo < hi" using Suc.hyps(2) by simp
  ultimately show ?case by (simp add: for_loop.simps [of lo])
qed

text \<open>The same when the loop is known to return.\<close>

lemma for_loop_partial:
  assumes "for_loop lo hi body s = Some s'" and "lo \<le> hi" and "I lo s"
    and "\<And>k s s'. lo \<le> k \<Longrightarrow> k < hi \<Longrightarrow> body k s = Some s' \<Longrightarrow> I k s \<Longrightarrow> I (Suc k) s'"
  shows "I hi s'"
  using assms
proof (induction "hi - lo" arbitrary: lo s)
  case 0
  then show ?case by simp
next
  case (Suc n)
  then have lt: "lo < hi" by simp
  then obtain s1 where s1: "body lo s = Some s1" "for_loop (Suc lo) hi body s1 = Some s'"
    using Suc.prems(1) by (subst (asm) for_loop.simps) (auto simp: bind_eq_Some_conv)
  show ?case
    by (rule Suc.hyps(1) [OF _ s1(2)]) (use Suc.hyps(2) Suc.prems(3,4) s1(1) lt in auto)
qed

text \<open>The last round of a loop.\<close>

lemma for_loop_last:
  "lo \<le> hi \<Longrightarrow> for_loop lo (Suc hi) body s = do { s \<leftarrow> for_loop lo hi body s; body hi s }"
proof (induction "hi - lo" arbitrary: lo s)
  case 0
  then have "hi = lo" by simp
  then show ?case by (cases "body lo s") (simp_all add: for_loop.simps [of lo "Suc lo"])
next
  case (Suc n)
  then have lt: "lo < hi" and IH: "\<And>s. for_loop (Suc lo) (Suc hi) body s = do { s \<leftarrow> for_loop (Suc lo) hi body s; body hi s }"
    by simp_all
  show ?case
    using lt by (cases "body lo s") (simp_all add: for_loop.simps [of lo] IH)
qed

text \<open>A loop that fills consecutive cells.\<close>

lemma for_loop_fill:
  assumes "lo \<le> hi" and "hi - lo \<le> length b"
    and "\<And>k b'. lo \<le> k \<Longrightarrow> k < hi \<Longrightarrow> body k b' = store b' (k - lo) (f k)"
  shows "for_loop lo hi body b = Some (patch b 0 (map f [lo..<hi]))"
proof -
  let ?I = "\<lambda>k b'. b' = patch b 0 (map f [lo..<k])"
  have "\<exists>b'. for_loop lo hi body b = Some b' \<and> ?I hi b'"
  proof (rule for_loop_inv [where I = ?I])
    fix k b' assume k: "lo \<le> k" "k < hi" and b': "b' = patch b 0 (map f [lo..<k])"
    have "patch b' (k - lo) [f k] = patch b 0 (map f [lo..<Suc k])"
      using k assms(2) by (simp add: b' patch_adjacent)
    moreover have "length b' = length b" using k assms(2) by (simp add: b')
    ultimately show "\<exists>s'. body k b' = Some s' \<and> ?I (Suc k) s'"
      using k assms(2,3) by (simp add: store_patch)
  qed (use assms in simp_all)
  then show ?thesis by auto
qed

section \<open>Words as big-endian bytes\<close>

lemma mask_bytes: "(0xff :: 'a::len word) = mask 8"
  by (simp add: mask_eq_exp_minus_1)

lemma ucast_mask_byte [word_cut]:
  "8 \<le> LENGTH('a) \<Longrightarrow> (ucast (v AND 0xff :: 'a::len word) :: byte) = ucast v"
  unfolding mask_bytes by (rule bit_word_eqI) (auto simp: bit_simps)

lemma cut16 [word_cut]:
  "ucast (ucast v :: byte) + push_bit 8 (ucast (ucast (drop_bit 8 v) :: byte) :: u16) = v"
proof -
  let ?l = "ucast (ucast v :: byte) :: u16"
    and ?h = "push_bit 8 (ucast (ucast (drop_bit 8 v) :: byte) :: u16)"
  have "?l + ?h = ?l OR ?h"
    by (rule disjunctive_add) (auto simp: bit_simps)
  also have "\<dots> = v"
  proof (rule bit_word_eqI)
    fix n assume "n < LENGTH(16)"
    then show "bit (?l OR ?h) n = bit v n"
      by (cases "n < 8") (auto simp: bit_simps)
  qed
  finally show ?thesis .
qed

lemma cut32 [word_cut]:
  "ucast (ucast v :: byte) + push_bit 8 (ucast (ucast (drop_bit 8 v) :: byte) :: u32)
   + push_bit 16 (ucast (ucast (drop_bit 16 v) :: byte))
   + push_bit 24 (ucast (ucast (drop_bit 24 v) :: byte)) = v"
proof -
  let ?a = "ucast (ucast v :: byte) :: u32"
    and ?b = "push_bit 8 (ucast (ucast (drop_bit 8 v) :: byte) :: u32)"
    and ?c = "push_bit 16 (ucast (ucast (drop_bit 16 v) :: byte) :: u32)"
    and ?d = "push_bit 24 (ucast (ucast (drop_bit 24 v) :: byte) :: u32)"
  have ab: "?a + ?b = ?a OR ?b"
    by (rule disjunctive_add) (auto simp: bit_simps)
  have abc: "(?a OR ?b) + ?c = ?a OR ?b OR ?c"
    by (subst disjunctive_add) (auto simp: bit_simps or.assoc)
  have abcd: "(?a OR ?b OR ?c) + ?d = ?a OR ?b OR ?c OR ?d"
    by (subst disjunctive_add) (auto simp: bit_simps or.assoc)
  have "?a OR ?b OR ?c OR ?d = v"
  proof (rule bit_word_eqI)
    fix n assume "n < LENGTH(32)"
    then show "bit (?a OR ?b OR ?c OR ?d) n = bit v n"
      by (cases "n < 8"; cases "n < 16"; cases "n < 24") (auto simp: bit_simps)
  qed
  then show ?thesis by (simp add: ab abc abcd)
qed

lemma cut64 [word_cut]:
  "ucast (ucast v :: u32) + push_bit 32 (ucast (ucast (drop_bit 32 v) :: u32) :: u64) = v"
proof -
  let ?l = "ucast (ucast v :: u32) :: u64"
    and ?h = "push_bit 32 (ucast (ucast (drop_bit 32 v) :: u32) :: u64)"
  have "?l + ?h = ?l OR ?h"
    by (rule disjunctive_add) (auto simp: bit_simps)
  also have "\<dots> = v"
  proof (rule bit_word_eqI)
    fix n assume "n < LENGTH(64)"
    then show "bit (?l OR ?h) n = bit v n"
      by (cases "n < 32") (auto simp: bit_simps)
  qed
  finally show ?thesis .
qed

text \<open>Reinterpreting a signed integer in range as unsigned and back is the identity.\<close>

lemma sint_word_of_int_range:
  assumes "- (2 ^ (LENGTH('a) - 1)) \<le> k" and "k < 2 ^ (LENGTH('a) - 1)"
  shows "sint (word_of_int k :: 'a::len word) = k"
proof -
  have "sint (word_of_int k :: 'a word) = signed_take_bit (LENGTH('a) - Suc 0) k"
    by (simp add: sint_sbintrunc')
  also have "\<dots> = k"
    using assms by (simp add: signed_take_bit_int_eq_self)
  finally show ?thesis .
qed

end
