(* ===== verification/Serializer.thy ===== *)
theory Serializer
  imports Prelude
begin

text \<open>
  \<^verbatim>\<open>src/server/core/serializer_deserializer.hpp\<close>: the scalar encoders
  (\<open>append<T>\<close>) and decoders (\<open>extract<T>\<close>), the tuple serializer and
  deserializer, and the \<open>DynamicSerializer\<close> that builds the commands.

  \<open>append<T>(&buff[p], v)\<close> becomes \<open>append_T b p v\<close>, which returns the new buffer, or
  \<^term>\<open>None\<close> when a byte would be written outside of it; \<open>extract<T>(&buff[p])\<close> becomes
  \<open>extract_T b p\<close>. The variadic templates become recursion on the list of the types. A signed
  integer is an \<^typ>\<open>int\<close> in its range; a \<open>float\<close> or a \<open>double\<close> is its bit pattern,
  because the code moves it with \<open>pseudo_cast\<close>, a \<open>memcpy\<close> of the representation.

  The interface a scalar type offers is the locale \<open>codec\<close>: it is interpreted once for each
  type, on the definitions of this theory.
\<close>

section \<open>Scalars\<close>

subsection \<open>Unsigned integers\<close>

definition extract_u8 :: "buf \<Rightarrow> nat \<Rightarrow> byte option" where
  "extract_u8 b p = load b p"

definition append_u8 :: "buf \<Rightarrow> nat \<Rightarrow> byte \<Rightarrow> buf option" where
  "append_u8 b p value = store b p value"

text \<open>The operands are promoted to \<open>int\<close>; the sum is converted back to 16 bits.\<close>

definition extract_u16 :: "buf \<Rightarrow> nat \<Rightarrow> u16 option" where
  "extract_u16 b p = do {
     b1 \<leftarrow> load b (p + 1);
     b0 \<leftarrow> load b p;
     Some (ucast ((ucast b1 :: u32) + push_bit 8 (ucast b0))) }"

definition append_u16 :: "buf \<Rightarrow> nat \<Rightarrow> u16 \<Rightarrow> buf option" where
  "append_u16 b p value = do {
     b \<leftarrow> store b p (ucast (drop_bit 8 value AND 0xff));
     store b (p + 1) (ucast (value AND 0xff)) }"

definition extract_u32 :: "buf \<Rightarrow> nat \<Rightarrow> u32 option" where
  "extract_u32 b p = do {
     b3 \<leftarrow> load b (p + 3);
     b2 \<leftarrow> load b (p + 2);
     b1 \<leftarrow> load b (p + 1);
     b0 \<leftarrow> load b p;
     Some (ucast b3 + push_bit 8 (ucast b2) + push_bit 16 (ucast b1) + push_bit 24 (ucast b0)) }"

definition append_u32 :: "buf \<Rightarrow> nat \<Rightarrow> u32 \<Rightarrow> buf option" where
  "append_u32 b p value = do {
     b \<leftarrow> store b p (ucast (drop_bit 24 value AND 0xff));
     b \<leftarrow> store b (p + 1) (ucast (drop_bit 16 value AND 0xff));
     b \<leftarrow> store b (p + 2) (ucast (drop_bit 8 value AND 0xff));
     store b (p + 3) (ucast (value AND 0xff)) }"

definition extract_u64 :: "buf \<Rightarrow> nat \<Rightarrow> u64 option" where
  "extract_u64 b p = do {
     u1 \<leftarrow> extract_u32 b p;
     u2 \<leftarrow> extract_u32 b (p + 4);
     Some (ucast u2 + push_bit 32 (ucast u1)) }"

definition append_u64 :: "buf \<Rightarrow> nat \<Rightarrow> u64 \<Rightarrow> buf option" where
  "append_u64 b p value = do {
     b \<leftarrow> append_u32 b p (ucast (drop_bit 32 value));
     append_u32 b (p + 4) (ucast value) }"

subsection \<open>Signed integers: a \<open>reinterpret_cast\<close> of the unsigned ones\<close>

definition extract_i8 :: "buf \<Rightarrow> nat \<Rightarrow> int option" where
  "extract_i8 b p = map_option sint (extract_u8 b p)"

definition append_i8 :: "buf \<Rightarrow> nat \<Rightarrow> int \<Rightarrow> buf option" where
  "append_i8 b p value = store b p (word_of_int value)"

definition extract_i16 :: "buf \<Rightarrow> nat \<Rightarrow> int option" where
  "extract_i16 b p = map_option sint (extract_u16 b p)"

definition append_i16 :: "buf \<Rightarrow> nat \<Rightarrow> int \<Rightarrow> buf option" where
  "append_i16 b p value = append_u16 b p (word_of_int value)"

definition extract_i32 :: "buf \<Rightarrow> nat \<Rightarrow> int option" where
  "extract_i32 b p = map_option sint (extract_u32 b p)"

definition append_i32 :: "buf \<Rightarrow> nat \<Rightarrow> int \<Rightarrow> buf option" where
  "append_i32 b p value = append_u32 b p (word_of_int value)"

definition extract_i64 :: "buf \<Rightarrow> nat \<Rightarrow> int option" where
  "extract_i64 b p = map_option sint (extract_u64 b p)"

definition append_i64 :: "buf \<Rightarrow> nat \<Rightarrow> int \<Rightarrow> buf option" where
  "append_i64 b p value = append_u64 b p (word_of_int value)"

subsection \<open>Floating point, complex, bool\<close>

datatype float32 = Float32 (float_bits: u32)
datatype float64 = Float64 (double_bits: u64)

definition extract_float :: "buf \<Rightarrow> nat \<Rightarrow> float32 option" where
  "extract_float b p = map_option Float32 (extract_u32 b p)"

definition append_float :: "buf \<Rightarrow> nat \<Rightarrow> float32 \<Rightarrow> buf option" where
  "append_float b p value = append_u32 b p (float_bits value)"

definition extract_double :: "buf \<Rightarrow> nat \<Rightarrow> float64 option" where
  "extract_double b p = map_option Float64 (extract_u64 b p)"

definition append_double :: "buf \<Rightarrow> nat \<Rightarrow> float64 \<Rightarrow> buf option" where
  "append_double b p value = append_u64 b p (double_bits value)"

text \<open>The templates \<open>detail::extract_cplx<T>\<close> and \<open>append_cplx<T>\<close>, over \<open>sizeof(T)\<close>.\<close>

definition extract_cplx :: "nat \<Rightarrow> (buf \<Rightarrow> nat \<Rightarrow> 'v option) \<Rightarrow> buf \<Rightarrow> nat \<Rightarrow> ('v \<times> 'v) option" where
  "extract_cplx sz ext b p = do { r \<leftarrow> ext b p; i \<leftarrow> ext b (p + sz); Some (r, i) }"

definition append_cplx ::
  "nat \<Rightarrow> (buf \<Rightarrow> nat \<Rightarrow> 'v \<Rightarrow> buf option) \<Rightarrow> buf \<Rightarrow> nat \<Rightarrow> 'v \<times> 'v \<Rightarrow> buf option" where
  "append_cplx sz app b p value = do { b \<leftarrow> app b p (fst value); app b (p + sz) (snd value) }"

definition extract_bool :: "buf \<Rightarrow> nat \<Rightarrow> bool option" where
  "extract_bool b p = map_option (\<lambda>c. c = 1) (load b p)"

definition append_bool :: "buf \<Rightarrow> nat \<Rightarrow> bool \<Rightarrow> buf option" where
  "append_bool b p value = store b p (if value then 1 else 0)"

section \<open>The interface of a scalar type\<close>

text \<open>
  A codec writes exactly \<open>size\<close> bytes \<open>enc v\<close> at the position and touches nothing else; it
  leaves the buffer only when these bytes do not fit; and reading them back gives the value.
\<close>

locale codec =
  fixes sz :: nat
    and app :: "buf \<Rightarrow> nat \<Rightarrow> 'v \<Rightarrow> buf option"
    and ext :: "buf \<Rightarrow> nat \<Rightarrow> 'v option"
    and enc :: "'v \<Rightarrow> byte list"
    and valid :: "'v \<Rightarrow> bool"
  assumes sz_pos: "0 < sz"
    and enc_length: "length (enc v) = sz"
    and app_patch: "app b p v = (if p + sz \<le> length b then Some (patch b p (enc v)) else None)"
    and ext_enc: "valid v \<Longrightarrow> ext (xs @ enc v @ ys) (length xs) = Some v"
    and ext_defined: "ext b p = None \<longleftrightarrow> length b < p + sz"
begin

lemma app_Some: "app b p v = Some b' \<longleftrightarrow> p + sz \<le> length b \<and> b' = patch b p (enc v)"
  by (auto simp: app_patch)

lemma app_length: "app b p v = Some b' \<Longrightarrow> length b' = length b"
  by (simp add: app_Some enc_length)

lemma ext_take_drop:
  assumes "p + sz \<le> length b" and "take sz (drop p b) = enc v" and "valid v"
  shows "ext b p = Some v"
proof -
  obtain xs ys zs where b: "b = xs @ ys @ zs" and l: "length xs = p" "length ys = sz"
    using split_at_range [OF assms(1)] .
  with assms(2) have "ys = enc v" by simp
  with b l ext_enc [OF assms(3), of xs zs] show ?thesis by simp
qed

lemma round_trip: "app b p v = Some b' \<Longrightarrow> valid v \<Longrightarrow> ext b' p = Some v"
  by (rule ext_take_drop) (auto simp: app_Some enc_length)

lemma app_frame:
  "app b p v = Some b' \<Longrightarrow> k < p \<or> p + sz \<le> k \<Longrightarrow> load b' k = load b k"
  by (auto simp: app_Some load_def nth_patch enc_length)

end

text \<open>The complex types are built from the codec of their component type.\<close>

locale complex_codec = codec
begin

lemma append_cplx_patch:
  "append_cplx sz app b p v
   = (if p + 2 * sz \<le> length b then Some (patch b p (enc (fst v) @ enc (snd v))) else None)"
proof (cases "p + sz \<le> length b")
  case True
  then show ?thesis
    by (auto simp: append_cplx_def app_patch enc_length patch_adjacent)
qed (simp add: append_cplx_def app_patch)

lemma extract_cplx_enc:
  assumes "valid (fst v)" and "valid (snd v)"
  shows "extract_cplx sz ext (xs @ (enc (fst v) @ enc (snd v)) @ ys) (length xs) = Some v"
proof -
  have "ext (xs @ enc (fst v) @ (enc (snd v) @ ys)) (length xs) = Some (fst v)"
    using assms(1) by (rule ext_enc)
  moreover have "ext ((xs @ enc (fst v)) @ enc (snd v) @ ys) (length (xs @ enc (fst v)))
      = Some (snd v)"
    using assms(2) by (rule ext_enc)
  ultimately show ?thesis
    by (simp add: extract_cplx_def enc_length)
qed

lemma extract_cplx_defined: "extract_cplx sz ext b p = None \<longleftrightarrow> length b < p + 2 * sz"
proof -
  have "extract_cplx sz ext b p = None \<longleftrightarrow> ext b p = None \<or> ext b (p + sz) = None"
    by (auto simp: extract_cplx_def bind_eq_None_conv)
  then show ?thesis
    using sz_pos by (auto simp: ext_defined)
qed

end

sublocale complex_codec \<subseteq> cplx: codec "2 * sz" "append_cplx sz app" "extract_cplx sz ext"
  "\<lambda>v. enc (fst v) @ enc (snd v)" "\<lambda>v. valid (fst v) \<and> valid (snd v)"
proof unfold_locales
  show "0 < 2 * sz" using sz_pos by simp
next
  fix v show "length (enc (fst v) @ enc (snd v)) = 2 * sz" by (simp add: enc_length)
next
  fix b p v
  show "append_cplx sz app b p v
     = (if p + 2 * sz \<le> length b then Some (patch b p (enc (fst v) @ enc (snd v))) else None)"
    by (rule append_cplx_patch)
next
  fix v xs ys assume "valid (fst v) \<and> valid (snd v)"
  then show "extract_cplx sz ext (xs @ (enc (fst v) @ enc (snd v)) @ ys) (length xs) = Some v"
    by (intro extract_cplx_enc) auto
next
  fix b p show "(extract_cplx sz ext b p = None) = (length b < p + 2 * sz)"
    by (rule extract_cplx_defined)
qed

subsection \<open>Network byte order\<close>

definition be16 :: "u16 \<Rightarrow> byte list" where
  "be16 v = [ucast (drop_bit 8 v), ucast v]"

definition be32 :: "u32 \<Rightarrow> byte list" where
  "be32 v = [ucast (drop_bit 24 v), ucast (drop_bit 16 v), ucast (drop_bit 8 v), ucast v]"

definition be64 :: "u64 \<Rightarrow> byte list" where
  "be64 v = be32 (ucast (drop_bit 32 v)) @ be32 (ucast v)"

definition in_range :: "nat \<Rightarrow> int \<Rightarrow> bool" where
  "in_range w k \<longleftrightarrow> - (2 ^ (w - 1)) \<le> k \<and> k < 2 ^ (w - 1)"

lemma length_be [simp]: "length (be16 v) = 2" "length (be32 w) = 4" "length (be64 x) = 8"
  by (simp_all add: be16_def be32_def be64_def)

lemma append_u16_patch [mem_simps]:
  "append_u16 b p v = (if p + 2 \<le> length b then Some (patch b p (be16 v)) else None)"
proof -
  have "append_u16 b p v = store_bytes b p (be16 v)"
    by (simp add: append_u16_def be16_def ucast_mask_byte)
  then show ?thesis by (simp add: store_bytes_patch be16_def)
qed

lemma append_u32_patch [mem_simps]:
  "append_u32 b p v = (if p + 4 \<le> length b then Some (patch b p (be32 v)) else None)"
proof -
  have "append_u32 b p v = store_bytes b p (be32 v)"
    by (simp add: append_u32_def be32_def ucast_mask_byte eval_nat_numeral)
  then show ?thesis by (simp add: store_bytes_patch be32_def)
qed

lemma append_u64_patch [mem_simps]:
  "append_u64 b p v = (if p + 8 \<le> length b then Some (patch b p (be64 v)) else None)"
proof (cases "p + 4 \<le> length b")
  case True
  then show ?thesis
    by (simp add: append_u64_def append_u32_patch be64_def patch_adjacent)
qed (simp add: append_u64_def append_u32_patch)

lemma cut16_promoted [word_cut]:
  "(ucast ((ucast (ucast v :: byte) :: u32) + push_bit 8 (ucast (ucast (drop_bit 8 v) :: byte)))
    :: u16) = v"
proof -
  let ?l = "ucast (ucast v :: byte) :: u32"
    and ?h = "push_bit 8 (ucast (ucast (drop_bit 8 v) :: byte) :: u32)"
  have "?l + ?h = ?l OR ?h"
    by (rule disjunctive_add) (auto simp: bit_simps)
  moreover have "(ucast (?l OR ?h) :: u16) = v"
  proof (rule bit_word_eqI)
    fix n assume "n < LENGTH(16)"
    then show "bit (ucast (?l OR ?h) :: u16) n = bit v n"
      by (cases "n < 8") (auto simp: bit_simps)
  qed
  ultimately show ?thesis by simp
qed

lemma extract_u16_be: "extract_u16 (xs @ be16 v @ ys) (length xs) = Some v"
  by (simp add: extract_u16_def be16_def load_def nth_append cut16_promoted)

lemma extract_u32_be: "extract_u32 (xs @ be32 v @ ys) (length xs) = Some v"
  by (simp add: extract_u32_def be32_def load_def nth_append cut32)

lemma extract_u64_be: "extract_u64 (xs @ be64 v @ ys) (length xs) = Some v"
proof -
  have "extract_u32 ((xs @ be32 (ucast (drop_bit 32 v))) @ be32 (ucast v) @ ys)
      (length (xs @ be32 (ucast (drop_bit 32 v)))) = Some (ucast v)"
    by (rule extract_u32_be)
  then show ?thesis
    by (simp add: extract_u64_def be64_def extract_u32_be cut64)
qed

lemma extract_u16_None: "extract_u16 b p = None \<longleftrightarrow> length b < p + 2"
  by (auto simp: extract_u16_def load_def)

lemma extract_u32_None: "extract_u32 b p = None \<longleftrightarrow> length b < p + 4"
  by (auto simp: extract_u32_def load_def)

lemma extract_u64_None: "extract_u64 b p = None \<longleftrightarrow> length b < p + 8"
  by (auto simp: extract_u64_def bind_eq_None_conv extract_u32_None)

lemmas extract_be = extract_u16_be extract_u32_be extract_u64_be
lemmas extract_None = extract_u16_None extract_u32_None extract_u64_None

lemma sint_word_of_int [simp]:
  "in_range 8 k \<Longrightarrow> sint (word_of_int k :: byte) = k"
  "in_range 16 k \<Longrightarrow> sint (word_of_int k :: u16) = k"
  "in_range 32 k \<Longrightarrow> sint (word_of_int k :: u32) = k"
  "in_range 64 k \<Longrightarrow> sint (word_of_int k :: u64) = k"
  by (rule sint_word_of_int_range; simp add: in_range_def)+

subsection \<open>The scalar types implement the interface\<close>

interpretation u8: codec 1 append_u8 extract_u8 "\<lambda>v. [v]" "\<lambda>_. True"
  by unfold_locales (auto simp: append_u8_def extract_u8_def store_patch load_def nth_append)

interpretation u16: codec 2 append_u16 extract_u16 be16 "\<lambda>_. True"
  by unfold_locales (simp_all add: append_u16_patch extract_be extract_None)

interpretation u32: codec 4 append_u32 extract_u32 be32 "\<lambda>_. True"
  by unfold_locales (simp_all add: append_u32_patch extract_be extract_None)

interpretation u64: codec 8 append_u64 extract_u64 be64 "\<lambda>_. True"
  by unfold_locales (simp_all add: append_u64_patch extract_be extract_None)

interpretation i8: codec 1 append_i8 extract_i8 "\<lambda>v. [word_of_int v]" "in_range 8"
  by unfold_locales
    (auto simp: append_i8_def extract_i8_def extract_u8_def store_patch load_def nth_append)

interpretation i16: codec 2 append_i16 extract_i16 "\<lambda>v. be16 (word_of_int v)" "in_range 16"
  by unfold_locales
    (simp_all add: append_i16_def extract_i16_def append_u16_patch extract_be extract_None)

interpretation i32: codec 4 append_i32 extract_i32 "\<lambda>v. be32 (word_of_int v)" "in_range 32"
  by unfold_locales
    (simp_all add: append_i32_def extract_i32_def append_u32_patch extract_be extract_None)

interpretation i64: codec 8 append_i64 extract_i64 "\<lambda>v. be64 (word_of_int v)" "in_range 64"
  by unfold_locales
    (simp_all add: append_i64_def extract_i64_def append_u64_patch extract_be extract_None)

interpretation f32: complex_codec 4 append_float extract_float "\<lambda>v. be32 (float_bits v)" "\<lambda>_. True"
  by unfold_locales
    (simp_all add: append_float_def extract_float_def append_u32_patch extract_be extract_None)

interpretation f64: complex_codec 8 append_double extract_double "\<lambda>v. be64 (double_bits v)" "\<lambda>_. True"
  by unfold_locales
    (simp_all add: append_double_def extract_double_def append_u64_patch extract_be extract_None)

interpretation boolean: codec 1 append_bool extract_bool "\<lambda>v. [if v then 1 else 0]" "\<lambda>_. True"
  by unfold_locales
    (auto simp: append_bool_def extract_bool_def store_patch load_def nth_append)

section \<open>Tuples of scalars\<close>

datatype scalar_ty = TU8 | TI8 | TU16 | TI16 | TU32 | TI32 | TU64 | TI64
  | TFloat | TDouble | TCplxFloat | TCplxDouble | TBool

datatype scalar = U8 byte | I8 int | U16 u16 | I16 int | U32 u32 | I32 int | U64 u64 | I64 int
  | Flt float32 | Dbl float64 | CplxFlt "float32 \<times> float32" | CplxDbl "float64 \<times> float64"
  | Bool bool

fun size_of :: "scalar_ty \<Rightarrow> nat" where
  "size_of TU8 = 1" | "size_of TI8 = 1"
| "size_of TU16 = 2" | "size_of TI16 = 2"
| "size_of TU32 = 4" | "size_of TI32 = 4"
| "size_of TU64 = 8" | "size_of TI64 = 8"
| "size_of TFloat = 4" | "size_of TDouble = 8"
| "size_of TCplxFloat = 2 * 4" | "size_of TCplxDouble = 2 * 8"
| "size_of TBool = 1"

fun ty_of :: "scalar \<Rightarrow> scalar_ty" where
  "ty_of (U8 _) = TU8" | "ty_of (I8 _) = TI8"
| "ty_of (U16 _) = TU16" | "ty_of (I16 _) = TI16"
| "ty_of (U32 _) = TU32" | "ty_of (I32 _) = TI32"
| "ty_of (U64 _) = TU64" | "ty_of (I64 _) = TI64"
| "ty_of (Flt _) = TFloat" | "ty_of (Dbl _) = TDouble"
| "ty_of (CplxFlt _) = TCplxFloat" | "ty_of (CplxDbl _) = TCplxDouble"
| "ty_of (Bool _) = TBool"

text \<open>The template \<open>append<T>\<close> and its specializations, selected by the value's type.\<close>

fun append_scalar :: "buf \<Rightarrow> nat \<Rightarrow> scalar \<Rightarrow> buf option" where
  "append_scalar b p (U8 v) = append_u8 b p v"
| "append_scalar b p (I8 v) = append_i8 b p v"
| "append_scalar b p (U16 v) = append_u16 b p v"
| "append_scalar b p (I16 v) = append_i16 b p v"
| "append_scalar b p (U32 v) = append_u32 b p v"
| "append_scalar b p (I32 v) = append_i32 b p v"
| "append_scalar b p (U64 v) = append_u64 b p v"
| "append_scalar b p (I64 v) = append_i64 b p v"
| "append_scalar b p (Flt v) = append_float b p v"
| "append_scalar b p (Dbl v) = append_double b p v"
| "append_scalar b p (CplxFlt v) = append_cplx 4 append_float b p v"
| "append_scalar b p (CplxDbl v) = append_cplx 8 append_double b p v"
| "append_scalar b p (Bool v) = append_bool b p v"

fun extract_scalar :: "scalar_ty \<Rightarrow> buf \<Rightarrow> nat \<Rightarrow> scalar option" where
  "extract_scalar TU8 b p = map_option U8 (extract_u8 b p)"
| "extract_scalar TI8 b p = map_option I8 (extract_i8 b p)"
| "extract_scalar TU16 b p = map_option U16 (extract_u16 b p)"
| "extract_scalar TI16 b p = map_option I16 (extract_i16 b p)"
| "extract_scalar TU32 b p = map_option U32 (extract_u32 b p)"
| "extract_scalar TI32 b p = map_option I32 (extract_i32 b p)"
| "extract_scalar TU64 b p = map_option U64 (extract_u64 b p)"
| "extract_scalar TI64 b p = map_option I64 (extract_i64 b p)"
| "extract_scalar TFloat b p = map_option Flt (extract_float b p)"
| "extract_scalar TDouble b p = map_option Dbl (extract_double b p)"
| "extract_scalar TCplxFloat b p = map_option CplxFlt (extract_cplx 4 extract_float b p)"
| "extract_scalar TCplxDouble b p = map_option CplxDbl (extract_cplx 8 extract_double b p)"
| "extract_scalar TBool b p = map_option Bool (extract_bool b p)"

subsection \<open>The tuple templates\<close>

fun deserialize_at :: "nat \<Rightarrow> scalar_ty list \<Rightarrow> buf \<Rightarrow> scalar list option" where
  "deserialize_at position [] b = Some []"
| "deserialize_at position (t # ts) b = do {
     x \<leftarrow> extract_scalar t b position;
     xs \<leftarrow> deserialize_at (position + size_of t) ts b;
     Some (x # xs) }"

fun required_buffer_size :: "scalar_ty list \<Rightarrow> nat" where
  "required_buffer_size [] = 0"
| "required_buffer_size (t # ts) = size_of t + required_buffer_size ts"

fun serialize_at :: "nat \<Rightarrow> scalar list \<Rightarrow> buf \<Rightarrow> buf option" where
  "serialize_at buff_pos [] b = Some b"
| "serialize_at buff_pos (v # vs) b = do {
     b \<leftarrow> append_scalar b buff_pos v;
     serialize_at (buff_pos + size_of (ty_of v)) vs b }"

text \<open>
  \<open>serialize\<close> fills a \<open>std::array\<close> that is not initialised; \<open>serialize_overwrites\<close> below
  shows that its initial contents do not matter.
\<close>

definition serialize :: "scalar list \<Rightarrow> buf option" where
  "serialize t = serialize_at 0 t (replicate (required_buffer_size (map ty_of t)) 0)"

subsection \<open>Wire format of a scalar, and the two directions\<close>

fun enc_scalar :: "scalar \<Rightarrow> byte list" where
  "enc_scalar (U8 v) = [v]"
| "enc_scalar (I8 v) = [word_of_int v]"
| "enc_scalar (U16 v) = be16 v"
| "enc_scalar (I16 v) = be16 (word_of_int v)"
| "enc_scalar (U32 v) = be32 v"
| "enc_scalar (I32 v) = be32 (word_of_int v)"
| "enc_scalar (U64 v) = be64 v"
| "enc_scalar (I64 v) = be64 (word_of_int v)"
| "enc_scalar (Flt v) = be32 (float_bits v)"
| "enc_scalar (Dbl v) = be64 (double_bits v)"
| "enc_scalar (CplxFlt v) = be32 (float_bits (fst v)) @ be32 (float_bits (snd v))"
| "enc_scalar (CplxDbl v) = be64 (double_bits (fst v)) @ be64 (double_bits (snd v))"
| "enc_scalar (Bool v) = [if v then 1 else 0]"

fun valid_scalar :: "scalar \<Rightarrow> bool" where
  "valid_scalar (I8 v) = in_range 8 v"
| "valid_scalar (I16 v) = in_range 16 v"
| "valid_scalar (I32 v) = in_range 32 v"
| "valid_scalar (I64 v) = in_range 64 v"
| "valid_scalar _ = True"

lemma length_enc_scalar [simp]: "length (enc_scalar v) = size_of (ty_of v)"
  by (cases v) simp_all

lemma size_of_pos [simp]: "0 < size_of t"
  by (cases t) simp_all

lemma append_scalar_patch [mem_simps]:
  "append_scalar b p v
   = (if p + size_of (ty_of v) \<le> length b then Some (patch b p (enc_scalar v)) else None)"
  by (cases v) (simp_all add: u8.app_patch i8.app_patch u16.app_patch i16.app_patch
      u32.app_patch i32.app_patch u64.app_patch i64.app_patch f32.app_patch f64.app_patch
      f32.cplx.app_patch [simplified] f64.cplx.app_patch [simplified] boolean.app_patch)

lemma extract_scalar_enc:
  "valid_scalar v \<Longrightarrow> extract_scalar (ty_of v) (xs @ enc_scalar v @ ys) (length xs) = Some v"
  by (cases v) (simp_all add: u8.ext_enc [simplified] i8.ext_enc [simplified] u16.ext_enc i16.ext_enc
      u32.ext_enc i32.ext_enc u64.ext_enc i64.ext_enc f32.ext_enc f64.ext_enc
      f32.cplx.ext_enc [simplified] f64.cplx.ext_enc [simplified] boolean.ext_enc [simplified])

lemma extract_scalar_None: "extract_scalar t b p = None \<longleftrightarrow> length b < p + size_of t"
  by (cases t) (simp_all add: u8.ext_defined i8.ext_defined u16.ext_defined i16.ext_defined
      u32.ext_defined i32.ext_defined u64.ext_defined i64.ext_defined f32.ext_defined f64.ext_defined
      f32.cplx.ext_defined [simplified] f64.cplx.ext_defined [simplified] boolean.ext_defined)

lemma required_buffer_size_append [simp]:
  "required_buffer_size (xs @ ys) = required_buffer_size xs + required_buffer_size ys"
  by (induction xs) simp_all

lemma length_concat_enc [simp]:
  "length (concat (map enc_scalar vs)) = required_buffer_size (map ty_of vs)"
  by (induction vs) simp_all

lemma serialize_at_patch [mem_simps]:
  "serialize_at p vs b =
     (if vs = [] \<or> p + required_buffer_size (map ty_of vs) \<le> length b
      then Some (patch b p (concat (map enc_scalar vs))) else None)"
proof (induction vs arbitrary: b p)
  case Nil
  then show ?case by simp
next
  case (Cons v vs)
  show ?case
  proof (cases "p + size_of (ty_of v) \<le> length b")
    case True
    have len: "length (patch b p (enc_scalar v)) = length b"
      using True by simp
    have adj: "patch (patch b p (enc_scalar v)) (p + size_of (ty_of v)) (concat (map enc_scalar vs))
        = patch b p (enc_scalar v @ concat (map enc_scalar vs))"
      if "p + size_of (ty_of v) + required_buffer_size (map ty_of vs) \<le> length b"
      by (rule patch_adjacent) (use that in simp_all)
    have "serialize_at p (v # vs) b
        = serialize_at (p + size_of (ty_of v)) vs (patch b p (enc_scalar v))"
      using True by (simp add: append_scalar_patch)
    also have "\<dots> = (if vs = [] \<or>
          p + size_of (ty_of v) + required_buffer_size (map ty_of vs) \<le> length b
        then Some (patch (patch b p (enc_scalar v)) (p + size_of (ty_of v))
          (concat (map enc_scalar vs))) else None)"
      unfolding Cons.IH len ..
    finally show ?thesis
      using True adj by (cases "vs = []") (auto simp del: patch_Nil simp: add.assoc)
  next
    case False
    then show ?thesis by (simp add: append_scalar_patch)
  qed
qed

lemma serialize_eq: "serialize vs = Some (concat (map enc_scalar vs))"
  by (simp add: serialize_def serialize_at_patch patch_whole)

text \<open>The contents of the uninitialised array never show in the result.\<close>

lemma serialize_overwrites:
  "length arr = required_buffer_size (map ty_of vs) \<Longrightarrow> serialize_at 0 vs arr = serialize vs"
  by (simp add: serialize_eq serialize_at_patch patch_whole)

lemma deserialize_at_enc:
  "list_all valid_scalar vs \<Longrightarrow>
    deserialize_at (length xs) (map ty_of vs) (xs @ concat (map enc_scalar vs) @ ys) = Some vs"
proof (induction vs arbitrary: xs)
  case Nil
  then show ?case by simp
next
  case (Cons v vs)
  have "extract_scalar (ty_of v) (xs @ enc_scalar v @ (concat (map enc_scalar vs) @ ys)) (length xs)
      = Some v"
    using Cons.prems by (intro extract_scalar_enc) simp
  moreover have "deserialize_at (length (xs @ enc_scalar v)) (map ty_of vs)
      ((xs @ enc_scalar v) @ concat (map enc_scalar vs) @ ys) = Some vs"
    using Cons.prems by (intro Cons.IH) simp
  ultimately show ?case by simp
qed

lemma deserialize_at_None:
  "deserialize_at p ts b = None \<longleftrightarrow> ts \<noteq> [] \<and> length b < p + required_buffer_size ts"
  by (induction ts arbitrary: p) (auto simp: bind_eq_None_conv extract_scalar_None)

lemma extract_scalar_ty: "extract_scalar t b p = Some v \<Longrightarrow> ty_of v = t"
  by (cases t) auto

lemma deserialize_at_types: "deserialize_at p ts b = Some vs \<Longrightarrow> map ty_of vs = ts"
  by (induction ts arbitrary: p vs) (auto simp: bind_eq_Some_conv extract_scalar_ty)

section \<open>DynamicSerializer\<close>

text \<open>
  The arguments of a command, by the overload of \<open>command_serializer\<close> they select. A container
  (\<open>std::vector\<close>, \<open>std::string\<close>) or a \<open>std::array\<close> is the bytes of its elements in memory,
  which the code copies as they are; a C string is the memory its pointer reaches.
\<close>

datatype arg = Scalar scalar | Container "byte list" | Array "byte list" | CString "byte list"

record dyn_ser =
  scal_data :: buf
  scal_size :: nat

definition resize :: "nat \<Rightarrow> buf \<Rightarrow> buf" where
  "resize n b = take n b @ replicate (n - length b) 0"

definition dyn_append :: "dyn_ser \<Rightarrow> scalar \<Rightarrow> dyn_ser option" where
  "dyn_append s t = do {
     d \<leftarrow> append_scalar (scal_data s) (scal_size s) t;
     Some (s\<lparr>scal_data := d, scal_size := scal_size s + size_of (ty_of t)\<rparr>) }"

definition dump_scalar_pack :: "dyn_ser \<Rightarrow> buf \<Rightarrow> (dyn_ser \<times> buf) option" where
  "dump_scalar_pack s buffer =
     (if scal_size s > 0 then do {
        bytes \<leftarrow> load_bytes (scal_data s) 0 (scal_size s);
        Some (s\<lparr>scal_size := 0\<rparr>, buffer @ bytes) }
      else Some (s, buffer))"

definition dump_container_to_buffer :: "buf \<Rightarrow> byte list \<Rightarrow> buf option" where
  "dump_container_to_buffer buffer container = (
     let n_bytes = (of_nat (length container) :: u32);
         buffer = resize (length buffer + 4) buffer
     in do {
       buffer \<leftarrow> append_u32 buffer (length buffer - 4) n_bytes;
       if n_bytes > 0 then do {
         bytes \<leftarrow> load_bytes container 0 (unat n_bytes);
         Some (buffer @ bytes) }
       else Some buffer })"

definition dump_array_to_buffer :: "buf \<Rightarrow> byte list \<Rightarrow> buf option" where
  "dump_array_to_buffer buffer arr = (
     let n_bytes = length arr
     in if n_bytes > 0 then do { bytes \<leftarrow> load_bytes arr 0 n_bytes; Some (buffer @ bytes) }
        else Some buffer)"

text \<open>\<open>std::string(const char *)\<close>: the bytes up to the terminating zero, which must be there.\<close>

definition string_of_cstr :: "byte list \<Rightarrow> byte list option" where
  "string_of_cstr t = (if 0 \<in> set t then Some (takeWhile (\<lambda>c. c \<noteq> 0) t) else None)"

fun command_serializer :: "dyn_ser \<Rightarrow> buf \<Rightarrow> arg list \<Rightarrow> (dyn_ser \<times> buf) option" where
  "command_serializer s buffer [] = Some (s, buffer)"
| "command_serializer s buffer (Scalar t # args) = do {
     s \<leftarrow> dyn_append s t;
     command_serializer s buffer args }"
| "command_serializer s buffer (Container t # args) = do {
     (s, buffer) \<leftarrow> dump_scalar_pack s buffer;
     buffer \<leftarrow> dump_container_to_buffer buffer t;
     command_serializer s buffer args }"
| "command_serializer s buffer (Array t # args) = do {
     (s, buffer) \<leftarrow> dump_scalar_pack s buffer;
     buffer \<leftarrow> dump_array_to_buffer buffer t;
     command_serializer s buffer args }"
| "command_serializer s buffer (CString t # args) = do {
     (s, buffer) \<leftarrow> dump_scalar_pack s buffer;
     str \<leftarrow> string_of_cstr t;
     buffer \<leftarrow> dump_container_to_buffer buffer str;
     command_serializer s buffer args }"

definition build_command ::
  "u16 \<Rightarrow> u16 \<Rightarrow> dyn_ser \<Rightarrow> buf \<Rightarrow> arg list \<Rightarrow> (dyn_ser \<times> buf) option" where
  "build_command class_id func_id s buffer args = do {
     header \<leftarrow> serialize [U32 0, U16 class_id, U16 func_id];
     buffer \<leftarrow> store_bytes (resize (required_buffer_size [TU32, TU16, TU16]) buffer) 0 header;
     if args = [] then Some (s, buffer)
     else do {
       (s, buffer) \<leftarrow> command_serializer (s\<lparr>scal_size := 0\<rparr>) buffer args;
       dump_scalar_pack s buffer } }"

text \<open>A tuple is unpacked into the arguments of \<open>build_command\<close>.\<close>

definition call_command_serializer ::
  "u16 \<Rightarrow> u16 \<Rightarrow> dyn_ser \<Rightarrow> buf \<Rightarrow> arg list \<Rightarrow> (dyn_ser \<times> buf) option" where
  "call_command_serializer class_id func_id s buffer tup_args =
     build_command class_id func_id s buffer (map (\<lambda>i. tup_args ! i) [0..<length tup_args])"

subsection \<open>What a command is on the wire\<close>

text \<open>
  The specification: a header of eight bytes, then every argument in order. A scalar is its
  encoding, an array its bytes, a container its length in bytes followed by its bytes. The
  length field has 32 bits, so it, and the bytes sent, wrap at \<open>2^32\<close> (\<open>sent_bytes\<close>).
\<close>

definition sent_bytes :: "byte list \<Rightarrow> byte list" where
  "sent_bytes c = take (unat (of_nat (length c) :: u32)) c"

definition enc_container :: "byte list \<Rightarrow> byte list" where
  "enc_container c = be32 (of_nat (length c)) @ sent_bytes c"

fun enc_arg :: "arg \<Rightarrow> byte list" where
  "enc_arg (Scalar v) = enc_scalar v"
| "enc_arg (Container c) = enc_container c"
| "enc_arg (Array a) = a"
| "enc_arg (CString t) = enc_container (takeWhile (\<lambda>c. c \<noteq> 0) t)"

definition enc_header :: "u16 \<Rightarrow> u16 \<Rightarrow> byte list" where
  "enc_header class_id func_id = be32 0 @ be16 class_id @ be16 func_id"

text \<open>
  Every run of consecutive scalars must fit the pack buffer of the serializer (\<open>cap\<close> bytes,
  of which \<open>used\<close> are taken), and every C string must be terminated.
\<close>

fun runs_fit :: "nat \<Rightarrow> nat \<Rightarrow> arg list \<Rightarrow> bool" where
  "runs_fit cap used [] = True"
| "runs_fit cap used (Scalar v # args) =
     (used + size_of (ty_of v) \<le> cap \<and> runs_fit cap (used + size_of (ty_of v)) args)"
| "runs_fit cap used (CString t # args) = (0 \<in> set t \<and> runs_fit cap 0 args)"
| "runs_fit cap used (_ # args) = runs_fit cap 0 args"

definition pending :: "dyn_ser \<Rightarrow> byte list" where
  "pending s = take (scal_size s) (scal_data s)"

definition ser_ok :: "nat \<Rightarrow> dyn_ser \<Rightarrow> bool" where
  "ser_ok cap s \<longleftrightarrow> length (scal_data s) = cap \<and> scal_size s \<le> cap"

lemma dyn_append_ok:
  assumes "ser_ok cap s" and "scal_size s + size_of (ty_of v) \<le> cap"
  obtains s' where "dyn_append s v = Some s'" "ser_ok cap s'"
    "pending s' = pending s @ enc_scalar v" "scal_size s' = scal_size s + size_of (ty_of v)"
proof
  let ?s = "s\<lparr>scal_data := patch (scal_data s) (scal_size s) (enc_scalar v),
    scal_size := scal_size s + size_of (ty_of v)\<rparr>"
  show "dyn_append s v = Some ?s"
    using assms by (simp add: dyn_append_def append_scalar_patch ser_ok_def)
  show "ser_ok cap ?s" "scal_size ?s = scal_size s + size_of (ty_of v)"
    using assms by (simp_all add: ser_ok_def)
  show "pending ?s = pending s @ enc_scalar v"
    using assms by (simp add: pending_def patch_def ser_ok_def)
qed

lemma dyn_append_overflow:
  "ser_ok cap s \<Longrightarrow> cap < scal_size s + size_of (ty_of v) \<Longrightarrow> dyn_append s v = None"
  by (simp add: dyn_append_def append_scalar_patch ser_ok_def)

lemma dump_scalar_pack_ok:
  assumes "ser_ok cap s"
  shows "dump_scalar_pack s buffer = Some (s\<lparr>scal_size := 0\<rparr>, buffer @ pending s)"
  using assms by (auto simp: dump_scalar_pack_def load_bytes_def pending_def ser_ok_def)

lemma ser_ok_reset: "ser_ok cap s \<Longrightarrow> ser_ok cap (s\<lparr>scal_size := 0\<rparr>)"
  by (simp add: ser_ok_def)

lemma pending_reset [simp]: "pending (s\<lparr>scal_size := 0\<rparr>) = []"
  by (simp add: pending_def)

lemma unat_of_nat_le: "unat (of_nat n :: 'a::len word) \<le> n"
  by (simp add: unat_of_nat)

lemma dump_container_eq:
  "dump_container_to_buffer buffer c = Some (buffer @ enc_container c)"
proof -
  let ?n = "of_nat (length c) :: u32"
  have "append_u32 (buffer @ replicate 4 0) (length buffer) ?n = Some (buffer @ be32 ?n)"
    by (simp add: append_u32_patch patch_def)
  moreover have "load_bytes c 0 (unat ?n) = Some (sent_bytes c)"
    by (simp add: load_bytes_def sent_bytes_def unat_of_nat_le)
  moreover have "sent_bytes c = []" if "\<not> 0 < ?n"
    using that by (simp add: sent_bytes_def word_gt_0)
  ultimately show ?thesis
    by (auto simp: dump_container_to_buffer_def Let_def resize_def enc_container_def)
qed

lemma dump_array_eq: "dump_array_to_buffer buffer a = Some (buffer @ a)"
  by (auto simp: dump_array_to_buffer_def load_bytes_def)

text \<open>The serializer under its invariant: what is in the buffer and what is pending.\<close>

lemma command_serializer_ok:
  "ser_ok cap s \<Longrightarrow> runs_fit cap (scal_size s) args \<Longrightarrow>
    \<exists>s' buffer'. command_serializer s buffer args = Some (s', buffer') \<and> ser_ok cap s' \<and>
      buffer' @ pending s' = buffer @ pending s @ concat (map enc_arg args)"
proof (induction args arbitrary: s buffer)
  case Nil
  then show ?case by simp
next
  case (Cons a args)
  let ?r = "s\<lparr>scal_size := 0\<rparr>"
  have flush: "dump_scalar_pack s buffer = Some (?r, buffer @ pending s)"
    using Cons.prems(1) by (rule dump_scalar_pack_ok)
  have IH: "\<exists>s' buffer'. command_serializer ?r (buffer @ pending s @ e) args = Some (s', buffer') \<and>
      ser_ok cap s' \<and> buffer' @ pending s' = buffer @ pending s @ e @ concat (map enc_arg args)"
    if "runs_fit cap 0 args" for e
    using Cons.IH [of ?r "buffer @ pending s @ e"] that ser_ok_reset [OF Cons.prems(1)] by simp
  show ?case
  proof (cases a)
    case (Scalar t)
    with Cons.prems have fit: "scal_size s + size_of (ty_of t) \<le> cap" by simp
    obtain s' where s': "dyn_append s t = Some s'" "ser_ok cap s'"
      "pending s' = pending s @ enc_scalar t" "scal_size s' = scal_size s + size_of (ty_of t)"
      by (rule dyn_append_ok [OF Cons.prems(1) fit])
    with Cons.IH [OF s'(2), of buffer] Cons.prems Scalar show ?thesis by simp
  qed (use IH flush Cons.prems in
      \<open>simp_all add: dump_container_eq dump_array_eq string_of_cstr_def\<close>)
qed

lemma command_serializer_overflow:
  "ser_ok cap s \<Longrightarrow> \<not> runs_fit cap (scal_size s) args \<Longrightarrow> command_serializer s buffer args = None"
proof (induction args arbitrary: s buffer)
  case Nil
  then show ?case by simp
next
  case (Cons a args)
  have flush: "dump_scalar_pack s buffer = Some (s\<lparr>scal_size := 0\<rparr>, buffer @ pending s)"
    using Cons.prems(1) by (rule dump_scalar_pack_ok)
  have IH: "\<not> runs_fit cap 0 args \<Longrightarrow> command_serializer (s\<lparr>scal_size := 0\<rparr>) e args = None" for e
    using Cons.IH [OF ser_ok_reset [OF Cons.prems(1)]] by simp
  show ?case
  proof (cases a)
    case (Scalar t)
    show ?thesis
    proof (cases "scal_size s + size_of (ty_of t) \<le> cap")
      case True
      obtain s' where s': "dyn_append s t = Some s'" "ser_ok cap s'"
        "pending s' = pending s @ enc_scalar t" "scal_size s' = scal_size s + size_of (ty_of t)"
        by (rule dyn_append_ok [OF Cons.prems(1) True])
      with Cons.IH [OF s'(2)] Cons.prems True Scalar show ?thesis by simp
    next
      case False
      with Cons.prems Scalar show ?thesis by (simp add: dyn_append_overflow)
    qed
  qed (use IH flush Cons.prems in
      \<open>auto simp: dump_container_eq dump_array_eq string_of_cstr_def\<close>)
qed

lemma length_enc_header [simp]: "length (enc_header class_id func_id) = 8"
  by (simp add: enc_header_def)

lemma length_resize [simp]: "length (resize n b) = n"
  by (simp add: resize_def)

lemma build_header:
  "store_bytes (resize 8 buffer) 0 (enc_header class_id func_id) = Some (enc_header class_id func_id)"
  by (simp add: store_bytes_patch patch_whole)

lemma build_command_unfold:
  "build_command class_id func_id s buffer args =
     (if args = [] then Some (s, enc_header class_id func_id)
      else Option.bind (command_serializer (s\<lparr>scal_size := 0\<rparr>) (enc_header class_id func_id) args)
        (\<lambda>(s, buffer). dump_scalar_pack s buffer))"
  using build_header [of buffer class_id func_id]
  by (simp add: build_command_def serialize_eq enc_header_def)

text \<open>
  The serializer implements the wire format: whatever was in the reused buffer and in the pack
  before, the command is the header followed by the encoding of the arguments in their order.
\<close>

lemma build_command_eq:
  assumes "length (scal_data s) = cap" and "runs_fit cap 0 args"
  shows "\<exists>s'. build_command class_id func_id s buffer args
    = Some (s', enc_header class_id func_id @ concat (map enc_arg args)) \<and> length (scal_data s') = cap"
proof (cases "args = []")
  case True
  with assms show ?thesis by (simp add: build_command_unfold)
next
  case False
  have "ser_ok cap (s\<lparr>scal_size := 0\<rparr>)" using assms by (simp add: ser_ok_def)
  from command_serializer_ok [OF this] assms(2) obtain s' buffer' where
    "command_serializer (s\<lparr>scal_size := 0\<rparr>) (enc_header class_id func_id) args = Some (s', buffer')"
    "ser_ok cap s'" "buffer' @ pending s' = enc_header class_id func_id @ concat (map enc_arg args)"
    by force
  then show ?thesis
    using False by (auto simp: build_command_unfold dump_scalar_pack_ok ser_ok_def)
qed

lemma build_command_overflow:
  assumes "length (scal_data s) = cap" and "\<not> runs_fit cap 0 args"
  shows "build_command class_id func_id s buffer args = None"
  using assms command_serializer_overflow [of cap "s\<lparr>scal_size := 0\<rparr>" args]
  by (cases "args = []") (auto simp: build_command_unfold ser_ok_def)

lemma call_command_serializer_eq:
  "call_command_serializer class_id func_id s buffer args = build_command class_id func_id s buffer args"
  by (simp add: call_command_serializer_def map_nth)

section \<open>Properties\<close>

text \<open>
  A scalar of any of the thirteen types is written to exactly the bytes of its encoding and nothing else, reading
  the same place gives it back, and the write leaves the buffer exactly when these bytes do not fit.
\<close>
lemma append_extract_scalar:
  assumes "valid_scalar v"
  shows "(p + size_of (ty_of v) \<le> length b \<longrightarrow> (\<exists>b'. append_scalar b p v = Some b' \<and> length b' = length b \<and>
      take p b' = take p b \<and> drop (p + size_of (ty_of v)) b' = drop (p + size_of (ty_of v)) b \<and>
      extract_scalar (ty_of v) b' p = Some v)) \<and>
    (length b < p + size_of (ty_of v) \<longrightarrow> append_scalar b p v = None)"
proof -
  have "append_scalar b p v = Some (patch b p (enc_scalar v)) \<and>
      extract_scalar (ty_of v) (patch b p (enc_scalar v)) p = Some v" if "p + size_of (ty_of v) \<le> length b"
    using that extract_scalar_enc [OF assms, of "take p b" "drop (p + size_of (ty_of v)) b"]
    by (simp add: append_scalar_patch patch_def)
  moreover have "take p (patch b p (enc_scalar v)) = take p b \<and>
      drop (p + size_of (ty_of v)) (patch b p (enc_scalar v)) = drop (p + size_of (ty_of v)) b"
    if "p + size_of (ty_of v) \<le> length b"
    using that by (simp add: patch_def)
  ultimately show ?thesis by (auto simp: append_scalar_patch)
qed

text \<open>
  The tuple serializer and deserializer are inverse: \<open>deserialize<Tp...>\<close> of what \<open>serialize<Tp...>\<close>
  made is the tuple, for every sequence of types.
\<close>
lemma serialize_deserialize:
  assumes "list_all valid_scalar vs"
  shows "Option.bind (serialize vs) (deserialize_at 0 (map ty_of vs)) = Some vs"
  using deserialize_at_enc [OF assms, of "[]" "[]"] by (simp add: serialize_eq)

text \<open>
  C13: \<open>build_command\<close> writes the wire format: the header, then every argument in order, whatever the reused buffer
  and pack held before; it leaves the pack of \<open>cap\<close> bytes exactly when a run of scalars does not fit it or a C
  string is not terminated.
\<close>
theorem build_command_wire_format:
  assumes "length (scal_data s) = cap"
  shows "map_option snd (build_command class_id func_id s buffer args) =
    (if runs_fit cap 0 args then Some (enc_header class_id func_id @ concat (map enc_arg args)) else None)"
  using build_command_eq [OF assms, of args class_id func_id buffer]
    build_command_overflow [OF assms, of args class_id func_id buffer] by auto

theorem build_command_wire_format_witness:
  "map_option snd (build_command 2 5 \<lparr>scal_data = [0, 0, 0, 0], scal_size = 3\<rparr> [9, 9] [Scalar (U16 1), Container [7]])
     = Some (enc_header 2 5 @ enc_scalar (U16 1) @ enc_container [7])"
  using build_command_wire_format [of "\<lparr>scal_data = [0, 0, 0, 0], scal_size = 3\<rparr>" 4 2 5 "[9, 9]"
      "[Scalar (U16 1), Container [7]]"] by simp

end
