(* ===== verification/Client_Serdes.thy ===== *)
theory Client_Serdes
  imports Serializer
begin

text \<open>
  The namespace \<open>serdes\<close> of \<^verbatim>\<open>src/server/client/koheron-client.hpp\<close>: the encoders and decoders the client has of its
  own, the tuple templates and its \<open>DynamicSerializer\<close>. The client shares no header with the server, so the
  two sides of the wire format are written twice; this theory translates the client's side and shows that it agrees
  with the server's. The client has no complex numbers: a program that uses one does not compile, and
  \<open>serdes_append_scalar\<close> and \<open>serdes_extract_scalar\<close> are \<^term>\<open>None\<close> there.
\<close>

section \<open>Scalars\<close>

subsection \<open>Unsigned integers\<close>

definition serdes_extract_u8 :: "buf \<Rightarrow> nat \<Rightarrow> byte option" where
  "serdes_extract_u8 b p = load b p"

definition serdes_append_u8 :: "buf \<Rightarrow> nat \<Rightarrow> byte \<Rightarrow> buf option" where
  "serdes_append_u8 b p value = store b p value"

text \<open>The operands are promoted to \<open>int\<close>; the sum is converted back to 16 bits.\<close>

definition serdes_extract_u16 :: "buf \<Rightarrow> nat \<Rightarrow> u16 option" where
  "serdes_extract_u16 b p = do {
     b1 \<leftarrow> load b (p + 1);
     b0 \<leftarrow> load b p;
     Some (ucast ((ucast b1 :: u32) + push_bit 8 (ucast b0))) }"

definition serdes_append_u16 :: "buf \<Rightarrow> nat \<Rightarrow> u16 \<Rightarrow> buf option" where
  "serdes_append_u16 b p value = do {
     b \<leftarrow> store b p (ucast (drop_bit 8 value AND 0xff));
     store b (p + 1) (ucast (value AND 0xff)) }"

definition serdes_extract_u32 :: "buf \<Rightarrow> nat \<Rightarrow> u32 option" where
  "serdes_extract_u32 b p = do {
     b3 \<leftarrow> load b (p + 3);
     b2 \<leftarrow> load b (p + 2);
     b1 \<leftarrow> load b (p + 1);
     b0 \<leftarrow> load b p;
     Some (ucast b3 + push_bit 8 (ucast b2) + push_bit 16 (ucast b1) + push_bit 24 (ucast b0)) }"

definition serdes_append_u32 :: "buf \<Rightarrow> nat \<Rightarrow> u32 \<Rightarrow> buf option" where
  "serdes_append_u32 b p value = do {
     b \<leftarrow> store b p (ucast (drop_bit 24 value AND 0xff));
     b \<leftarrow> store b (p + 1) (ucast (drop_bit 16 value AND 0xff));
     b \<leftarrow> store b (p + 2) (ucast (drop_bit 8 value AND 0xff));
     store b (p + 3) (ucast (value AND 0xff)) }"

definition serdes_extract_u64 :: "buf \<Rightarrow> nat \<Rightarrow> u64 option" where
  "serdes_extract_u64 b p = do {
     u1 \<leftarrow> serdes_extract_u32 b p;
     u2 \<leftarrow> serdes_extract_u32 b (p + 4);
     Some (ucast u2 + push_bit 32 (ucast u1)) }"

definition serdes_append_u64 :: "buf \<Rightarrow> nat \<Rightarrow> u64 \<Rightarrow> buf option" where
  "serdes_append_u64 b p value = do {
     b \<leftarrow> serdes_append_u32 b p (ucast (drop_bit 32 value));
     serdes_append_u32 b (p + 4) (ucast value) }"

subsection \<open>Signed integers: a \<open>reinterpret_cast\<close> of the unsigned ones\<close>

definition serdes_extract_i8 :: "buf \<Rightarrow> nat \<Rightarrow> int option" where
  "serdes_extract_i8 b p = map_option sint (serdes_extract_u8 b p)"

definition serdes_append_i8 :: "buf \<Rightarrow> nat \<Rightarrow> int \<Rightarrow> buf option" where
  "serdes_append_i8 b p value = store b p (word_of_int value)"

definition serdes_extract_i16 :: "buf \<Rightarrow> nat \<Rightarrow> int option" where
  "serdes_extract_i16 b p = map_option sint (serdes_extract_u16 b p)"

definition serdes_append_i16 :: "buf \<Rightarrow> nat \<Rightarrow> int \<Rightarrow> buf option" where
  "serdes_append_i16 b p value = serdes_append_u16 b p (word_of_int value)"

definition serdes_extract_i32 :: "buf \<Rightarrow> nat \<Rightarrow> int option" where
  "serdes_extract_i32 b p = map_option sint (serdes_extract_u32 b p)"

definition serdes_append_i32 :: "buf \<Rightarrow> nat \<Rightarrow> int \<Rightarrow> buf option" where
  "serdes_append_i32 b p value = serdes_append_u32 b p (word_of_int value)"

definition serdes_extract_i64 :: "buf \<Rightarrow> nat \<Rightarrow> int option" where
  "serdes_extract_i64 b p = map_option sint (serdes_extract_u64 b p)"

definition serdes_append_i64 :: "buf \<Rightarrow> nat \<Rightarrow> int \<Rightarrow> buf option" where
  "serdes_append_i64 b p value = serdes_append_u64 b p (word_of_int value)"

subsection \<open>Floating point and bool\<close>

definition serdes_extract_float :: "buf \<Rightarrow> nat \<Rightarrow> float32 option" where
  "serdes_extract_float b p = map_option Float32 (serdes_extract_u32 b p)"

definition serdes_append_float :: "buf \<Rightarrow> nat \<Rightarrow> float32 \<Rightarrow> buf option" where
  "serdes_append_float b p value = serdes_append_u32 b p (float_bits value)"

definition serdes_extract_double :: "buf \<Rightarrow> nat \<Rightarrow> float64 option" where
  "serdes_extract_double b p = map_option Float64 (serdes_extract_u64 b p)"

definition serdes_append_double :: "buf \<Rightarrow> nat \<Rightarrow> float64 \<Rightarrow> buf option" where
  "serdes_append_double b p value = serdes_append_u64 b p (double_bits value)"

definition serdes_extract_bool :: "buf \<Rightarrow> nat \<Rightarrow> bool option" where
  "serdes_extract_bool b p = map_option (\<lambda>c. c = 1) (load b p)"

definition serdes_append_bool :: "buf \<Rightarrow> nat \<Rightarrow> bool \<Rightarrow> buf option" where
  "serdes_append_bool b p value = store b p (if value then 1 else 0)"

subsection \<open>The templates, selected by the type\<close>

fun serdes_append_scalar :: "buf \<Rightarrow> nat \<Rightarrow> scalar \<Rightarrow> buf option" where
  "serdes_append_scalar b p (U8 v) = serdes_append_u8 b p v"
| "serdes_append_scalar b p (I8 v) = serdes_append_i8 b p v"
| "serdes_append_scalar b p (U16 v) = serdes_append_u16 b p v"
| "serdes_append_scalar b p (I16 v) = serdes_append_i16 b p v"
| "serdes_append_scalar b p (U32 v) = serdes_append_u32 b p v"
| "serdes_append_scalar b p (I32 v) = serdes_append_i32 b p v"
| "serdes_append_scalar b p (U64 v) = serdes_append_u64 b p v"
| "serdes_append_scalar b p (I64 v) = serdes_append_i64 b p v"
| "serdes_append_scalar b p (Flt v) = serdes_append_float b p v"
| "serdes_append_scalar b p (Dbl v) = serdes_append_double b p v"
| "serdes_append_scalar b p (Bool v) = serdes_append_bool b p v"
| "serdes_append_scalar b p _ = None"

fun serdes_extract_scalar :: "scalar_ty \<Rightarrow> buf \<Rightarrow> nat \<Rightarrow> scalar option" where
  "serdes_extract_scalar TU8 b p = map_option U8 (serdes_extract_u8 b p)"
| "serdes_extract_scalar TI8 b p = map_option I8 (serdes_extract_i8 b p)"
| "serdes_extract_scalar TU16 b p = map_option U16 (serdes_extract_u16 b p)"
| "serdes_extract_scalar TI16 b p = map_option I16 (serdes_extract_i16 b p)"
| "serdes_extract_scalar TU32 b p = map_option U32 (serdes_extract_u32 b p)"
| "serdes_extract_scalar TI32 b p = map_option I32 (serdes_extract_i32 b p)"
| "serdes_extract_scalar TU64 b p = map_option U64 (serdes_extract_u64 b p)"
| "serdes_extract_scalar TI64 b p = map_option I64 (serdes_extract_i64 b p)"
| "serdes_extract_scalar TFloat b p = map_option Flt (serdes_extract_float b p)"
| "serdes_extract_scalar TDouble b p = map_option Dbl (serdes_extract_double b p)"
| "serdes_extract_scalar TBool b p = map_option Bool (serdes_extract_bool b p)"
| "serdes_extract_scalar _ b p = None"

text \<open>The variable template \<open>size_of\<close>; for the other types it is \<open>sizeof\<close>.\<close>

fun serdes_size_of :: "scalar_ty \<Rightarrow> nat" where
  "serdes_size_of TU8 = 1" | "serdes_size_of TI8 = 1"
| "serdes_size_of TU16 = 2" | "serdes_size_of TI16 = 2"
| "serdes_size_of TU32 = 4" | "serdes_size_of TI32 = 4"
| "serdes_size_of TU64 = 8" | "serdes_size_of TI64 = 8"
| "serdes_size_of TFloat = 4" | "serdes_size_of TDouble = 8"
| "serdes_size_of TBool = 1"
| "serdes_size_of TCplxFloat = 8" | "serdes_size_of TCplxDouble = 16"

section \<open>Tuples\<close>

fun serdes_deserialize_at :: "nat \<Rightarrow> scalar_ty list \<Rightarrow> buf \<Rightarrow> scalar list option" where
  "serdes_deserialize_at position [] b = Some []"
| "serdes_deserialize_at position [t] b = do { x \<leftarrow> serdes_extract_scalar t b position; Some [x] }"
| "serdes_deserialize_at position (t # ts) b = do {
     x \<leftarrow> serdes_extract_scalar t b position;
     xs \<leftarrow> serdes_deserialize_at (position + serdes_size_of t) ts b;
     Some (x # xs) }"

fun serdes_required_buffer_size :: "scalar_ty list \<Rightarrow> nat" where
  "serdes_required_buffer_size [] = 0"
| "serdes_required_buffer_size [t] = serdes_size_of t"
| "serdes_required_buffer_size (t # ts) = serdes_size_of t + serdes_required_buffer_size ts"

text \<open>The template recurses on the index \<open>I\<close> of the element; the list is what is left from there.\<close>

fun serdes_serialize_at :: "nat \<Rightarrow> scalar list \<Rightarrow> buf \<Rightarrow> buf option" where
  "serdes_serialize_at buff_pos [] b = Some b"
| "serdes_serialize_at buff_pos (v # vs) b = do {
     b \<leftarrow> serdes_append_scalar b buff_pos v;
     serdes_serialize_at (buff_pos + serdes_size_of (ty_of v)) vs b }"

text \<open>\<open>arr\<close> is the memory of the array before, which is not initialised.\<close>

definition serdes_serialize :: "scalar list \<Rightarrow> buf option" where
  "serdes_serialize t = serdes_serialize_at 0 t (replicate (serdes_required_buffer_size (map ty_of t)) 0)"

section \<open>The client's DynamicSerializer\<close>

definition serdes_append :: "dyn_ser \<Rightarrow> scalar \<Rightarrow> dyn_ser option" where
  "serdes_append s t = do {
     d \<leftarrow> serdes_append_scalar (scal_data s) (scal_size s) t;
     Some (s\<lparr>scal_data := d, scal_size := scal_size s + serdes_size_of (ty_of t)\<rparr>) }"

definition serdes_dump_scalar_pack :: "dyn_ser \<Rightarrow> buf \<Rightarrow> (dyn_ser \<times> buf) option" where
  "serdes_dump_scalar_pack s buffer =
     (if scal_size s > 0 then do {
        bytes \<leftarrow> load_bytes (scal_data s) 0 (scal_size s);
        Some (s\<lparr>scal_size := 0\<rparr>, buffer @ bytes) }
      else Some (s, buffer))"

definition serdes_dump_container_to_buffer :: "buf \<Rightarrow> byte list \<Rightarrow> buf option" where
  "serdes_dump_container_to_buffer buffer container = (
     let n_bytes = (of_nat (length container) :: u32);
         buffer = resize (length buffer + 4) buffer
     in do {
       buffer \<leftarrow> serdes_append_u32 buffer (length buffer - 4) n_bytes;
       if n_bytes > 0 then do {
         bytes \<leftarrow> load_bytes container 0 (unat n_bytes);
         Some (buffer @ bytes) }
       else Some buffer })"

definition serdes_dump_array_to_buffer :: "buf \<Rightarrow> byte list \<Rightarrow> buf option" where
  "serdes_dump_array_to_buffer buffer arr = (
     let n_bytes = length arr
     in if n_bytes > 0 then do { bytes \<leftarrow> load_bytes arr 0 n_bytes; Some (buffer @ bytes) }
        else Some buffer)"

text \<open>The overloads of \<open>command_serializer\<close>: for each kind of argument one for the last and one for the others.\<close>

fun serdes_command_serializer :: "dyn_ser \<Rightarrow> buf \<Rightarrow> arg list \<Rightarrow> (dyn_ser \<times> buf) option" where
  "serdes_command_serializer s buffer [] = Some (s, buffer)"
| "serdes_command_serializer s buffer (Scalar t # args) = do {
     s \<leftarrow> serdes_append s t;
     serdes_command_serializer s buffer args }"
| "serdes_command_serializer s buffer (Container t # args) = do {
     (s, buffer) \<leftarrow> serdes_dump_scalar_pack s buffer;
     buffer \<leftarrow> serdes_dump_container_to_buffer buffer t;
     serdes_command_serializer s buffer args }"
| "serdes_command_serializer s buffer (Array t # args) = do {
     (s, buffer) \<leftarrow> serdes_dump_scalar_pack s buffer;
     buffer \<leftarrow> serdes_dump_array_to_buffer buffer t;
     serdes_command_serializer s buffer args }"
| "serdes_command_serializer s buffer (CString t # args) = do {
     (s, buffer) \<leftarrow> serdes_dump_scalar_pack s buffer;
     str \<leftarrow> string_of_cstr t;
     buffer \<leftarrow> serdes_dump_container_to_buffer buffer str;
     serdes_command_serializer s buffer args }"

definition serdes_build_command ::
  "u16 \<Rightarrow> u16 \<Rightarrow> dyn_ser \<Rightarrow> buf \<Rightarrow> arg list \<Rightarrow> (dyn_ser \<times> buf) option" where
  "serdes_build_command class_id func_id s buffer args = do {
     header \<leftarrow> serdes_serialize [U32 0, U16 class_id, U16 func_id];
     buffer \<leftarrow> store_bytes (resize (serdes_required_buffer_size [TU32, TU16, TU16]) buffer) 0 header;
     if args = [] then Some (s, buffer)
     else do {
       (s, buffer) \<leftarrow> serdes_command_serializer (s\<lparr>scal_size := 0\<rparr>) buffer args;
       serdes_dump_scalar_pack s buffer } }"

text \<open>A tuple is unpacked into the arguments of \<open>build_command\<close>.\<close>

definition serdes_call_command_serializer ::
  "u16 \<Rightarrow> u16 \<Rightarrow> dyn_ser \<Rightarrow> buf \<Rightarrow> arg list \<Rightarrow> (dyn_ser \<times> buf) option" where
  "serdes_call_command_serializer class_id func_id s buffer tup_args =
     serdes_build_command class_id func_id s buffer (map (\<lambda>i. tup_args ! i) [0..<length tup_args])"

section \<open>What the header checks while it is compiled\<close>

text \<open>\<^term>\<open>None\<close> is an access outside of the buffer of a test, which the compiler rejects.\<close>

definition test_static_serdes :: "scalar \<Rightarrow> bool option" where
  "test_static_serdes v = do {
     buff \<leftarrow> serdes_append_scalar (replicate (serdes_size_of (ty_of v)) 0) 0 v;
     x \<leftarrow> serdes_extract_scalar (ty_of v) buff 0;
     Some (x = v) }"

definition test_deserialize :: "bool option" where
  "test_deserialize = do {
     buff \<leftarrow> serdes_append_u8 (replicate (serdes_required_buffer_size [TU8, TU32]) 0) 0 255;
     buff \<leftarrow> serdes_append_u32 buff (0 + serdes_size_of TU8) 8987;
     xs \<leftarrow> serdes_deserialize_at 0 [TU8, TU32] buff;
     Some (xs = [U8 255, U32 8987]) }"

definition test_serialize :: "bool option" where
  "test_serialize = do {
     let t = [U8 255, U32 8987];
     buff \<leftarrow> serdes_serialize_at 0 t (replicate (serdes_required_buffer_size [TU8, TU32]) 0);
     xs \<leftarrow> serdes_deserialize_at 0 [TU8, TU32] buff;
     Some (xs = t) }"

text \<open>
  \<open>pseudo_cast\<close>, on the representations of its argument and of its result, which has \<open>n\<close> bytes; that of \<open>T(0)\<close> is
  zero. Between types of one size it keeps the representation, which is why the codecs of \<open>float\<close> and \<open>double\<close> are those of the
  integers of their bits.
\<close>

definition pseudo_cast :: "nat \<Rightarrow> byte list \<Rightarrow> byte list option" where
  "pseudo_cast n x = do {
     let to = replicate n 0;
     src \<leftarrow> load_bytes x 0 (if n < length x then n else length x);
     store_bytes to 0 src }"

section \<open>Agreement with the server\<close>

fun real_ty :: "scalar_ty \<Rightarrow> bool" where
  "real_ty TCplxFloat = False" | "real_ty TCplxDouble = False" | "real_ty _ = True"

fun real_arg :: "arg \<Rightarrow> bool" where
  "real_arg (Scalar v) = real_ty (ty_of v)" | "real_arg _ = True"

lemmas serdes_defs = serdes_extract_u8_def serdes_append_u8_def serdes_extract_u16_def
  serdes_append_u16_def serdes_extract_u32_def serdes_append_u32_def
  serdes_extract_u64_def serdes_append_u64_def serdes_extract_i8_def
  serdes_append_i8_def serdes_extract_i16_def serdes_append_i16_def
  serdes_extract_i32_def serdes_append_i32_def serdes_extract_i64_def
  serdes_append_i64_def serdes_extract_float_def serdes_append_float_def
  serdes_extract_double_def serdes_append_double_def serdes_extract_bool_def
  serdes_append_bool_def
lemmas server_defs = extract_u8_def append_u8_def extract_u16_def append_u16_def extract_u32_def
  append_u32_def extract_u64_def append_u64_def extract_i8_def append_i8_def
  extract_i16_def append_i16_def extract_i32_def append_i32_def extract_i64_def
  append_i64_def extract_float_def append_float_def extract_double_def append_double_def
  extract_bool_def append_bool_def

lemma serdes_u32 [simp]: "serdes_append_u32 = append_u32" "serdes_extract_u32 = extract_u32"
  by (simp_all add: fun_eq_iff serdes_append_u32_def append_u32_def serdes_extract_u32_def extract_u32_def)

lemma serdes_append_scalar_eq [simp]: "real_ty (ty_of v) \<Longrightarrow> serdes_append_scalar b p v = append_scalar b p v"
  by (cases v) (simp_all add: serdes_defs server_defs)

lemma serdes_extract_scalar_eq [simp]: "real_ty t \<Longrightarrow> serdes_extract_scalar t b p = extract_scalar t b p"
  by (cases t) (simp_all add: serdes_defs server_defs)

lemma serdes_size_of_eq [simp]: "serdes_size_of t = size_of t"
  by (cases t) simp_all

lemma serdes_required_buffer_size_eq [simp]: "serdes_required_buffer_size ts = required_buffer_size ts"
  by (induction ts rule: serdes_required_buffer_size.induct) simp_all

lemma serdes_deserialize_at_eq [simp]:
  "list_all real_ty ts \<Longrightarrow> serdes_deserialize_at p ts b = deserialize_at p ts b"
  by (induction p ts b rule: serdes_deserialize_at.induct) (simp_all cong: Option.bind_cong)

lemma serdes_serialize_at_eq [simp]:
  "list_all real_ty (map ty_of vs) \<Longrightarrow> serdes_serialize_at p vs b = serialize_at p vs b"
  by (induction p vs b rule: serdes_serialize_at.induct) (simp_all cong: Option.bind_cong)

lemma serdes_serialize_eq [simp]: "list_all real_ty (map ty_of vs) \<Longrightarrow> serdes_serialize vs = serialize vs"
  by (simp add: serdes_serialize_def serialize_def)

lemma serdes_dump_eq [simp]:
  "serdes_dump_scalar_pack = dump_scalar_pack" "serdes_dump_container_to_buffer = dump_container_to_buffer"
  "serdes_dump_array_to_buffer = dump_array_to_buffer"
  by (simp_all add: fun_eq_iff serdes_dump_scalar_pack_def dump_scalar_pack_def serdes_dump_container_to_buffer_def
      dump_container_to_buffer_def serdes_dump_array_to_buffer_def dump_array_to_buffer_def)

lemma serdes_append_eq [simp]: "real_ty (ty_of v) \<Longrightarrow> serdes_append s v = dyn_append s v"
  by (simp add: serdes_append_def dyn_append_def)

lemma serdes_command_serializer_eq [simp]:
  "list_all real_arg args \<Longrightarrow> serdes_command_serializer s buffer args = command_serializer s buffer args"
proof (induction args arbitrary: s buffer)
  case (Cons a args)
  then show ?case by (cases a) simp_all
qed simp

lemma serdes_build_command_eq:
  "list_all real_arg args \<Longrightarrow>
    serdes_build_command class_id func_id s buffer args = build_command class_id func_id s buffer args"
  by (simp add: serdes_build_command_def build_command_def cong: if_cong)

lemma serdes_call_command_serializer_eq:
  "serdes_call_command_serializer class_id func_id s buffer args = serdes_build_command class_id func_id s buffer args"
  by (simp add: serdes_call_command_serializer_def map_nth)

lemma pseudo_cast_bytes:
  "pseudo_cast n x = Some (take n x @ replicate (n - length x) 0)"
  by (simp add: pseudo_cast_def load_bytes_def store_bytes_patch patch_def)

lemma pseudo_cast_same_size: "length x = n \<Longrightarrow> pseudo_cast n x = Some x"
  by (simp add: pseudo_cast_bytes)

text \<open>
  The test of a scalar, which the header makes for five values, succeeds for every value of the types it has an encoder for;
  so do the tests of the tuples, also the one that is defined and not asserted.
\<close>

lemma test_static_serdes_ok: "real_ty (ty_of v) \<Longrightarrow> valid_scalar v \<Longrightarrow> test_static_serdes v = Some True"
  using deserialize_at_enc [of "[v]" "[]" "[]"] serialize_eq [of "[v]"]
  by (simp add: test_static_serdes_def serialize_def bind_eq_Some_conv)

lemma test_tuples_ok: "test_deserialize = Some True" "test_serialize = Some True"
proof -
  let ?t = "[U8 255, U32 8987]"
  have "serialize_at 0 ?t (replicate 5 0) = Some (concat (map enc_scalar ?t))"
    by (subst serialize_at_patch) (simp_all add: patch_whole)
  moreover have "deserialize_at 0 (map ty_of ?t) (concat (map enc_scalar ?t)) = Some ?t"
    using deserialize_at_enc [of ?t "[]" "[]"] by simp
  ultimately show "test_serialize = Some True" by (simp add: test_serialize_def del: serdes_serialize_at.simps serdes_deserialize_at.simps
      serialize_at.simps deserialize_at.simps)
  moreover have "test_deserialize = test_serialize" by (simp add: test_deserialize_def test_serialize_def)
  ultimately show "test_deserialize = Some True" by simp
qed

section \<open>Properties\<close>

text \<open>
  C26: the client and the server agree on the wire format, although each has its own serializer: for arguments
  the client supports, the command it builds is byte for byte the one the server would build, whatever the state of the
  serializer, and each side decodes the tuples the other one encoded.
\<close>
theorem serdes_agrees:
  assumes "list_all real_arg args" and "list_all real_ty (map ty_of vs)" and "list_all valid_scalar vs"
  shows "serdes_build_command class_id func_id s buffer args = build_command class_id func_id s buffer args \<and>
    Option.bind (serialize vs) (serdes_deserialize_at 0 (map ty_of vs)) = Some vs \<and>
    Option.bind (serdes_serialize vs) (deserialize_at 0 (map ty_of vs)) = Some vs"
  using serdes_build_command_eq [OF assms(1)] deserialize_at_enc [OF assms(3), of "[]" "[]"] assms(2)
  by (simp add: serialize_eq)

theorem serdes_agrees_witness:
  "serdes_build_command 2 5 \<lparr>scal_data = replicate 1024 0, scal_size = 3\<rparr> [9] [Scalar (U16 7), Container [1, 2, 3]] =
     build_command 2 5 \<lparr>scal_data = replicate 1024 0, scal_size = 3\<rparr> [9] [Scalar (U16 7), Container [1, 2, 3]] \<and>
   Option.bind (serdes_serialize [I16 (- 5), Bool True]) (deserialize_at 0 [TI16, TBool]) = Some [I16 (- 5), Bool True]"
  using serdes_agrees [of "[Scalar (U16 7), Container [1, 2, 3]]" "[I16 (- 5), Bool True]" 2 5
      "\<lparr>scal_data = replicate 1024 0, scal_size = 3\<rparr>" "[9]"]
  by (simp add: in_range_def)

end
