(* ===== verification/Commands.thy ===== *)
theory Commands
  imports Serializer
begin

text \<open>
  \<^verbatim>\<open>src/server/core/commands.hpp\<close> and the constants of
  \<^verbatim>\<open>src/server/core/server_definitions.hpp\<close>: the receive \<open>Buffer\<close> with its read
  position, and the \<open>Command\<close> a session hands to the drivers.

  \<open>begin()\<close> is a pointer to the current position, so every read of the buffer starts there. None
  of the reads checks the length of the buffer against the position: where the source would read
  past the end of the array, the model is \<^term>\<open>None\<close>.
\<close>

section \<open>Constants\<close>

definition CMD_PAYLOAD_BUFFER_LEN :: nat where "CMD_PAYLOAD_BUFFER_LEN = 16384 * 16"
definition KOHERON_READ_STR_LEN :: nat where "KOHERON_READ_STR_LEN = 16384"
definition KOHERON_RECV_DATA_BUFF_LEN :: nat where "KOHERON_RECV_DATA_BUFF_LEN = 16384 * 16"
definition WEBSOCK_READ_STR_LEN :: nat where "WEBSOCK_READ_STR_LEN = KOHERON_RECV_DATA_BUFF_LEN"
definition WEBSOCK_SEND_BUF_LEN :: nat where "WEBSOCK_SEND_BUF_LEN = 16384 * 16"
definition HEADER_SIZE :: nat where "HEADER_SIZE = 8"
definition HEADER_START :: nat where "HEADER_START = 4"

lemmas buffer_lengths = CMD_PAYLOAD_BUFFER_LEN_def KOHERON_READ_STR_LEN_def
  KOHERON_RECV_DATA_BUFF_LEN_def WEBSOCK_READ_STR_LEN_def WEBSOCK_SEND_BUF_LEN_def
  HEADER_SIZE_def HEADER_START_def

datatype SockType = NONE | TCP | WEBSOCK | UNIX

section \<open>Buffer\<close>

record buffer =
  buf_data :: buf
  buf_pos :: nat

definition buffer_set :: "buffer \<Rightarrow> buffer" where
  "buffer_set f = f\<lparr>buf_data := replicate (length (buf_data f)) 0\<rparr>"

definition buffer_deserialize :: "scalar_ty list \<Rightarrow> buffer \<Rightarrow> (scalar list \<times> buffer) option" where
  "buffer_deserialize ts f = do {
     tup \<leftarrow> deserialize_at (buf_pos f) ts (buf_data f);
     Some (tup, f\<lparr>buf_pos := buf_pos f + required_buffer_size ts\<rparr>) }"

text \<open>\<open>extract_array<T, N>\<close>: the \<open>sizeof(T) * N\<close> bytes of the array as they lie in the buffer.\<close>

definition extract_array :: "nat \<Rightarrow> nat \<Rightarrow> buffer \<Rightarrow> (byte list \<times> buffer) option" where
  "extract_array size_T N f = do {
     p \<leftarrow> load_bytes (buf_data f) (buf_pos f) (size_T * N);
     Some (p, f\<lparr>buf_pos := buf_pos f + size_T * N\<rparr>) }"

definition to_vector :: "nat \<Rightarrow> nat \<Rightarrow> buffer \<Rightarrow> (byte list \<times> buffer) option" where
  "to_vector size_T len f = do {
     vec \<leftarrow> load_bytes (buf_data f) (buf_pos f) (len * size_T);
     Some (vec, f\<lparr>buf_pos := buf_pos f + len * size_T\<rparr>) }"

definition to_string :: "nat \<Rightarrow> buffer \<Rightarrow> (byte list \<times> buffer) option" where
  "to_string len f = do {
     str \<leftarrow> load_bytes (buf_data f) (buf_pos f) len;
     Some (str, f\<lparr>buf_pos := buf_pos f + len\<rparr>) }"

section \<open>Command\<close>

record command =
  session_id :: int
  cmd_session :: "int option"
  driver :: nat
  operation :: int
  header :: buffer
  payload :: buffer

text \<open>The two buffers of a new command are not initialised: their contents are arguments.\<close>

definition new_command :: "buf \<Rightarrow> buf \<Rightarrow> command" where
  "new_command hdr_mem pay_mem = \<lparr> session_id = - 1, cmd_session = None, driver = 0, operation = - 1,
     header = \<lparr> buf_data = hdr_mem, buf_pos = HEADER_START \<rparr>,
     payload = \<lparr> buf_data = pay_mem, buf_pos = 0 \<rparr> \<rparr>"

text \<open>The end of both \<open>read_command\<close>s: driver and operation are the bytes 4 to 7 of the header.\<close>

definition decode_header :: "int \<Rightarrow> command \<Rightarrow> command option" where
  "decode_header sid cmd = do {
     (header_tuple, h) \<leftarrow> buffer_deserialize [TU16, TU16] (header cmd);
     case header_tuple of
       [U16 d, U16 p] \<Rightarrow> Some (cmd\<lparr>header := h, session_id := sid, cmd_session := Some sid,
         driver := unat d, operation := int (unat p)\<rparr>)
     | _ \<Rightarrow> None }"

definition command_ok :: "command \<Rightarrow> bool" where
  "command_ok cmd \<longleftrightarrow> length (buf_data (header cmd)) = HEADER_SIZE \<and>
     length (buf_data (payload cmd)) = CMD_PAYLOAD_BUFFER_LEN"

section \<open>Reading what is in front of the position\<close>

definition unread :: "buffer \<Rightarrow> byte list" where
  "unread f = drop (buf_pos f) (buf_data f)"

lemma unread_split:
  assumes "unread f = xs @ rest" and "xs \<noteq> []"
  shows "buf_data f = take (buf_pos f) (buf_data f) @ xs @ rest"
    and "length (take (buf_pos f) (buf_data f)) = buf_pos f"
proof -
  show "buf_data f = take (buf_pos f) (buf_data f) @ xs @ rest"
    using assms(1) by (metis append_take_drop_id unread_def)
  have "buf_pos f < length (buf_data f)"
    using assms by (metis append_is_Nil_conv drop_all linorder_le_less_linear unread_def)
  then show "length (take (buf_pos f) (buf_data f)) = buf_pos f" by simp
qed

lemma unread_advance: "unread f = xs @ rest \<Longrightarrow> n = length xs \<Longrightarrow> unread (f\<lparr>buf_pos := buf_pos f + n\<rparr>) = rest"
  unfolding unread_def
  by (metis append_eq_conv_conj buffer.select_convs(1,2) buffer.surjective buffer.update_convs(2)
      drop_drop add.commute)

lemma load_bytes_unread:
  assumes "unread f = xs @ rest" and "n = length xs" and "buf_pos f \<le> length (buf_data f)"
  shows "load_bytes (buf_data f) (buf_pos f) n = Some xs"
proof -
  have "length (buf_data f) - buf_pos f = length xs + length rest"
    using assms(1) by (metis length_append length_drop unread_def)
  with assms show ?thesis by (auto simp: load_bytes_def unread_def)
qed

lemma buffer_deserialize_enc:
  assumes "unread f = concat (map enc_scalar vs) @ rest" and "vs \<noteq> []" and "list_all valid_scalar vs"
  shows "buffer_deserialize (map ty_of vs) f
    = Some (vs, f\<lparr>buf_pos := buf_pos f + required_buffer_size (map ty_of vs)\<rparr>)"
proof -
  have ne: "concat (map enc_scalar vs) \<noteq> []"
    using assms(2) by (cases vs) (auto simp flip: length_0_conv)
  have "deserialize_at (length (take (buf_pos f) (buf_data f))) (map ty_of vs)
      (take (buf_pos f) (buf_data f) @ concat (map enc_scalar vs) @ rest) = Some vs"
    using assms(3) by (rule deserialize_at_enc)
  then show ?thesis
    unfolding unread_split(2) [OF assms(1) ne] unread_split(1) [OF assms(1) ne, symmetric]
    by (simp add: buffer_deserialize_def)
qed

lemma decode_header_enc:
  assumes "buf_data (header cmd) = enc_header d p" and "buf_pos (header cmd) = HEADER_START"
  shows "decode_header sid cmd = Some (cmd\<lparr>header := (header cmd)\<lparr>buf_pos := 8\<rparr>, session_id := sid,
    cmd_session := Some sid, driver := unat d, operation := int (unat p)\<rparr>)"
proof -
  have "unread (header cmd) = concat (map enc_scalar [U16 d, U16 p]) @ []"
    using assms by (simp add: unread_def enc_header_def HEADER_START_def)
  from buffer_deserialize_enc [OF this] assms(2) show ?thesis
    by (simp add: decode_header_def HEADER_START_def)
qed

end
