(* ===== verification/Session_Reader.thy ===== *)
theory Session_Reader
  imports Commands
begin

text \<open>
  How the arguments of a command are read on the server. For each operation of a driver the build
  generates a parser (\<^verbatim>\<open>src/server/__init__.py\<close>, \<open>build_args_packs\<close> and
  \<open>parser_generator\<close>, instantiated in \<^verbatim>\<open>templates/interface_driver.cpp\<close>): adjacent scalars form
  one pack read by \<open>session->deserialize<...>\<close>, every array, vector or string is read by
  \<open>session->recv\<close>, and a negative return value ends the operation with -1.

  What the parser relies on is the interface of \<open>SessionAbstract\<close>, the locale
  \<open>session_reader\<close>; the TCP and the WebSocket session provide it in their theories.
\<close>

section \<open>The generated parser\<close>

text \<open>Argument types: a scalar, \<open>std::vector<T>\<close> (by \<open>sizeof(T)\<close>), a string, \<open>std::array<T, N>\<close>.\<close>

datatype arg_ty = is_TScalar: TScalar scalar_ty | TVector nat | TString | TArray nat nat

datatype pack = ScalarPack "scalar_ty list" | VectorPack nat | StringPack | ArrayPack nat nat

definition scalar_pack :: "scalar_ty list \<Rightarrow> pack list" where
  "scalar_pack args_list = (if args_list = [] then [] else [ScalarPack args_list])"

fun build_args_packs :: "arg_ty list \<Rightarrow> scalar_ty list \<Rightarrow> pack list" where
  "build_args_packs [] args_list = scalar_pack args_list"
| "build_args_packs (TArray t n # ts) args_list =
     scalar_pack args_list @ ArrayPack t n # build_args_packs ts []"
| "build_args_packs (TVector t # ts) args_list =
     scalar_pack args_list @ VectorPack t # build_args_packs ts []"
| "build_args_packs (TString # ts) args_list =
     scalar_pack args_list @ StringPack # build_args_packs ts []"
| "build_args_packs (TScalar t # ts) args_list = build_args_packs ts (args_list @ [t])"

text \<open>The operations of a session that the generated code calls; each returns its \<open>int\<close> result.\<close>

record 's session_ops =
  deser_op :: "'s \<Rightarrow> scalar_ty list \<Rightarrow> (int \<times> scalar list \<times> 's) option"
  recv_array_op :: "'s \<Rightarrow> nat \<Rightarrow> nat \<Rightarrow> (int \<times> byte list \<times> 's) option"
  recv_vector_op :: "'s \<Rightarrow> nat \<Rightarrow> (int \<times> byte list \<times> 's) option"
  recv_string_op :: "'s \<Rightarrow> (int \<times> byte list \<times> 's) option"

text \<open>
  The code the generator emits: \<^term>\<open>Some (None, s)\<close> is \<open>return -1\<close>,
  \<^term>\<open>Some (Some args, s)\<close> the call of the operation with these arguments.
\<close>

fun run_parser :: "'s session_ops \<Rightarrow> pack list \<Rightarrow> 's \<Rightarrow> (arg list option \<times> 's) option" where
  "run_parser ops [] s = Some (Some [], s)"
| "run_parser ops (ScalarPack ts # ps) s = do {
     (err, tup, s) \<leftarrow> deser_op ops s ts;
     if err < 0 then Some (None, s)
     else do {
       (args, s) \<leftarrow> run_parser ops ps s;
       Some (map_option (\<lambda>as. map Scalar tup @ as) args, s) } }"
| "run_parser ops (VectorPack t # ps) s = do {
     (err, vec, s) \<leftarrow> recv_vector_op ops s t;
     if err < 0 then Some (None, s)
     else do {
       (args, s) \<leftarrow> run_parser ops ps s;
       Some (map_option (\<lambda>as. Container vec # as) args, s) } }"
| "run_parser ops (StringPack # ps) s = do {
     (err, str, s) \<leftarrow> recv_string_op ops s;
     if err < 0 then Some (None, s)
     else do {
       (args, s) \<leftarrow> run_parser ops ps s;
       Some (map_option (\<lambda>as. Container str # as) args, s) } }"
| "run_parser ops (ArrayPack t n # ps) s = do {
     (err, arr, s) \<leftarrow> recv_array_op ops s t n;
     if err < 0 then Some (None, s)
     else do {
       (args, s) \<leftarrow> run_parser ops ps s;
       Some (map_option (\<lambda>as. Array arr # as) args, s) } }"

definition parse_args :: "'s session_ops \<Rightarrow> arg_ty list \<Rightarrow> 's \<Rightarrow> (arg list option \<times> 's) option" where
  "parse_args ops ts s = run_parser ops (build_args_packs ts []) s"

section \<open>The interface of a session\<close>

text \<open>Arguments that an operation with the given types accepts; containers up to \<open>lim\<close> bytes.\<close>

fun arg_matches :: "nat \<Rightarrow> arg_ty \<Rightarrow> arg \<Rightarrow> bool" where
  "arg_matches lim (TScalar t) (Scalar v) \<longleftrightarrow> ty_of v = t \<and> valid_scalar v"
| "arg_matches lim (TVector t) (Container c) \<longleftrightarrow> 0 < t \<and> t dvd length c \<and> length c \<le> lim"
| "arg_matches lim TString (Container c) \<longleftrightarrow> length c \<le> lim"
| "arg_matches lim (TArray t n) (Array a) \<longleftrightarrow> length a = t * n \<and> length a \<le> lim"
| "arg_matches lim _ _ \<longleftrightarrow> False"

fun pack_of :: "arg_ty \<Rightarrow> pack" where
  "pack_of (TArray t n) = ArrayPack t n"
| "pack_of (TVector t) = VectorPack t"
| "pack_of TString = StringPack"
| "pack_of (TScalar t) = ScalarPack [t]"

lemma build_args_packs_container:
  "\<not> is_TScalar t \<Longrightarrow>
    build_args_packs (t # ts) args_list = scalar_pack args_list @ pack_of t # build_args_packs ts []"
  by (cases t) simp_all

lemma bind_map_pair:
  "Option.bind m (\<lambda>(x, s). Some (f x, s)) = map_option (\<lambda>(x, s). (f x, s)) m"
  by (cases m) auto

text \<open>
  \<open>left s\<close> is what the session has not handed out yet. When it starts with the encoding of what the
  caller asks for, the session returns it with a result that is not negative and drops it.
\<close>

locale session_reader =
  fixes ops :: "'s session_ops"
    and left :: "'s \<Rightarrow> byte list"
    and ok :: "'s \<Rightarrow> bool"
    and lim :: nat
  assumes deser_enc: "\<lbrakk> ok s; left s = concat (map enc_scalar vs) @ rest; vs \<noteq> [];
      list_all valid_scalar vs; required_buffer_size (map ty_of vs) \<le> lim \<rbrakk> \<Longrightarrow>
      \<exists>r s'. deser_op ops s (map ty_of vs) = Some (r, vs, s') \<and> 0 \<le> r \<and> ok s' \<and> left s' = rest"
    and recv_array_enc: "\<lbrakk> ok s; left s = a @ rest; length a = t * n; length a \<le> lim \<rbrakk> \<Longrightarrow>
      \<exists>r s'. recv_array_op ops s t n = Some (r, a, s') \<and> 0 \<le> r \<and> ok s' \<and> left s' = rest"
    and recv_vector_enc: "\<lbrakk> ok s; left s = enc_container c @ rest; 0 < t; t dvd length c;
      length c \<le> lim \<rbrakk> \<Longrightarrow>
      \<exists>r s'. recv_vector_op ops s t = Some (r, c, s') \<and> 0 \<le> r \<and> ok s' \<and> left s' = rest"
    and recv_string_enc: "\<lbrakk> ok s; left s = enc_container c @ rest; length c \<le> lim \<rbrakk> \<Longrightarrow>
      \<exists>r s'. recv_string_op ops s = Some (r, c, s') \<and> 0 \<le> r \<and> ok s' \<and> left s' = rest"
begin

lemma run_scalar_pack:
  assumes "ok s" and "left s = concat (map enc_scalar vs) @ rest" and "list_all valid_scalar vs"
    and "required_buffer_size (map ty_of vs) \<le> lim"
  obtains s' where "ok s'" "left s' = rest"
    "\<And>ps. run_parser ops (scalar_pack (map ty_of vs) @ ps) s
      = map_option (\<lambda>(args, s). (map_option (\<lambda>as. map Scalar vs @ as) args, s)) (run_parser ops ps s')"
proof (cases "vs = []")
  case True
  with assms that [of s] show ?thesis
    by (simp add: scalar_pack_def option.map_ident_strong split: prod.splits)
next
  case False
  obtain r s' where d: "deser_op ops s (map ty_of vs) = Some (r, vs, s')" "0 \<le> r" "ok s'" "left s' = rest"
    using deser_enc [OF assms(1,2) False assms(3,4)] by blast
  show ?thesis
  proof (rule that [OF d(3,4)])
    fix ps
    show "run_parser ops (scalar_pack (map ty_of vs) @ ps) s
      = map_option (\<lambda>(args, s). (map_option (\<lambda>as. map Scalar vs @ as) args, s)) (run_parser ops ps s')"
      using d False by (cases "run_parser ops ps s'") (auto simp: scalar_pack_def)
  qed
qed

text \<open>One argument that is not a scalar: its pack reads it and goes on with the others.\<close>

lemma run_container_pack:
  assumes "arg_matches lim t a" and "\<not> is_TScalar t" and "ok s" and "left s = enc_arg a @ rest"
  obtains s' where "ok s'" "left s' = rest"
    "\<And>ps. run_parser ops (pack_of t # ps) s
      = map_option (\<lambda>(args, s). (map_option (\<lambda>as. a # as) args, s)) (run_parser ops ps s')"
proof (cases t)
  case (TScalar ty)
  with assms(2) show ?thesis by simp
next
  case (TVector n)
  with assms obtain c where c: "a = Container c" "0 < n" "n dvd length c" "length c \<le> lim"
    by (cases a) auto
  from recv_vector_enc [OF assms(3) _ c(2-4), of rest] assms(4) c(1) obtain r s' where
    "recv_vector_op ops s n = Some (r, c, s')" "0 \<le> r" "ok s'" "left s' = rest"
    by auto
  with that [of s'] TVector c show ?thesis by (simp add: bind_map_pair)
next
  case TString
  with assms obtain c where c: "a = Container c" "length c \<le> lim" by (cases a) auto
  from recv_string_enc [OF assms(3) _ c(2), of rest] assms(4) c(1) obtain r s' where
    "recv_string_op ops s = Some (r, c, s')" "0 \<le> r" "ok s'" "left s' = rest"
    by auto
  with that [of s'] TString c show ?thesis by (simp add: bind_map_pair)
next
  case (TArray n m)
  with assms obtain c where c: "a = Array c" "length c = n * m" "length c \<le> lim" by (cases a) auto
  from recv_array_enc [OF assms(3) _ c(2,3), of rest] assms(4) c(1) obtain r s' where
    "recv_array_op ops s n m = Some (r, c, s')" "0 \<le> r" "ok s'" "left s' = rest"
    by auto
  with that [of s'] TArray c show ?thesis by (simp add: bind_map_pair)
qed

text \<open>The scalars collected so far are \<open>vs\<close>; a pack is read when a container or the end comes.\<close>

lemma run_packs:
  "\<lbrakk> list_all2 (arg_matches lim) ts args; list_all valid_scalar vs;
     required_buffer_size (map ty_of vs) + length (concat (map enc_arg args)) \<le> lim;
     ok s; left s = concat (map enc_scalar vs) @ concat (map enc_arg args) @ rest \<rbrakk> \<Longrightarrow>
   \<exists>s'. run_parser ops (build_args_packs ts (map ty_of vs)) s = Some (Some (map Scalar vs @ args), s') \<and>
     ok s' \<and> left s' = rest"
proof (induction ts arbitrary: args vs s)
  case Nil
  then obtain s' where s': "ok s'" "left s' = rest" "\<And>ps. run_parser ops (scalar_pack (map ty_of vs) @ ps) s
      = map_option (\<lambda>(args, s). (map_option (\<lambda>as. map Scalar vs @ as) args, s)) (run_parser ops ps s')"
    using run_scalar_pack [of s vs rest] by auto
  from s'(3) [of "[]"] s'(1,2) Nil show ?case by simp
next
  case (Cons t ts)
  then obtain a as where args: "args = a # as" "arg_matches lim t a" "list_all2 (arg_matches lim) ts as"
    by (auto simp: list_all2_Cons1)
  show ?case
  proof (cases "is_TScalar t")
    case True
    with args obtain v ty where v: "t = TScalar ty" "a = Scalar v" "ty_of v = ty" "valid_scalar v"
      by (cases t; cases a) auto
    have "\<exists>s'. run_parser ops (build_args_packs ts (map ty_of (vs @ [v]))) s
        = Some (Some (map Scalar (vs @ [v]) @ as), s') \<and> ok s' \<and> left s' = rest"
      by (rule Cons.IH) (use Cons.prems args v in simp_all)
    then show ?thesis using args v by simp
  next
    case False
    obtain s1 where s1: "ok s1" "left s1 = enc_arg a @ concat (map enc_arg as) @ rest"
      "\<And>ps. run_parser ops (scalar_pack (map ty_of vs) @ ps) s
        = map_option (\<lambda>(args, s). (map_option (\<lambda>as. map Scalar vs @ as) args, s)) (run_parser ops ps s1)"
      using run_scalar_pack [of s vs] Cons.prems args by auto
    obtain s2 where s2: "ok s2" "left s2 = concat (map enc_arg as) @ rest"
      "\<And>ps. run_parser ops (pack_of t # ps) s1
        = map_option (\<lambda>(args, s). (map_option (\<lambda>as. a # as) args, s)) (run_parser ops ps s2)"
      using run_container_pack [OF args(2) False s1(1,2)] by auto
    from Cons.IH [of as "[]" s2] s2 Cons.prems args obtain s3 where
      "run_parser ops (build_args_packs ts []) s2 = Some (Some as, s3)" "ok s3" "left s3 = rest"
      by auto
    with s1(3) [of "pack_of t # build_args_packs ts []"] s2 args False show ?thesis
      by (simp add: build_args_packs_container)
  qed
qed

text \<open>The parser recovers the arguments that were encoded, and leaves what follows them.\<close>

lemma parse_args_enc:
  assumes "list_all2 (arg_matches lim) ts args" and "length (concat (map enc_arg args)) \<le> lim"
    and "ok s" and "left s = concat (map enc_arg args) @ rest"
  shows "\<exists>s'. parse_args ops ts s = Some (Some args, s') \<and> ok s' \<and> left s' = rest"
  using run_packs [OF assms(1), of "[]" s rest] assms(2-4) by (simp add: parse_args_def)

end

end
