(* ===== verification/Posix_IO.thy ===== *)
theory Posix_IO
  imports Prelude
begin

text \<open>
  The system calls the server makes on a connection are not part of the repository: \<open>read\<close> and
  \<open>write\<close> are parameters of every definition that uses them, functions of a state \<^typ>\<open>'w\<close> of
  the outside world. What the code relies on is stated as the predicates \<open>reader_ok\<close>,
  \<open>writer_ok\<close> and \<open>stream_source\<close>, the behaviour POSIX documents for a stream
  socket. The loop that reads until a buffer is full occurs in the TCP session, in the I2C and SPI
  devices too; it is \<open>read_loop\<close>, modelled once.
\<close>

text \<open>\<open>RdBytes []\<close> is the return value 0, the end of the stream.\<close>

datatype rd_result = RdErr | RdBytes "byte list"

type_synonym 'w reader = "'w \<Rightarrow> nat \<Rightarrow> rd_result \<times> 'w"

text \<open>A writer is offered the bytes and returns how many it took, or a negative error.\<close>

type_synonym 'w writer = "'w \<Rightarrow> byte list \<Rightarrow> int \<times> 'w"

definition reader_ok :: "'w reader \<Rightarrow> bool" where
  "reader_ok rd \<longleftrightarrow> (\<forall>w n bs w'. rd w n = (RdBytes bs, w') \<longrightarrow> length bs \<le> n)"

definition writer_ok :: "'w writer \<Rightarrow> bool" where
  "writer_ok wr \<longleftrightarrow> (\<forall>w bs n w'. wr w bs = (n, w') \<longrightarrow> n \<le> int (length bs))"

text \<open>
  \<open>stream_source rd unread\<close>: \<open>unread w\<close> is what the peer has sent and the program not read
  yet; a \<open>read\<close> of at least one byte takes a nonempty prefix of it.
\<close>

definition stream_source :: "'w reader \<Rightarrow> ('w \<Rightarrow> byte list) \<Rightarrow> bool" where
  "stream_source rd unread \<longleftrightarrow> (\<forall>w n. 0 < n \<longrightarrow> unread w \<noteq> [] \<longrightarrow>
     (\<exists>bs w'. rd w n = (RdBytes bs, w') \<and> bs \<noteq> [] \<and> length bs \<le> n \<and> unread w = bs @ unread w'))"

text \<open>\<open>stream_sink wr sent\<close>: a \<open>write\<close> of at least one byte takes a nonempty prefix of what it is offered.\<close>

definition stream_sink :: "'w writer \<Rightarrow> ('w \<Rightarrow> byte list) \<Rightarrow> bool" where
  "stream_sink wr sent \<longleftrightarrow> (\<forall>w bs. bs \<noteq> [] \<longrightarrow>
     (\<exists>n w'. wr w bs = (int n, w') \<and> 0 < n \<and> n \<le> length bs \<and> sent w' = sent w @ take n bs))"

section \<open>Reading until the buffer is full\<close>

function read_loop :: "'w reader \<Rightarrow> 'w \<Rightarrow> buf \<Rightarrow> nat \<Rightarrow> nat \<Rightarrow> (int \<times> buf \<times> 'w) option" where
  "read_loop rd w buffer n_bytes bytes_read =
     (if bytes_read < n_bytes then
        (case rd w (n_bytes - bytes_read) of
           (RdErr, w) \<Rightarrow> Some (- 1, buffer, w)
         | (RdBytes bs, w) \<Rightarrow>
             if bs = [] then Some (0, buffer, w)
             else do {
               buffer \<leftarrow> store_bytes buffer bytes_read bs;
               read_loop rd w buffer n_bytes (bytes_read + length bs) })
      else Some (int bytes_read, buffer, w))"
  by pat_completeness auto
termination
  by (relation "measure (\<lambda>(rd, w, buffer, n_bytes, bytes_read). n_bytes - bytes_read)")
    (auto intro!: diff_less_mono2)

declare read_loop.simps [simp del]

lemma read_loop_done: "n \<le> k \<Longrightarrow> read_loop rd w b n k = Some (int k, b, w)"
  by (simp add: read_loop.simps)

text \<open>
  With a reader that keeps its contract the loop never leaves the buffer, and it returns 0, -1 or
  the number of bytes asked for.
\<close>

lemma read_loop_safe:
  "n \<le> length b \<Longrightarrow> k \<le> n \<Longrightarrow> reader_ok rd \<Longrightarrow>
    \<exists>r b' w'. read_loop rd w b n k = Some (r, b', w') \<and> length b' = length b \<and>
      take k b' = take k b \<and> drop n b' = drop n b \<and> r \<in> {- 1, 0, int n}"
proof (induction rd w b n k rule: read_loop.induct)
  case (1 rd w b n k)
  show ?case
  proof (cases "k < n")
    case False
    with "1.prems" show ?thesis by (simp add: read_loop_done)
  next
    case True
    obtain res w1 where r: "rd w (n - k) = (res, w1)" by force
    show ?thesis
    proof (cases res)
      case RdErr
      with r True show ?thesis by (simp add: read_loop.simps [of rd w b n k])
    next
      case (RdBytes bs)
      show ?thesis
      proof (cases "bs = []")
        case True
        with r RdBytes \<open>k < n\<close> show ?thesis by (simp add: read_loop.simps [of rd w b n k])
      next
        case False
        have "length bs \<le> n - k"
          using "1.prems"(3) r RdBytes unfolding reader_ok_def by blast
        with True have fit: "k + length bs \<le> n" by simp
        have step: "read_loop rd w b n k = read_loop rd w1 (patch b k bs) n (k + length bs)"
          using r RdBytes False True fit "1.prems"
          by (simp add: read_loop.simps [of rd w b n k] store_bytes_patch)
        have "store_bytes b k bs = Some (patch b k bs)"
          using fit "1.prems" by (simp add: store_bytes_patch)
        from "1.IH" [OF True r [symmetric] RdBytes False this] fit "1.prems"
        obtain r' b' w' where ih: "read_loop rd w1 (patch b k bs) n (k + length bs) = Some (r', b', w')"
          "length b' = length b" "take (k + length bs) b' = take (k + length bs) (patch b k bs)"
          "drop n b' = drop n (patch b k bs)" "r' \<in> {- 1, 0, int n}"
          by auto
        have "take k b' = take k (take (k + length bs) b')" by simp
        also have "\<dots> = take k b"
          using fit "1.prems" by (simp add: ih(3) patch_def)
        finally have "take k b' = take k b" .
        moreover have "drop n (patch b k bs) = drop n b"
          using fit "1.prems" by (simp add: patch_def)
        ultimately show ?thesis using step ih by auto
      qed
    qed
  qed
qed

text \<open>With enough unread bytes it fills the buffer with exactly the next bytes of the stream.\<close>

lemma read_loop_stream:
  "n \<le> length b \<Longrightarrow> k \<le> n \<Longrightarrow> n - k \<le> length (unread w) \<Longrightarrow> stream_source rd unread \<Longrightarrow>
    \<exists>w'. read_loop rd w b n k = Some (int n, patch b k (take (n - k) (unread w)), w') \<and>
      unread w' = drop (n - k) (unread w)"
proof (induction rd w b n k rule: read_loop.induct)
  case (1 rd w b n k)
  show ?case
  proof (cases "k < n")
    case False
    with "1.prems" show ?thesis by (simp add: read_loop_done)
  next
    case True
    with "1.prems" have "unread w \<noteq> []" by auto
    with True "1.prems"(4) obtain bs w1 where r: "rd w (n - k) = (RdBytes bs, w1)" and bs: "bs \<noteq> []"
      "length bs \<le> n - k" "unread w = bs @ unread w1"
      unfolding stream_source_def by (metis zero_less_diff)
    have st: "store_bytes b k bs = Some (patch b k bs)"
      using bs "1.prems" by (simp add: store_bytes_patch)
    have step: "read_loop rd w b n k = read_loop rd w1 (patch b k bs) n (k + length bs)"
      using r bs True st by (simp add: read_loop.simps [of rd w b n k])
    have len: "k + length bs \<le> n" "n - (k + length bs) \<le> length (unread w1)"
      using bs "1.prems" by auto
    with "1.IH" [OF True r [symmetric] refl bs(1) st] bs "1.prems" obtain w' where
      ih: "read_loop rd w1 (patch b k bs) n (k + length bs)
        = Some (int n, patch (patch b k bs) (k + length bs) (take (n - (k + length bs)) (unread w1)), w')"
      "unread w' = drop (n - (k + length bs)) (unread w1)"
      by auto
    have "patch (patch b k bs) (k + length bs) (take (n - (k + length bs)) (unread w1))
        = patch b k (bs @ take (n - (k + length bs)) (unread w1))"
      by (rule patch_adjacent) (use bs "1.prems" in auto)
    with ih step bs show ?thesis by simp
  qed
qed

text \<open>What a single read does not change the loop does not change.\<close>

lemma read_loop_inv:
  assumes rd: "\<And>w n b. I b w \<Longrightarrow> I b (snd (rd w n))" and st: "\<And>w b k bs b'. I b w \<Longrightarrow> store_bytes b k bs = Some b' \<Longrightarrow> I b' w"
  shows "read_loop rd w b n k = Some (r, b', w') \<Longrightarrow> I b w \<Longrightarrow> I b' w'"
proof (induction "n - k" arbitrary: w b k rule: less_induct)
  case less
  show ?case
  proof (cases "k < n")
    case False
    then show ?thesis using less.prems by (simp add: read_loop_done)
  next
    case True
    obtain res w1 where r: "rd w (n - k) = (res, w1)" by force
    then have w1: "I b w1" using rd [OF less.prems(2), of "n - k"] by simp
    show ?thesis
    proof (cases "\<exists>bs b1. res = RdBytes bs \<and> bs \<noteq> [] \<and> store_bytes b k bs = Some b1")
      case False
      then have "w' = w1" "b' = b" using less.prems(1) r True
        by (cases res; auto simp: read_loop.simps [of rd w b n k] bind_eq_Some_conv split: if_splits)+
      then show ?thesis using w1 by simp
    next
      case True
      then obtain bs b1 where b: "res = RdBytes bs" "bs \<noteq> []" "store_bytes b k bs = Some b1" by blast
      have "read_loop rd w1 b1 n (k + length bs) = Some (r, b', w')"
        using less.prems(1) r b \<open>k < n\<close> by (simp add: read_loop.simps [of rd w b n k])
      moreover have "n - (k + length bs) < n - k" using b(2) \<open>k < n\<close> by (simp add: diff_less_mono2)
      ultimately show ?thesis using less.hyps st [OF w1 b(3)] by blast
    qed
  qed
qed

lemma read_loop_keeps:
  assumes "\<And>w n. f (snd (rd w n)) = f w" and "read_loop rd w b n k = Some (r, b', w')"
  shows "f w' = f w"
  by (rule read_loop_inv [where I = "\<lambda>_ w'. f w' = f w", OF _ _ assms(2)]) (simp_all add: assms(1))

lemma read_loop_length:
  assumes "read_loop rd w b n k = Some (r, b', w')"
  shows "length b' = length b"
  by (rule read_loop_inv [where I = "\<lambda>b' _. length b' = length b", OF _ _ assms])
    (auto simp: store_bytes_patch split: if_splits)

section \<open>A concrete stream\<close>

text \<open>
  Packets as they arrive: \<open>read\<close> delivers what is left of the first one. It shows that the
  contracts can be met, and is what the closed examples of the development run on.
\<close>

fun packet_read :: "byte list list reader" where
  "packet_read [] n = (RdBytes [], [])"
| "packet_read (c # cs) n =
     (if c = [] then packet_read cs n else (RdBytes (take n c), drop n c # cs))"

lemma packet_read_ok: "reader_ok packet_read"
proof -
  have "packet_read w n = (RdBytes bs, w') \<Longrightarrow> length bs \<le> n" for w n bs w'
    by (induction w n rule: packet_read.induct) (auto split: if_splits)
  then show ?thesis unfolding reader_ok_def by blast
qed

lemma packet_read_stream: "stream_source packet_read concat"
proof -
  have "0 < n \<Longrightarrow> concat w \<noteq> [] \<Longrightarrow> \<exists>bs w'. packet_read w n = (RdBytes bs, w') \<and> bs \<noteq> [] \<and>
      length bs \<le> n \<and> concat w = bs @ concat w'" for w n
    by (induction w n rule: packet_read.induct) auto
  then show ?thesis unfolding stream_source_def by blast
qed

definition accept_all :: "byte list writer" where
  "accept_all w bs = (int (length bs), w @ bs)"

lemma accept_all_ok: "writer_ok accept_all"
  by (simp add: writer_ok_def accept_all_def)

lemma accept_all_sink: "stream_sink accept_all (\<lambda>w. w)"
  by (simp add: stream_sink_def accept_all_def)

end
