(* ===== verification/Tcp_Session.thy ===== *)
theory Tcp_Session
  imports Session_Reader Posix_IO "HOL-Library.Signed_Division"
begin

text \<open>
  The TCP (and Unix socket) specialisations of \<open>Session\<close>, from
  \<^verbatim>\<open>src/server/core/session.hpp\<close> and \<^verbatim>\<open>session.cpp\<close>: receiving scalars, arrays,
  vectors and strings from the socket, reading the header of a command, writing an answer.

  \<open>rd\<close> and \<open>wr\<close> are the system calls \<open>read\<close> and \<open>write\<close> on the file descriptor of the session.
  \<open>mem\<close> stands for storage the code does not initialise, \<open>old\<close> for the previous contents of the
  container an argument is received into.
\<close>

section \<open>Receiving\<close>

definition rcv_n_bytes :: "'w reader \<Rightarrow> 'w \<Rightarrow> buf \<Rightarrow> nat \<Rightarrow> (int \<times> buf \<times> 'w) option" where
  "rcv_n_bytes rd w buffer n_bytes = read_loop rd w buffer n_bytes 0"

text \<open>A 64-bit result returned as \<open>int\<close>.\<close>

definition as_int :: "int \<Rightarrow> int" where
  "as_int r = sint (word_of_int r :: u32)"

text \<open>\<open>get_pack_length\<close> tests for a negative result only: after an end of stream, result 0, the
  length is decoded from the uninitialised buffer.\<close>

definition get_pack_length :: "'w reader \<Rightarrow> buf \<Rightarrow> 'w \<Rightarrow> (int \<times> 'w) option" where
  "get_pack_length rd mem w = do {
     (err, b, w) \<leftarrow> rcv_n_bytes rd w mem 4;
     if err < 0 then Some (- 1, w)
     else do {
       n \<leftarrow> extract_u32 b 0;
       Some (int (unat n), w) } }"

definition tcp_recv_array ::
  "'w reader \<Rightarrow> buf \<Rightarrow> 'w \<Rightarrow> nat \<Rightarrow> nat \<Rightarrow> (int \<times> byte list \<times> 'w) option" where
  "tcp_recv_array rd arr w size_T N = do {
     (r, arr, w) \<leftarrow> rcv_n_bytes rd w arr (size_T * N);
     Some (as_int r, arr, w) }"

text \<open>
  \<open>get_pack_length() / sizeof(T)\<close> is a signed 64-bit division, which truncates: the error -1
  becomes the length 0 for every element type wider than a byte.
\<close>

definition tcp_recv_vector ::
  "'w reader \<Rightarrow> buf \<Rightarrow> buf \<Rightarrow> 'w \<Rightarrow> nat \<Rightarrow> (int \<times> byte list \<times> 'w) option" where
  "tcp_recv_vector rd mem old w size_T = do {
     (n, w) \<leftarrow> get_pack_length rd mem w;
     let len = n sdiv int size_T;
     if len < 0 then Some (- 1, old, w)
     else do {
       (err, vec, w) \<leftarrow> rcv_n_bytes rd w (resize (nat len * size_T) old) (nat len * size_T);
       Some (as_int err, vec, w) } }"

definition tcp_recv_string :: "'w reader \<Rightarrow> buf \<Rightarrow> buf \<Rightarrow> 'w \<Rightarrow> (int \<times> byte list \<times> 'w) option" where
  "tcp_recv_string rd mem old w = do {
     (n, w) \<leftarrow> get_pack_length rd mem w;
     if n < 0 then Some (- 1, old, w)
     else do {
       (err, str, w) \<leftarrow> rcv_n_bytes rd w (resize (nat n) old) (nat n);
       Some (as_int err, str, w) } }"

text \<open>The pack is deserialized whatever the result of the read was.\<close>

definition tcp_deserialize ::
  "'w reader \<Rightarrow> (nat \<Rightarrow> buf) \<Rightarrow> 'w \<Rightarrow> scalar_ty list \<Rightarrow> (int \<times> scalar list \<times> 'w) option" where
  "tcp_deserialize rd mem w ts =
     (if ts = [] then Some (0, [], w)
      else (let pack_len = required_buffer_size ts in do {
        (err, b, w) \<leftarrow> rcv_n_bytes rd w (mem pack_len) pack_len;
        tup \<leftarrow> deserialize_at 0 ts b;
        Some (as_int err, tup, w) }))"

definition tcp_write :: "'w writer \<Rightarrow> 'w \<Rightarrow> byte list \<Rightarrow> int \<times> 'w" where
  "tcp_write wr w data = (
     let bytes_send = int (length data); (n_bytes_send, w) = wr w data in
     if n_bytes_send = 0 then (0, w)
     else if n_bytes_send < 0 then (- 1, w)
     else if n_bytes_send \<noteq> bytes_send then (- 1, w)
     else (bytes_send, w))"

definition tcp_ops :: "'w reader \<Rightarrow> (nat \<Rightarrow> buf) \<Rightarrow> buf \<Rightarrow> 'w session_ops" where
  "tcp_ops rd mem old = \<lparr>
     deser_op = tcp_deserialize rd mem,
     recv_array_op = (\<lambda>w t n. tcp_recv_array rd (mem (t * n)) w t n),
     recv_vector_op = tcp_recv_vector rd (mem 8) old,
     recv_string_op = tcp_recv_string rd (mem 8) old \<rparr>"

text \<open>\<open>Session<TCP>::read_command\<close>: the eight header bytes; driver and operation are bytes 4 to 7.\<close>

definition tcp_read_command :: "'w reader \<Rightarrow> int \<Rightarrow> 'w \<Rightarrow> command \<Rightarrow> (int \<times> command \<times> 'w) option" where
  "tcp_read_command rd sid w cmd = do {
     (header_bytes, b, w) \<leftarrow> rcv_n_bytes rd w (buf_data (header cmd)) HEADER_SIZE;
     let cmd = cmd\<lparr>header := (header cmd)\<lparr>buf_data := b\<rparr>\<rparr>;
     if header_bytes = 0 then Some (header_bytes, cmd, w)
     else if header_bytes < 0 then Some (header_bytes, cmd, w)
     else do {
       cmd \<leftarrow> decode_header sid cmd;
       Some (header_bytes, cmd, w) } }"

section \<open>Reading from a stream\<close>

lemma as_int_small [simp]: "0 \<le> r \<Longrightarrow> r < 2 ^ 31 \<Longrightarrow> as_int r = r"
  by (simp add: as_int_def in_range_def)

lemma sent_bytes_small [simp]: "length c < 2 ^ 32 \<Longrightarrow> sent_bytes c = c"
  by (simp add: sent_bytes_def unat_of_nat)

lemma rcv_n_bytes_stream:
  assumes "stream_source rd peer" and "peer w = xs @ rest" and "length b = length xs"
  shows "\<exists>w'. rcv_n_bytes rd w b (length xs) = Some (int (length xs), xs, w') \<and> peer w' = rest"
  using read_loop_stream [of "length xs" b 0 peer w rd] assms
  by (simp add: rcv_n_bytes_def patch_whole)

lemma rcv_n_bytes_prefix:
  assumes "stream_source rd peer" and "peer w = xs @ rest" and "length xs \<le> length b"
  shows "\<exists>w'. rcv_n_bytes rd w b (length xs) = Some (int (length xs), patch b 0 xs, w') \<and> peer w' = rest"
  using read_loop_stream [of "length xs" b 0 peer w rd] assms by (simp add: rcv_n_bytes_def)

lemma get_pack_length_stream:
  assumes "stream_source rd peer" and "peer w = be32 n @ rest" and "length mem = 8"
  shows "\<exists>w'. get_pack_length rd mem w = Some (int (unat n), w') \<and> peer w' = rest"
proof -
  obtain w' where "rcv_n_bytes rd w mem 4 = Some (4, patch mem 0 (be32 n), w')" "peer w' = rest"
    using rcv_n_bytes_prefix [OF assms(1,2), of mem] assms(3) by auto
  moreover have "extract_u32 (patch mem 0 (be32 n)) 0 = Some n"
    using extract_u32_be [of "[]" n] by (simp add: patch_def)
  ultimately show ?thesis by (simp add: get_pack_length_def)
qed

lemma tcp_session_reader:
  assumes "stream_source rd peer" and "\<And>n. length (mem n) = n"
  shows "session_reader (tcp_ops rd mem old) peer (\<lambda>_. True) (2 ^ 31 - 1)"
proof
  fix w :: 'a and vs rest
  assume "peer w = concat (map enc_scalar vs) @ rest" "vs \<noteq> []" "list_all valid_scalar vs"
    and len: "required_buffer_size (map ty_of vs) \<le> 2 ^ 31 - 1"
  moreover have "deserialize_at 0 (map ty_of vs) (concat (map enc_scalar vs)) = Some vs"
    using \<open>list_all valid_scalar vs\<close> deserialize_at_enc [of vs "[]" "[]"] by simp
  ultimately show "\<exists>r s'. deser_op (tcp_ops rd mem old) w (map ty_of vs) = Some (r, vs, s') \<and> 0 \<le> r \<and>
      True \<and> peer s' = rest"
    using rcv_n_bytes_stream [OF assms(1), of w "concat (map enc_scalar vs)" rest
        "mem (required_buffer_size (map ty_of vs))"] assms(2)
    by (auto simp: tcp_ops_def tcp_deserialize_def Let_def)
next
  fix w :: 'a and a :: "byte list" and rest :: "byte list" and t n
  assume "peer w = a @ rest" and len: "length a = t * n" "length a \<le> 2 ^ 31 - 1"
  moreover have "as_int (int t * int n) = int t * int n"
    using len by (intro as_int_small) (simp_all flip: of_nat_mult)
  ultimately show "\<exists>r s'. recv_array_op (tcp_ops rd mem old) w t n = Some (r, a, s') \<and> 0 \<le> r \<and> True \<and>
      peer s' = rest"
    using rcv_n_bytes_stream [OF assms(1), of w a rest "mem (t * n)"] assms(2)
    by (auto simp: tcp_ops_def tcp_recv_array_def)
next
  fix w :: 'a and c :: "byte list" and rest :: "byte list" and t :: nat
  assume w: "peer w = enc_container c @ rest" and t: "0 < t" "t dvd length c" and len: "length c \<le> 2 ^ 31 - 1"
  obtain w1 where w1: "get_pack_length rd (mem 8) w = Some (int (length c), w1)" "peer w1 = c @ rest"
    using get_pack_length_stream [OF assms(1), of w "of_nat (length c)" "c @ rest" "mem 8"] w len assms(2)
    by (auto simp: enc_container_def unat_of_nat)
  have "int (length c) sdiv int t = int (length c div t)"
    using t by (cases "c = []") (simp_all add: signed_divide_int_def zdiv_int)
  with w1 show "\<exists>r s'. recv_vector_op (tcp_ops rd mem old) w t = Some (r, c, s') \<and> 0 \<le> r \<and> True \<and>
      peer s' = rest"
    using rcv_n_bytes_stream [OF assms(1) w1(2), of "resize (length c) old"] t len
    by (auto simp: tcp_ops_def tcp_recv_vector_def Let_def)
next
  fix w :: 'a and c :: "byte list" and rest :: "byte list"
  assume w: "peer w = enc_container c @ rest" and len: "length c \<le> 2 ^ 31 - 1"
  obtain w1 where w1: "get_pack_length rd (mem 8) w = Some (int (length c), w1)" "peer w1 = c @ rest"
    using get_pack_length_stream [OF assms(1), of w "of_nat (length c)" "c @ rest" "mem 8"] w len assms(2)
    by (auto simp: enc_container_def unat_of_nat)
  with rcv_n_bytes_stream [OF assms(1) w1(2), of "resize (length c) old"] len
  show "\<exists>r s'. recv_string_op (tcp_ops rd mem old) w = Some (r, c, s') \<and> 0 \<le> r \<and> True \<and> peer s' = rest"
    by (auto simp: tcp_ops_def tcp_recv_string_def)
qed

lemma tcp_read_command_stream:
  assumes "stream_source rd peer" and "peer w = enc_header d p @ rest"
    and "length (buf_data (header cmd)) = HEADER_SIZE" and "buf_pos (header cmd) = HEADER_START"
  shows "\<exists>w' cmd'. tcp_read_command rd sid w cmd = Some (8, cmd', w') \<and> peer w' = rest \<and>
    driver cmd' = unat d \<and> operation cmd' = int (unat p) \<and> session_id cmd' = sid \<and>
    payload cmd' = payload cmd"
proof -
  obtain w' where w': "rcv_n_bytes rd w (buf_data (header cmd)) 8 = Some (8, enc_header d p, w')"
    "peer w' = rest"
    using rcv_n_bytes_stream [OF assms(1,2), of "buf_data (header cmd)"] assms(3)
    by (auto simp: HEADER_SIZE_def)
  have "decode_header sid (cmd\<lparr>header := (header cmd)\<lparr>buf_data := enc_header d p\<rparr>\<rparr>)
      = Some (cmd\<lparr>header := \<lparr>buf_data = enc_header d p, buf_pos = 8\<rparr>, session_id := sid,
        cmd_session := Some sid, driver := unat d, operation := int (unat p)\<rparr>)"
    using decode_header_enc [of "cmd\<lparr>header := (header cmd)\<lparr>buf_data := enc_header d p\<rparr>\<rparr>" d p sid] assms(4)
    by simp
  with w' show ?thesis
    by (simp add: tcp_read_command_def HEADER_SIZE_def Let_def)
qed

end
