(* ===== verification/Base64.thy ===== *)
theory Base64
  imports Prelude
begin

text \<open>
  \<^verbatim>\<open>src/server/core/base64.cpp\<close>: \<open>base64_encode\<close> and \<open>base64_decode\<close>, which
  the WebSocket handshake uses for its answer, against the encoding that RFC 4648 defines.

  The loops keep the source's state: the output, the index \<open>i\<close> and the two little arrays. The arrays
  are not initialised in the source; every element is written before it is read, so the model starts
  them with zeros. A read of \<open>base64_chars\<close> out of its range would be \<^term>\<open>None\<close>.
\<close>

section \<open>The source\<close>

definition base64_chars :: "byte list" where
  "base64_chars = map of_char
     (''ABCDEFGHIJKLMNOPQRSTUVWXYZ'' @ ''abcdefghijklmnopqrstuvwxyz'' @ ''0123456789+/'')"

definition pad_char :: byte where "pad_char = of_char (CHR ''='')"

definition isalnum :: "byte \<Rightarrow> bool" where
  "isalnum c \<longleftrightarrow> of_char (CHR ''0'') \<le> c \<and> c \<le> of_char (CHR ''9'') \<or>
     of_char (CHR ''A'') \<le> c \<and> c \<le> of_char (CHR ''Z'') \<or>
     of_char (CHR ''a'') \<le> c \<and> c \<le> of_char (CHR ''z'')"

definition is_base64 :: "byte \<Rightarrow> bool" where
  "is_base64 c \<longleftrightarrow> isalnum c \<or> c = of_char (CHR ''+'') \<or> c = of_char (CHR ''/'')"

text \<open>\<open>char_array_4\<close> from \<open>char_array_3\<close>, and back; both computed modulo 256.\<close>

fun split_3 :: "byte list \<Rightarrow> byte list" where
  "split_3 [a0, a1, a2] =
     [drop_bit 2 (a0 AND 0xfc),
      push_bit 4 (a0 AND 0x03) + drop_bit 4 (a1 AND 0xf0),
      push_bit 2 (a1 AND 0x0f) + drop_bit 6 (a2 AND 0xc0),
      a2 AND 0x3f]"
| "split_3 _ = []"

fun join_4 :: "byte list \<Rightarrow> byte list" where
  "join_4 [c0, c1, c2, c3] =
     [push_bit 2 c0 + drop_bit 4 (c1 AND 0x30),
      push_bit 4 (c1 AND 0xf) + drop_bit 2 (c2 AND 0x3c),
      push_bit 6 (c2 AND 0x3) + c3]"
| "join_4 _ = []"

fun emit :: "byte list \<Rightarrow> byte list option" where
  "emit [] = Some []"
| "emit (x # xs) = do { c \<leftarrow> load base64_chars (unat x); cs \<leftarrow> emit xs; Some (c # cs) }"

fun encode_loop :: "byte list \<Rightarrow> nat \<Rightarrow> byte list \<Rightarrow> byte list \<Rightarrow> (nat \<times> byte list \<times> byte list) option" where
  "encode_loop [] i char_array_3 ret = Some (i, char_array_3, ret)"
| "encode_loop (x # bytes) i char_array_3 ret = do {
     char_array_3 \<leftarrow> store char_array_3 i x;
     if i + 1 = 3 then do {
       cs \<leftarrow> emit (split_3 char_array_3);
       encode_loop bytes 0 char_array_3 (ret @ cs) }
     else encode_loop bytes (i + 1) char_array_3 ret }"

definition base64_encode :: "byte list \<Rightarrow> byte list option" where
  "base64_encode bytes_to_encode = do {
     (i, char_array_3, ret) \<leftarrow> encode_loop bytes_to_encode 0 [0, 0, 0] [];
     if i \<noteq> 0 then do {
       char_array_3 \<leftarrow> store_bytes char_array_3 i (replicate (3 - i) 0);
       cs \<leftarrow> emit (take (i + 1) (split_3 char_array_3));
       Some (ret @ cs @ replicate (3 - i) pad_char) }
     else Some ret }"

fun find_from :: "byte list \<Rightarrow> byte \<Rightarrow> nat \<Rightarrow> nat option" where
  "find_from [] c n = None"
| "find_from (x # xs) c n = (if x = c then Some n else find_from xs c (n + 1))"

text \<open>\<open>base64_chars.find(c)\<close> stored in an \<open>unsigned char\<close>: \<open>npos\<close> becomes 255.\<close>

definition find_char :: "byte \<Rightarrow> byte" where
  "find_char c = (case find_from base64_chars c 0 of Some n \<Rightarrow> of_nat n | None \<Rightarrow> 255)"

fun decode_loop :: "byte list \<Rightarrow> nat \<Rightarrow> byte list \<Rightarrow> byte list \<Rightarrow> (nat \<times> byte list \<times> byte list) option" where
  "decode_loop [] i char_array_4 ret = Some (i, char_array_4, ret)"
| "decode_loop (x # s) i char_array_4 ret =
     (if x \<noteq> pad_char \<and> is_base64 x then do {
        char_array_4 \<leftarrow> store char_array_4 i x;
        if i + 1 = 4 then (
          let char_array_4 = map find_char char_array_4
          in decode_loop s 0 char_array_4 (ret @ join_4 char_array_4))
        else decode_loop s (i + 1) char_array_4 ret }
      else Some (i, char_array_4, ret))"

definition base64_decode :: "byte list \<Rightarrow> byte list option" where
  "base64_decode encoded_string = do {
     (i, char_array_4, ret) \<leftarrow> decode_loop encoded_string 0 [0, 0, 0, 0] [];
     if i \<noteq> 0 then do {
       char_array_4 \<leftarrow> store_bytes char_array_4 i (replicate (4 - i) 0);
       Some (ret @ take (i - 1) (join_4 (map find_char char_array_4))) }
     else Some ret }"

section \<open>RFC 4648\<close>

text \<open>
  Three bytes are a number of 24 bits, read as four digits of base 64; an incomplete group at the
  end is filled with zero bits and the digits that carry none of its bits are padding.
\<close>

definition digit :: "nat \<Rightarrow> byte" where
  "digit k = base64_chars ! k"

fun rfc4648 :: "byte list \<Rightarrow> byte list" where
  "rfc4648 (a # b # c # rest) =
     (let n = unat a * 65536 + unat b * 256 + unat c
      in [digit (n div 262144), digit (n div 4096 mod 64), digit (n div 64 mod 64), digit (n mod 64)]
        @ rfc4648 rest)"
| "rfc4648 [a, b] =
     (let n = unat a * 65536 + unat b * 256
      in [digit (n div 262144), digit (n div 4096 mod 64), digit (n div 64 mod 64), pad_char])"
| "rfc4648 [a] =
     (let n = unat a * 65536 in [digit (n div 262144), digit (n div 4096 mod 64), pad_char, pad_char])"
| "rfc4648 [] = []"

section \<open>The encoder implements it\<close>

lemma length_base64_chars [simp]: "length base64_chars = 64"
  by (simp add: base64_chars_def)

lemma byte_masks:
  "(0xfc :: byte) = NOT (mask 2)" "(0x03 :: byte) = mask 2"
  "(0xf0 :: byte) = NOT (mask 4)" "(0x0f :: byte) = mask 4"
  "(0xc0 :: byte) = NOT (mask 6)" "(0x3f :: byte) = mask 6"
  by (simp_all add: mask_eq_exp_minus_1)

lemma and_not_mask_drop: "drop_bit k (a AND NOT (mask k)) = drop_bit k (a :: byte)"
  by (rule bit_word_eqI) (auto simp: bit_simps dest: bit_imp_le_length)

lemmas unat_bits = unsigned_drop_bit_eq unsigned_push_bit_eq unsigned_take_bit_eq
  drop_bit_eq_div push_bit_eq_mult take_bit_eq_mod

lemma unat_byte_less [simp]: "unat (a :: byte) < 256"
  using unsigned_less [of a] by simp

lemma shifted_sum_mod:
  fixes x q b :: nat
  assumes "q < b" and "b dvd 64"
  shows "(x * b + q) mod 64 = x mod (64 div b) * b + q"
proof -
  obtain m where m: "64 = b * m" using assms(2) ..
  then have "b \<noteq> 0" by (cases b) auto
  have "m \<noteq> 0" using m by (cases m) auto
  let ?r = "x mod m"
  have "x * b + q = (?r * b + q) + 64 * (x div m)"
    unfolding m by (simp add: algebra_simps flip: distrib_left)
  moreover have "?r * b + q < 64"
  proof -
    have "?r + 1 \<le> m" using \<open>m \<noteq> 0\<close> by (simp add: Suc_leI)
    then have "(?r + 1) * b \<le> m * b" by (rule mult_le_mono1)
    with assms(1) m show ?thesis by (simp add: algebra_simps)
  qed
  ultimately have "(x * b + q) mod 64 = ?r * b + q" by (metis mod_less mod_mult_self2)
  moreover have "64 div b = m" using m \<open>b \<noteq> 0\<close> by (metis nonzero_mult_div_cancel_left)
  ultimately show ?thesis by simp
qed

lemma split_3_unat:
  "map unat (split_3 [a, b, c]) =
     (let n = unat a * 65536 + unat b * 256 + unat c
      in [n div 262144, n div 4096 mod 64, n div 64 mod 64, n mod 64])"
proof -
  have m: "a AND mask k = take_bit k a" for a :: byte and k
    by (simp add: take_bit_eq_mask)
  define x y z where xyz: "x = unat a" "y = unat b" "z = unat c"
  have lt: "x < 256" "y < 256" "z < 256" by (simp_all add: xyz)
  let ?n = "x * 65536 + y * 256 + z"
  have d64: "?n div 64 = x * 1024 + y * 4 + z div 64" by simp
  have d4096: "?n div 4096 = x * 16 + y div 16"
  proof -
    have "?n div 256 = x * 256 + y" using lt by simp
    then have "?n div 256 div 16 = x * 16 + y div 16" by simp
    then show ?thesis by (simp flip: div_mult2_eq)
  qed
  have d262144: "?n div 262144 = x div 4"
  proof -
    have "?n div 4096 div 64 = x div 4" using lt unfolding d4096 by linarith
    then show ?thesis by (simp flip: div_mult2_eq)
  qed
  have 2: "(x mod 4 * 16 mod 256 + y div 16) mod 256 = (x * 16 + y div 16) mod 64"
  proof -
    have "y div 16 < 16" using lt by linarith
    then show ?thesis using shifted_sum_mod [of "y div 16" 16 x] by simp
  qed
  have 3: "(y mod 16 * 4 mod 256 + z div 64) mod 256 = (x * 1024 + y * 4 + z div 64) mod 64"
  proof -
    have "z div 64 < 4" using lt by linarith
    then have "((x * 256 + y) * 4 + z div 64) mod 64 = (x * 256 + y) mod 16 * 4 + z div 64"
      using shifted_sum_mod [of "z div 64" 4 "x * 256 + y"] by simp
    moreover have "(x * 256 + y) mod 16 = y mod 16"
      using mod_mult_self1 [of y "x * 16" 16] by (simp add: ac_simps)
    moreover have "(y mod 16 * 4 mod 256 + z div 64) mod 256 = y mod 16 * 4 + z div 64"
    proof -
      have "y mod 16 \<le> 15" by simp
      with \<open>z div 64 < 4\<close> have "y mod 16 * 4 + z div 64 < 256" "y mod 16 * 4 < 256" by linarith+
      then show ?thesis by (simp only: mod_less)
    qed
    moreover have "x * 1024 + y * 4 + z div 64 = (x * 256 + y) * 4 + z div 64" by simp
    ultimately show ?thesis by (simp only:)
  qed
  have 4: "z mod 64 = ?n mod 64"
  proof -
    have "?n = z + 64 * (x * 1024 + y * 4)" by simp
    then show ?thesis by (simp only: mod_mult_self2)
  qed
  have "unat (drop_bit 2 a) = x div 4" "unat (take_bit 6 c) = z mod 64"
    by (simp_all add: unat_bits unat_div_distrib unat_mod_distrib xyz)
  moreover have "unat (push_bit 4 (take_bit 2 a) + drop_bit 4 b) = (x mod 4 * 16 mod 256 + y div 16) mod 256"
    by (simp add: unat_word_ariths(1,2) unat_bits unat_div_distrib unat_mod_distrib xyz)
  moreover have "unat (push_bit 2 (take_bit 4 b) + drop_bit 6 c) = (y mod 16 * 4 mod 256 + z div 64) mod 256"
    by (simp add: unat_word_ariths(1,2) unat_bits unat_div_distrib unat_mod_distrib xyz)
  ultimately show ?thesis
    unfolding split_3.simps byte_masks and_not_mask_drop m Let_def xyz [symmetric] d64 d4096 d262144 list.map 2 3 4
    by (simp only:)
qed

lemma emit_digits: "\<forall>x \<in> set xs. unat x < 64 \<Longrightarrow> emit xs = Some (map (\<lambda>x. digit (unat x)) xs)"
  by (induction xs) (auto simp: load_def digit_def)

lemma length_split_3: "length (split_3 [a, b, c]) = 4"
  by simp

lemma split_3_small: "x \<in> set (split_3 [a, b, c]) \<Longrightarrow> unat x < 64"
proof -
  have "unat a * 65536 + unat b * 256 + unat c < 64 * 262144"
    using unat_byte_less [of a] unat_byte_less [of b] unat_byte_less [of c] by linarith
  then have "(unat a * 65536 + unat b * 256 + unat c) div 262144 < 64"
    by (rule less_mult_imp_div_less)
  then have "\<forall>k \<in> set (map unat (split_3 [a, b, c])). k < 64"
    unfolding split_3_unat by (simp add: Let_def)
  then show "x \<in> set (split_3 [a, b, c]) \<Longrightarrow> unat x < 64"
    by (simp del: split_3.simps)
qed

lemma emit_split_3:
  "emit (split_3 [a, b, c]) =
     (let n = unat a * 65536 + unat b * 256 + unat c
      in Some [digit (n div 262144), digit (n div 4096 mod 64), digit (n div 64 mod 64), digit (n mod 64)])"
proof -
  have "emit (split_3 [a, b, c]) = Some (map digit (map unat (split_3 [a, b, c])))"
    using emit_digits [of "split_3 [a, b, c]"] split_3_small by (simp del: split_3.simps emit.simps)
  then show ?thesis unfolding split_3_unat by (simp add: Let_def)
qed

lemma emit_take: "emit xs = Some cs \<Longrightarrow> emit (take n xs) = Some (take n cs)"
  by (induction xs arbitrary: n cs) (auto simp: bind_eq_Some_conv take_Cons split: nat.splits)

text \<open>The loop consumes whole groups of three and stops with the incomplete one.\<close>

lemma encode_loop_3:
  "length arr = 3 \<Longrightarrow> encode_loop (a # b # c # rest) 0 arr ret
    = encode_loop rest 0 [a, b, c] (ret @ rfc4648 [a, b, c])"
  by (auto simp: store_def numeral_3_eq_3 length_Suc_conv emit_split_3 Let_def simp del: split_3.simps)

lemma encode_finish:
  "length arr = 3 \<Longrightarrow> (do {
     (i, char_array_3, ret) \<leftarrow> encode_loop bs 0 arr ret;
     if i \<noteq> 0 then do {
       char_array_3 \<leftarrow> store_bytes char_array_3 i (replicate (3 - i) 0);
       cs \<leftarrow> emit (take (i + 1) (split_3 char_array_3));
       Some (ret @ cs @ replicate (3 - i) pad_char) }
     else Some ret }) = Some (ret @ rfc4648 bs)"
proof (induction bs arbitrary: arr ret rule: rfc4648.induct)
  case (1 a b c rest)
  show ?case
    unfolding encode_loop_3 [OF "1.prems"] by (subst "1.IH") (simp_all add: Let_def)
next
  case (2 a b)
  then obtain x y z where "arr = [x, y, z]" by (auto simp: numeral_3_eq_3 length_Suc_conv)
  then show ?case
    using emit_take [of "split_3 [a, b, 0]" _ 3]
    by (simp add: store_def emit_split_3 Let_def numeral_3_eq_3 del: split_3.simps)
next
  case (3 a)
  then obtain x y z where "arr = [x, y, z]" by (auto simp: numeral_3_eq_3 length_Suc_conv)
  then show ?case
    using emit_take [of "split_3 [a, 0, 0]" _ 2]
    by (simp add: store_def emit_split_3 Let_def numeral_2_eq_2 del: split_3.simps)
next
  case 4
  then show ?case by simp
qed

lemma base64_encode_eq: "base64_encode bs = Some (rfc4648 bs)"
  unfolding base64_encode_def using encode_finish [of "[0, 0, 0]" bs "[]"] by simp

section \<open>The decoder inverts the encoder\<close>

lemma find_from_distinct:
  "distinct xs \<Longrightarrow> k < length xs \<Longrightarrow> find_from xs (xs ! k) n = Some (n + k)"
  by (induction xs arbitrary: k n) (auto simp: nth_Cons split: nat.splits)

lemma base64_chars_eq: "base64_chars = map of_nat ([65..<91] @ [97..<123] @ [48..<58] @ [43, 47])"
  unfolding base64_chars_def by (simp add: upt_rec)

lemma distinct_base64_chars: "distinct base64_chars"
proof -
  have "inj_on (of_nat :: nat \<Rightarrow> byte) {..<256}"
    by (rule inj_onI) (simp add: word_of_nat_eq_iff take_bit_eq_mod)
  moreover have "set ([65..<91] @ [97..<123] @ [48..<58] @ [43, 47]) \<subseteq> {..<256 :: nat}"
    by (simp add: subset_eq)
  ultimately have "inj_on (of_nat :: nat \<Rightarrow> byte) (set ([65..<91] @ [97..<123] @ [48..<58] @ [43, 47]))"
    by (rule inj_on_subset)
  moreover have "distinct ([65..<91] @ [97..<123] @ [48..<58] @ [43, 47 :: nat])" by simp
  ultimately show ?thesis unfolding base64_chars_eq distinct_map by blast
qed

lemma digit_properties:
  "k < 64 \<Longrightarrow> find_char (digit k) = of_nat k"
  "k < 64 \<Longrightarrow> is_base64 (digit k)"
  "k < 64 \<Longrightarrow> digit k \<noteq> pad_char"
proof -
  show "k < 64 \<Longrightarrow> find_char (digit k) = of_nat k"
    using find_from_distinct [OF distinct_base64_chars, of k 0]
    by (simp add: find_char_def digit_def)
  have "list_all (\<lambda>c. is_base64 c \<and> c \<noteq> pad_char) base64_chars"
    unfolding base64_chars_def is_base64_def isalnum_def pad_char_def by simp
  then show "k < 64 \<Longrightarrow> is_base64 (digit k)" "k < 64 \<Longrightarrow> digit k \<noteq> pad_char"
    by (simp_all add: list_all_length digit_def)
qed

lemma digit_char [simp]:
  assumes "unat x < 64"
  shows "find_char (digit (unat x)) = x" "is_base64 (digit (unat x))" "digit (unat x) \<noteq> pad_char"
  using digit_properties [OF assms] by simp_all

lemma join_masks: "(0x30 :: byte) = push_bit 4 (mask 2)" "(0x3c :: byte) = push_bit 2 (mask 4)"
  "(0xf :: byte) = mask 4" "(0x3 :: byte) = mask 2"
  by (simp_all add: mask_eq_exp_minus_1 push_bit_eq_mult)

lemma sum_is_or:
  "push_bit 4 (a AND mask 2) + drop_bit 4 b = push_bit 4 (a AND mask 2) OR drop_bit 4 (b :: byte)"
  "push_bit 2 (a AND mask 4) + drop_bit 6 b = push_bit 2 (a AND mask 4) OR drop_bit 6 (b :: byte)"
  by (rule disjunctive_add; auto simp: bit_simps dest: bit_imp_le_length)+

lemma byte_eqI:
  assumes "bit a 0 = bit b 0" "bit a 1 = bit b 1" "bit a 2 = bit b 2" "bit a 3 = bit b 3"
    "bit a 4 = bit b 4" "bit a 5 = bit b 5" "bit a 6 = bit b 6" "bit a 7 = bit b 7"
  shows "a = (b :: byte)"
proof (rule bit_word_eqI)
  fix n assume "n < LENGTH(8)"
  then have "n = 0 \<or> n = 1 \<or> n = 2 \<or> n = 3 \<or> n = 4 \<or> n = 5 \<or> n = 6 \<or> n = 7" by auto
  with assms show "bit a n = bit b n" by auto
qed

lemma join_first: "push_bit 2 (drop_bit 2 a) +
    drop_bit 4 ((push_bit 4 (a AND mask 2) OR drop_bit 4 b) AND push_bit 4 (mask 2)) = (a :: byte)"
proof -
  let ?r = "drop_bit 4 ((push_bit 4 (a AND mask 2) OR drop_bit 4 b) AND push_bit 4 (mask 2))"
  have "push_bit 2 (drop_bit 2 a) + ?r = push_bit 2 (drop_bit 2 a) OR ?r"
    by (rule disjunctive_add) (auto simp: bit_simps)
  also have "\<dots> = a"
    by (rule byte_eqI) (simp_all add: bit_simps)
  finally show ?thesis .
qed

lemma join_second: "push_bit 4 ((push_bit 4 (a AND mask 2) OR drop_bit 4 b) AND mask 4) +
    drop_bit 2 ((push_bit 2 (b AND mask 4) OR drop_bit 6 c) AND push_bit 2 (mask 4)) = (b :: byte)"
proof -
  let ?l = "push_bit 4 ((push_bit 4 (a AND mask 2) OR drop_bit 4 b) AND mask 4)"
    and ?r = "drop_bit 2 ((push_bit 2 (b AND mask 4) OR drop_bit 6 c) AND push_bit 2 (mask 4))"
  have "?l + ?r = ?l OR ?r"
    by (rule disjunctive_add) (auto simp: bit_simps)
  also have "\<dots> = b"
    by (rule byte_eqI) (simp_all add: bit_simps)
  finally show ?thesis .
qed

lemma join_third: "push_bit 6 ((push_bit 2 (b AND mask 4) OR drop_bit 6 c) AND mask 2) + (c AND mask 6)
    = (c :: byte)"
proof -
  let ?l = "push_bit 6 ((push_bit 2 (b AND mask 4) OR drop_bit 6 c) AND mask 2)"
  have "?l + (c AND mask 6) = ?l OR (c AND mask 6)"
    by (rule disjunctive_add) (auto simp: bit_simps)
  also have "\<dots> = c"
    by (rule byte_eqI) (simp_all add: bit_simps)
  finally show ?thesis .
qed

lemma join_split: "join_4 (split_3 [a, b, c]) = [a, b, c]"
  unfolding split_3.simps join_4.simps byte_masks(1,3,5,6) join_masks and_not_mask_drop sum_is_or
    join_first join_second join_third ..

lemma split_3_chars:
  "rfc4648 (a # b # c # rest) = map (\<lambda>x. digit (unat x)) (split_3 [a, b, c]) @ rfc4648 rest"
  "rfc4648 [a, b] = map (\<lambda>x. digit (unat x)) (take 3 (split_3 [a, b, 0])) @ [pad_char]"
  "rfc4648 [a] = map (\<lambda>x. digit (unat x)) (take 2 (split_3 [a, 0, 0])) @ [pad_char, pad_char]"
proof -
  have *: "map (\<lambda>x. digit (unat x)) (take k (split_3 [a, b, c]))
      = map digit (take k (map unat (split_3 [a, b, c])))" for a b c k
    by (simp only: take_map map_map comp_def)
  show "rfc4648 (a # b # c # rest) = map (\<lambda>x. digit (unat x)) (split_3 [a, b, c]) @ rfc4648 rest"
    using * [of "length (split_3 [a, b, c])" a b c] unfolding take_all [OF order_refl]
    by (simp add: Let_def split_3_unat length_split_3 del: split_3.simps)
  show "rfc4648 [a, b] = map (\<lambda>x. digit (unat x)) (take 3 (split_3 [a, b, 0])) @ [pad_char]"
    unfolding * split_3_unat by (simp add: Let_def)
  show "rfc4648 [a] = map (\<lambda>x. digit (unat x)) (take 2 (split_3 [a, 0, 0])) @ [pad_char, pad_char]"
    unfolding * split_3_unat by (simp add: Let_def)
qed

lemma decode_loop_4:
  assumes "length arr = 4" and "length ds = 4" and "\<forall>d \<in> set ds. unat d < 64"
  shows "decode_loop (map (\<lambda>x. digit (unat x)) ds @ s) 0 arr ret = decode_loop s 0 ds (ret @ join_4 ds)"
proof -
  obtain d0 d1 d2 d3 where "ds = [d0, d1, d2, d3]"
    using assms(2) by (auto simp: numeral_eq_Suc length_Suc_conv)
  moreover obtain x0 x1 x2 x3 where "arr = [x0, x1, x2, x3]"
    using assms(1) by (auto simp: numeral_eq_Suc length_Suc_conv)
  ultimately show ?thesis using assms(3) by (simp add: store_def Let_def del: join_4.simps)
qed

lemma join_4_prefix:
  "take 2 (join_4 [x0, x1, x2, y]) = take 2 (join_4 [x0, x1, x2, x3])"
  "take 1 (join_4 [x0, x1, y', y]) = take 1 (join_4 [x0, x1, x2, x3])"
  by simp_all

lemma decode_finish:
  "length arr = 4 \<Longrightarrow> (do {
     (i, char_array_4, ret) \<leftarrow> decode_loop (rfc4648 bs) 0 arr ret;
     if i \<noteq> 0 then do {
       char_array_4 \<leftarrow> store_bytes char_array_4 i (replicate (4 - i) 0);
       Some (ret @ take (i - 1) (join_4 (map find_char char_array_4))) }
     else Some ret }) = Some (ret @ bs)"
proof (induction bs arbitrary: arr ret rule: rfc4648.induct)
  case (1 a b c rest)
  have *: "\<forall>d \<in> set (split_3 [a, b, c]). unat d < 64" using split_3_small by blast
  show ?case
    unfolding split_3_chars(1) decode_loop_4 [OF "1.prems" length_split_3 *] join_split
    by (subst "1.IH") (simp_all add: length_split_3 del: split_3.simps)
next
  case (2 a b)
  then obtain x y z w where arr: "arr = [x, y, z, w]" by (auto simp: numeral_eq_Suc length_Suc_conv)
  obtain d0 d1 d2 d3 where ds: "split_3 [a, b, 0] = [d0, d1, d2, d3]" by simp
  have small: "unat d0 < 64" "unat d1 < 64" "unat d2 < 64"
    using split_3_small [of _ a b 0] by (auto simp: ds simp del: split_3.simps)
  have "take 2 (join_4 [d0, d1, d2, find_char 0]) = [a, b]"
    using join_split [of a b 0] join_4_prefix(1) [of d0 d1 d2 "find_char 0" d3]
    by (simp add: ds del: split_3.simps join_4.simps)
  then show ?case
    unfolding split_3_chars ds arr using small
    by (simp add: store_def numeral_2_eq_2 numeral_3_eq_3 del: join_4.simps)
next
  case (3 a)
  then obtain x y z w where arr: "arr = [x, y, z, w]" by (auto simp: numeral_eq_Suc length_Suc_conv)
  obtain d0 d1 d2 d3 where ds: "split_3 [a, 0, 0] = [d0, d1, d2, d3]" by simp
  have small: "unat d0 < 64" "unat d1 < 64"
    using split_3_small [of _ a 0 0] by (auto simp: ds simp del: split_3.simps)
  have "take 1 (join_4 [d0, d1, find_char 0, find_char 0]) = [a]"
    using join_split [of a 0 0] join_4_prefix(2) [of d0 d1 "find_char 0" "find_char 0" d2 d3]
    by (simp add: ds del: split_3.simps join_4.simps)
  then show ?case
    unfolding split_3_chars ds arr using small
    by (simp add: store_def numeral_2_eq_2 numeral_3_eq_3 del: join_4.simps)
next
  case 4
  then show ?case by simp
qed

section \<open>Properties\<close>

text \<open>
  C23: \<open>base64_encode\<close> reads only inside its arrays and returns, for every input, the encoding that
  RFC 4648 defines, padding included.
\<close>
theorem base64_encode_rfc4648: "base64_encode bs = Some (rfc4648 bs)"
  unfolding base64_encode_def using encode_finish [of "[0, 0, 0]" bs "[]"] by simp

text \<open>
  C24: \<open>base64_decode\<close> inverts \<open>base64_encode\<close>: the decoder returns the encoded bytes, although it
  looks padding up as \<open>find(0)\<close>, which is not found and becomes the digit 255.
\<close>
theorem base64_round_trip:
  "Option.bind (base64_encode bs) base64_decode = Some bs"
  unfolding base64_encode_eq base64_decode_def
  using decode_finish [of "[0, 0, 0, 0]" bs "[]"] by simp

end
