(* ===== verification/Sha1.thy ===== *)
theory Sha1
  imports Serializer
begin

text \<open>
  \<^verbatim>\<open>src/server/core/sha1.cpp\<close>: the digest that the WebSocket handshake answers with, against
  the standard the file names (FIPS 180-1).

  The context keeps the source's fields. The unions are read as the little-endian machine reads
  them: \<open>m\<close> is its 64 bytes and \<open>W(n)\<close> a word of four of them, \<open>h\<close> its five words and \<open>c\<close> the
  number of bits. The code works on sixteen words in a circle and in place, byte-swaps every block,
  and pads inside the block buffer; the standard expands a block to eighty words and pads the
  message first.
\<close>

section \<open>The source\<close>

record sha1_ctxt =
  h_b32 :: "u32 list"
  c_b64 :: u64
  m_b8 :: "byte list"
  COUNT :: nat

definition K_table :: "u32 list" where
  "K_table = [0x5a827999, 0x6ed9eba1, 0x8f1bbcdc, 0xca62c1d6]"

definition sha1_K :: "nat \<Rightarrow> u32" where "sha1_K t = K_table ! (t div 20)"

definition sha1_F0 :: "u32 \<Rightarrow> u32 \<Rightarrow> u32 \<Rightarrow> u32" where "sha1_F0 b c d = (b AND c) OR (NOT b AND d)"
definition sha1_F1 :: "u32 \<Rightarrow> u32 \<Rightarrow> u32 \<Rightarrow> u32" where "sha1_F1 b c d = (b XOR c) XOR d"
definition sha1_F2 :: "u32 \<Rightarrow> u32 \<Rightarrow> u32 \<Rightarrow> u32" where "sha1_F2 b c d = (b AND c) OR (b AND d) OR (c AND d)"
definition sha1_F3 :: "u32 \<Rightarrow> u32 \<Rightarrow> u32 \<Rightarrow> u32" where "sha1_F3 b c d = (b XOR c) XOR d"

definition sha1_S :: "nat \<Rightarrow> u32 \<Rightarrow> u32" where "sha1_S n x = push_bit n x OR drop_bit (32 - n) x"

text \<open>\<open>m.b32[n]\<close>, read and written.\<close>

definition sha1_W :: "byte list \<Rightarrow> nat \<Rightarrow> u32" where
  "sha1_W m n = ucast (m ! (4 * n)) + push_bit 8 (ucast (m ! (4 * n + 1)))
     + push_bit 16 (ucast (m ! (4 * n + 2))) + push_bit 24 (ucast (m ! (4 * n + 3)))"

definition sha1_set_W :: "byte list \<Rightarrow> nat \<Rightarrow> u32 \<Rightarrow> byte list" where
  "sha1_set_W m n x = m[4 * n := ucast x, 4 * n + 1 := ucast (drop_bit 8 x),
     4 * n + 2 := ucast (drop_bit 16 x), 4 * n + 3 := ucast (drop_bit 24 x)]"

text \<open>The 64 assignments: in every group of four the bytes change to the opposite order.\<close>

definition swap_block :: "byte list \<Rightarrow> byte list" where
  "swap_block m = map (\<lambda>i. m ! (4 * (i div 4) + (3 - i mod 4))) [0..<64]"

definition sha1_expand :: "byte list \<Rightarrow> nat \<Rightarrow> byte list" where
  "sha1_expand m s = sha1_set_W m s (sha1_S 1 (sha1_W m ((s + 13) mod 16) XOR sha1_W m ((s + 8) mod 16) XOR sha1_W m ((s + 2) mod 16) XOR sha1_W m s))"

type_synonym regs = "u32 \<times> u32 \<times> u32 \<times> u32 \<times> u32"

text \<open>One iteration of the first loop, and one of the other three.\<close>

definition sha1_mix :: "(u32 \<Rightarrow> u32 \<Rightarrow> u32 \<Rightarrow> u32) \<Rightarrow> nat \<Rightarrow> u32 \<Rightarrow> regs \<Rightarrow> regs" where
  "sha1_mix F t w = (\<lambda>(a, b, c, d, e). (sha1_S 5 a + F b c d + e + w + sha1_K t, a, sha1_S 30 b, c, d))"

definition sha1_first_iter :: "nat \<Rightarrow> regs \<times> byte list \<Rightarrow> regs \<times> byte list" where
  "sha1_first_iter t = (\<lambda>(r, m).
     let s = t mod 16;
         m = (if t \<ge> 16 then sha1_expand m s else m)
     in (sha1_mix sha1_F0 t (sha1_W m s) r, m))"

definition sha1_iter :: "(u32 \<Rightarrow> u32 \<Rightarrow> u32 \<Rightarrow> u32) \<Rightarrow> nat \<Rightarrow> regs \<times> byte list \<Rightarrow> regs \<times> byte list" where
  "sha1_iter F t = (\<lambda>(r, m).
     let s = t mod 16;
         m = sha1_expand m s
     in (sha1_mix F t (sha1_W m s) r, m))"

definition sha1_step :: "sha1_ctxt \<Rightarrow> sha1_ctxt" where
  "sha1_step ctxt = (
     let st = ((h_b32 ctxt ! 0, h_b32 ctxt ! 1, h_b32 ctxt ! 2, h_b32 ctxt ! 3, h_b32 ctxt ! 4), swap_block (m_b8 ctxt));
         st = fold sha1_first_iter [0..<20] st;
         st = fold (sha1_iter sha1_F1) [20..<40] st;
         st = fold (sha1_iter sha1_F2) [40..<60] st;
         ((a, b, c, d, e), _) = fold (sha1_iter sha1_F3) [60..<80] st
     in ctxt\<lparr>h_b32 := [h_b32 ctxt ! 0 + a, h_b32 ctxt ! 1 + b, h_b32 ctxt ! 2 + c, h_b32 ctxt ! 3 + d, h_b32 ctxt ! 4 + e],
          m_b8 := replicate 64 0\<rparr>)"

definition sha1_init :: sha1_ctxt where
  "sha1_init = \<lparr>h_b32 = [0x67452301, 0xefcdab89, 0x98badcfe, 0x10325476, 0xc3d2e1f0],
     c_b64 = 0, m_b8 = replicate 64 0, COUNT = 0\<rparr>"

text \<open>\<open>COUNT += n; COUNT %= 64\<close> on a \<open>u_int8_t\<close>.\<close>

definition advance :: "sha1_ctxt \<Rightarrow> nat \<Rightarrow> nat" where
  "advance ctxt n = (COUNT ctxt + n) mod 256 mod 64"

definition PUTPAD :: "byte \<Rightarrow> sha1_ctxt \<Rightarrow> sha1_ctxt option" where
  "PUTPAD x ctxt = do {
     m' \<leftarrow> store (m_b8 ctxt) (COUNT ctxt mod 64) x;
     let ctxt = ctxt\<lparr>m_b8 := m', COUNT := advance ctxt 1\<rparr>;
     Some (if COUNT ctxt mod 64 = 0 then sha1_step ctxt else ctxt) }"

fun putpads :: "byte list \<Rightarrow> sha1_ctxt \<Rightarrow> sha1_ctxt option" where
  "putpads [] ctxt = Some ctxt"
| "putpads (x # xs) ctxt = do { ctxt \<leftarrow> PUTPAD x ctxt; putpads xs ctxt }"

text \<open>\<open>bzero(&m.b8[start], n); COUNT += n; COUNT %= 64\<close>\<close>

definition zero_fill :: "nat \<Rightarrow> nat \<Rightarrow> sha1_ctxt \<Rightarrow> sha1_ctxt option" where
  "zero_fill start n ctxt = do {
     m' \<leftarrow> store_bytes (m_b8 ctxt) start (replicate n 0);
     Some (ctxt\<lparr>m_b8 := m', COUNT := advance ctxt n\<rparr>) }"

text \<open>\<open>c.b8[7]\<close> down to \<open>c.b8[0]\<close>: the bytes of the bit count, the most significant one first.\<close>

definition count_bytes :: "u64 \<Rightarrow> byte list" where
  "count_bytes c = map (\<lambda>i. ucast (drop_bit (8 * i) c)) [7, 6, 5, 4, 3, 2, 1, 0]"

definition sha1_pad :: "sha1_ctxt \<Rightarrow> sha1_ctxt option" where
  "sha1_pad ctxt = do {
     ctxt \<leftarrow> PUTPAD 0x80 ctxt;
     let padstart = COUNT ctxt mod 64;
     let padlen = 64 - padstart;
     (ctxt, padstart, padlen) \<leftarrow> (if padlen < 8 then do {
         ctxt \<leftarrow> zero_fill padstart padlen ctxt;
         let ctxt = sha1_step ctxt;
         let padstart = COUNT ctxt mod 64;
         Some (ctxt, padstart, 64 - padstart) }
       else Some (ctxt, padstart, padlen));
     ctxt \<leftarrow> zero_fill padstart (padlen - 8) ctxt;
     putpads (count_bytes (c_b64 ctxt)) ctxt }"

function sha1_loop :: "sha1_ctxt \<Rightarrow> byte list \<Rightarrow> nat \<Rightarrow> sha1_ctxt option" where
  "sha1_loop ctxt input off =
     (if off < length input then (
        let gapstart = COUNT ctxt mod 64;
            gaplen = 64 - gapstart;
            copysiz = (if gaplen < length input - off then gaplen else length input - off)
        in do {
          xs \<leftarrow> load_bytes input off copysiz;
          m' \<leftarrow> store_bytes (m_b8 ctxt) gapstart xs;
          let ctxt = ctxt\<lparr>m_b8 := m', COUNT := advance ctxt copysiz, c_b64 := c_b64 ctxt + of_nat (copysiz * 8)\<rparr>;
          let ctxt = (if COUNT ctxt mod 64 = 0 then sha1_step ctxt else ctxt);
          sha1_loop ctxt input (off + copysiz) })
      else Some ctxt)"
  by pat_completeness auto
termination
  by (relation "measure (\<lambda>(ctxt, input, off). length input - off)") auto

text \<open>The digest is \<open>h.b8\<close> in the order 3 2 1 0, 7 6 5 4, \<open>\<dots>\<close> on a little-endian machine.\<close>

definition sha1_result :: "sha1_ctxt \<Rightarrow> byte list option" where
  "sha1_result ctxt = do {
     ctxt \<leftarrow> sha1_pad ctxt;
     Some (concat (map (\<lambda>w. map (\<lambda>i. ucast (drop_bit (8 * i) w)) [3, 2, 1, 0]) (h_b32 ctxt))) }"

definition SHA1 :: "byte list \<Rightarrow> byte list option" where
  "SHA1 d = do { ctx \<leftarrow> sha1_loop sha1_init d 0; sha1_result ctx }"

section \<open>FIPS 180-1\<close>

text \<open>Section 7: the block as sixteen big-endian words, expanded to eighty.\<close>

definition block_word :: "byte list \<Rightarrow> nat \<Rightarrow> u32" where
  "block_word b t = ucast (b ! (4 * t + 3)) + push_bit 8 (ucast (b ! (4 * t + 2)))
     + push_bit 16 (ucast (b ! (4 * t + 1))) + push_bit 24 (ucast (b ! (4 * t)))"

primrec schedule :: "byte list \<Rightarrow> nat \<Rightarrow> u32 list" where
  "schedule b 0 = map (block_word b) [0..<16]"
| "schedule b (Suc n) = (let ws = schedule b n
     in ws @ [word_rotl 1 (ws ! (n + 13) XOR ws ! (n + 8) XOR ws ! (n + 2) XOR ws ! n)])"

definition f_of :: "nat \<Rightarrow> u32 \<Rightarrow> u32 \<Rightarrow> u32 \<Rightarrow> u32" where
  "f_of t b c d =
     (if t < 20 then (b AND c) OR (NOT b AND d)
      else if t < 40 then b XOR c XOR d
      else if t < 60 then (b AND c) OR (b AND d) OR (c AND d)
      else b XOR c XOR d)"

definition k_of :: "nat \<Rightarrow> u32" where
  "k_of t = (if t < 20 then 0x5a827999 else if t < 40 then 0x6ed9eba1
     else if t < 60 then 0x8f1bbcdc else 0xca62c1d6)"

definition spec_round :: "u32 list \<Rightarrow> nat \<Rightarrow> regs \<Rightarrow> regs" where
  "spec_round ws t = (\<lambda>(a, b, c, d, e).
     (word_rotl 5 a + f_of t b c d + e + ws ! t + k_of t, a, word_rotl 30 b, c, d))"

definition compress :: "u32 list \<Rightarrow> byte list \<Rightarrow> u32 list" where
  "compress hs blk = (
     let (a, b, c, d, e) = fold (spec_round (schedule blk 64)) [0..<80]
           (hs ! 0, hs ! 1, hs ! 2, hs ! 3, hs ! 4)
     in [hs ! 0 + a, hs ! 1 + b, hs ! 2 + c, hs ! 3 + d, hs ! 4 + e])"

fun blocks :: "u32 list \<Rightarrow> byte list \<Rightarrow> u32 list \<times> byte list" where
  "blocks hs bs = (if length bs < 64 then (hs, bs) else blocks (compress hs (take 64 bs)) (drop 64 bs))"

text \<open>Section 4: a one bit, zeros up to eight bytes before the end of a block, and the length in bits.\<close>

definition pad_message :: "byte list \<Rightarrow> byte list" where
  "pad_message bs = bs @ [0x80] @ replicate ((119 - length bs mod 64) mod 64) 0 @ be64 (of_nat (8 * length bs))"

definition fips_180_1 :: "byte list \<Rightarrow> byte list" where
  "fips_180_1 bs = concat (map be32 (fst (blocks
     [0x67452301, 0xefcdab89, 0x98badcfe, 0x10325476, 0xc3d2e1f0] (pad_message bs))))"

section \<open>One block\<close>

declare blocks.simps [simp del] sha1_loop.simps [simp del]

lemma rotl_index:
  "0 < k \<Longrightarrow> k < 32 \<Longrightarrow> n < 32 \<Longrightarrow> (n + 32 - k) mod 32 = (if n < k then n + 32 - k else n - k)"
  for n k :: nat
  by (auto simp: mod_if)

lemma sha1_S_rotl:
  assumes "0 < k" and "k < 32"
  shows "sha1_S k x = word_rotl k x"
proof (rule bit_word_eqI)
  fix n assume n: "n < LENGTH(32)"
  show "bit (sha1_S k x) n = bit (word_rotl k x) n"
  proof (cases "n < k")
    case True
    moreover have "32 - k + n = n + 32 - k" using assms by linarith
    ultimately show ?thesis using assms n rotl_index [OF assms, of n]
      by (simp add: sha1_S_def bit_simps)
  next
    case False
    then show ?thesis using assms n rotl_index [OF assms, of n] bit_imp_le_length [of x "32 - k + n"]
      by (auto simp: sha1_S_def bit_simps)
  qed
qed

lemma length_schedule [simp]: "length (schedule b n) = 16 + n"
  by (induction n) (simp_all add: Let_def)

lemma schedule_stable: "t < 16 + n \<Longrightarrow> schedule b (n + k) ! t = schedule b n ! t"
  by (induction k) (simp_all add: Let_def nth_append)

lemma schedule_start: "t < 16 \<Longrightarrow> schedule b n ! t = block_word b t"
  using schedule_stable [of t 0 b n] by simp

lemma schedule_step:
  assumes "i < n"
  shows "schedule b n ! (16 + i) = word_rotl 1 (schedule b n ! (i + 13) XOR schedule b n ! (i + 8)
     XOR schedule b n ! (i + 2) XOR schedule b n ! i)"
proof -
  obtain k where n: "n = Suc i + k" using assms less_iff_Suc_add by auto
  have "schedule b n ! j = schedule b i ! j" if "j < 16 + i" for j
    using schedule_stable [of j i b "Suc k"] that by (simp add: n)
  moreover have "schedule b n ! (16 + i) = schedule b (Suc i) ! (16 + i)"
    using schedule_stable [of "16 + i" "Suc i" b k] by (simp only: n)
  ultimately show ?thesis by (simp add: Let_def nth_append)
qed

lemma length_set_W [simp]: "length (sha1_set_W m n x) = length m"
  by (simp add: sha1_set_W_def)

lemma W_set_W:
  assumes "length m = 64" and "n < 16" and "k < 16"
  shows "sha1_W (sha1_set_W m n x) k = (if k = n then x else sha1_W m k)"
proof (cases "k = n")
  case True
  then show ?thesis using assms by (simp add: sha1_W_def sha1_set_W_def nth_list_update cut32)
next
  case False
  have "sha1_set_W m n x ! (4 * k + i) = m ! (4 * k + i)" if "i < 4" for i
  proof -
    have "4 * k + i \<noteq> 4 * n + j" if "j < 4" for j
      using False \<open>i < 4\<close> that by presburger
    from this [of 0] this [of 1] this [of 2] this [of 3] show ?thesis
      by (simp add: sha1_set_W_def)
  qed
  from this [of 0] this [of 1] this [of 2] this [of 3] False show ?thesis
    by (simp add: sha1_W_def)
qed

lemma nth_swap_block: "t < 16 \<Longrightarrow> i < 4 \<Longrightarrow> swap_block b ! (4 * t + i) = b ! (4 * t + (3 - i))"
  by (simp add: swap_block_def)

lemma W_swap_block: "t < 16 \<Longrightarrow> sha1_W (swap_block b) t = block_word b t"
  using nth_swap_block [of t 0 b] nth_swap_block [of t 1 b] nth_swap_block [of t 2 b] nth_swap_block [of t 3 b]
  by (simp add: sha1_W_def block_word_def)

text \<open>The sixteen words are the last sixteen of the schedule, each at its index modulo 16.\<close>

definition circle :: "byte list \<Rightarrow> nat \<Rightarrow> byte list \<Rightarrow> bool" where
  "circle b t m \<longleftrightarrow> length m = 64 \<and>
     (\<forall>j. max t 16 - 16 \<le> j \<and> j < max t 16 \<longrightarrow> sha1_W m (j mod 16) = schedule b 64 ! j)"

lemma circle_start: "circle b 0 (swap_block b)"
  by (simp add: circle_def W_swap_block schedule_start) (simp add: swap_block_def)

lemma circle_early: "circle b t m \<Longrightarrow> t < 16 \<Longrightarrow> circle b (Suc t) m"
  by (simp add: circle_def max_def)

lemma circle_expand:
  assumes "circle b (16 + i) m" and "i < 64"
  shows "sha1_W (sha1_expand m (i mod 16)) (i mod 16) = schedule b 64 ! (16 + i)"
    and "circle b (Suc (16 + i)) (sha1_expand m (i mod 16))"
proof -
  let ?x = "sha1_S 1 (sha1_W m ((i mod 16 + 13) mod 16) XOR sha1_W m ((i mod 16 + 8) mod 16)
    XOR sha1_W m ((i mod 16 + 2) mod 16) XOR sha1_W m (i mod 16))"
  have len: "length m = 64" and w: "sha1_W m ((i + k) mod 16) = schedule b 64 ! (i + k)" if "k < 16" for k
    using assms that by (simp_all add: circle_def)
  have x: "?x = schedule b 64 ! (16 + i)"
    unfolding mod_add_left_eq using w [of 13] w [of 8] w [of 2] w [of 0] schedule_step [OF assms(2), of b]
    by (simp add: sha1_S_rotl)
  then show 1: "sha1_W (sha1_expand m (i mod 16)) (i mod 16) = schedule b 64 ! (16 + i)"
    using len [of 0] by (simp add: sha1_expand_def W_set_W)
  have "sha1_W (sha1_expand m (i mod 16)) (j mod 16) = schedule b 64 ! j"
    if j: "Suc i \<le> j" "j < 17 + i" for j
  proof (cases "j = 16 + i")
    case True
    then show ?thesis using 1 by simp
  next
    case False
    define k where "k = j - i"
    have k: "j = i + k" "0 < k" "k < 16" using j False by (auto simp: k_def)
    have "(i + k) mod 16 \<noteq> i mod 16"
      using k(2,3) mod_eq_dvd_iff_nat [of i "i + k" 16] by (auto dest: dvd_imp_le)
    then show ?thesis using w [OF k(3)] len [of 0] by (simp add: sha1_expand_def W_set_W k(1))
  qed
  then show "circle b (Suc (16 + i)) (sha1_expand m (i mod 16))"
    using len [of 0] by (simp add: circle_def max_def) (simp add: sha1_expand_def)
qed

lemma K_k_of: "t < 80 \<Longrightarrow> sha1_K t = k_of t"
proof -
  assume "t < 80"
  then consider "t < 20" | "20 \<le> t" "t < 40" | "40 \<le> t" "t < 60" | "60 \<le> t" "t < 80"
    by linarith
  then show ?thesis
    by cases (simp_all add: sha1_K_def k_of_def K_table_def div_nat_eqI [of 20 1] div_nat_eqI [of 20 2]
      div_nat_eqI [of 20 3])
qed

lemma mix_round:
  assumes "t < 80" and "w = ws ! t" and "\<And>b c d. F b c d = f_of t b c d"
  shows "sha1_mix F t w r = spec_round ws t r"
  using assms by (simp add: sha1_mix_def spec_round_def sha1_S_rotl K_k_of)

text \<open>One round of the code on the circle is one round of the standard on the schedule.\<close>

definition round_ok :: "byte list \<Rightarrow> (nat \<Rightarrow> regs \<times> byte list \<Rightarrow> regs \<times> byte list) \<Rightarrow> nat \<Rightarrow> bool" where
  "round_ok b g t \<longleftrightarrow> (\<forall>r m. circle b t m \<longrightarrow>
     (\<exists>m'. g t (r, m) = (spec_round (schedule b 64) t r, m') \<and> circle b (Suc t) m'))"

lemma round_okD:
  "round_ok b g t \<Longrightarrow> circle b t m \<Longrightarrow>
    \<exists>m'. g t (r, m) = (spec_round (schedule b 64) t r, m') \<and> circle b (Suc t) m'"
  unfolding round_ok_def by blast

lemma iter_ok:
  assumes "16 \<le> t" and "t < 80" and "\<And>b c d. F b c d = f_of t b c d"
  shows "round_ok b (sha1_iter F) t"
  unfolding round_ok_def
proof (intro allI impI)
  fix r m assume "circle b t m"
  obtain i where t: "t = 16 + i" "i < 64" using assms(1,2) le_Suc_ex by fastforce
  have "t mod 16 = i mod 16" by (simp add: t)
  moreover note circle_expand [OF \<open>circle b t m\<close> [unfolded t(1)] t(2)]
  ultimately show "\<exists>m'. sha1_iter F t (r, m) = (spec_round (schedule b 64) t r, m') \<and> circle b (Suc t) m'"
    using mix_round [OF assms(2) _ assms(3), of _ "schedule b 64" r]
    by (simp add: sha1_iter_def Let_def t(1) del: plus_nat.simps)
qed

lemma first_iter_ok:
  assumes "t < 20"
  shows "round_ok b sha1_first_iter t"
proof (cases "16 \<le> t")
  case True
  have "sha1_first_iter t st = sha1_iter sha1_F0 t st" for st
    using True by (simp add: sha1_first_iter_def sha1_iter_def)
  then show ?thesis
    using iter_ok [of t sha1_F0 b] True assms by (simp add: round_ok_def sha1_F0_def f_of_def)
next
  case False
  then have "sha1_W m t = schedule b 64 ! t" if "circle b t m" for m
    using that by (auto simp: circle_def)
  then show ?thesis
    using False circle_early [of b t] mix_round [of t _ "schedule b 64" sha1_F0]
    by (auto simp: round_ok_def sha1_first_iter_def sha1_F0_def f_of_def Let_def)
qed

lemma rounds_ok:
  assumes "i \<le> j" and "\<And>t. i \<le> t \<Longrightarrow> t < j \<Longrightarrow> round_ok b g t" and "circle b i m"
  shows "\<exists>m'. fold g [i..<j] (r, m) = (fold (spec_round (schedule b 64)) [i..<j] r, m') \<and> circle b j m'"
  using assms
proof (induction j)
  case 0
  then show ?case by simp
next
  case (Suc j)
  show ?case
  proof (cases "i = Suc j")
    case True
    then show ?thesis using Suc.prems(3) by simp
  next
    case False
    then have "i \<le> j" using Suc.prems(1) by simp
    moreover obtain m' where "fold g [i..<j] (r, m) = (fold (spec_round (schedule b 64)) [i..<j] r, m')"
        "circle b j m'"
      using Suc.IH [OF \<open>i \<le> j\<close> _ Suc.prems(3)] Suc.prems(2) by fastforce
    moreover have "round_ok b g j" using Suc.prems(2) \<open>i \<le> j\<close> by simp
    ultimately show ?thesis
      using round_okD [of b g j m' "fold (spec_round (schedule b 64)) [i..<j] r"] by simp
  qed
qed

lemma iters_ok:
  "20 \<le> t \<Longrightarrow> t < 40 \<Longrightarrow> round_ok b (sha1_iter sha1_F1) t"
  "40 \<le> t \<Longrightarrow> t < 60 \<Longrightarrow> round_ok b (sha1_iter sha1_F2) t"
  "60 \<le> t \<Longrightarrow> t < 80 \<Longrightarrow> round_ok b (sha1_iter sha1_F3) t"
  by (auto intro!: iter_ok simp: sha1_F1_def sha1_F2_def sha1_F3_def f_of_def xor.assoc)

lemma fold_segments:
  "fold f [0..<80] s = fold f [60..<80] (fold f [40..<60] (fold f [20..<40] (fold f [0..<20] s)))"
proof -
  have "[0..<80] = ([0..<20] @ [20..<40]) @ [40..<60] @ [60..<80]"
    using upt_add_eq_append [of 0 20 20] upt_add_eq_append [of 0 40 40] upt_add_eq_append [of 40 60 20]
    by simp
  then show ?thesis by (simp only: fold_append comp_apply)
qed

lemma sha1_step_eq:
  "sha1_step ctxt = ctxt\<lparr>h_b32 := compress (h_b32 ctxt) (m_b8 ctxt), m_b8 := replicate 64 0\<rparr>"
proof -
  let ?b = "m_b8 ctxt" and ?sp = "spec_round (schedule (m_b8 ctxt) 64)"
  define r where "r = (h_b32 ctxt ! 0, h_b32 ctxt ! 1, h_b32 ctxt ! 2, h_b32 ctxt ! 3, h_b32 ctxt ! 4)"
  have le: "(20::nat) \<le> 40" "(40::nat) \<le> 60" "(60::nat) \<le> 80" by simp_all
  obtain m1 where 1: "fold sha1_first_iter [0..<20] (r, swap_block ?b) = (fold ?sp [0..<20] r, m1)"
      "circle ?b 20 m1"
    using rounds_ok [of 0 20 ?b sha1_first_iter] first_iter_ok circle_start by blast
  obtain m2 where 2: "fold (sha1_iter sha1_F1) [20..<40] (fold ?sp [0..<20] r, m1)
      = (fold ?sp [20..<40] (fold ?sp [0..<20] r), m2)" "circle ?b 40 m2"
    using rounds_ok [OF le(1) iters_ok(1) 1(2)] by blast
  obtain m3 where 3: "fold (sha1_iter sha1_F2) [40..<60] (fold ?sp [20..<40] (fold ?sp [0..<20] r), m2)
      = (fold ?sp [40..<60] (fold ?sp [20..<40] (fold ?sp [0..<20] r)), m3)" "circle ?b 60 m3"
    using rounds_ok [OF le(2) iters_ok(2) 2(2)] by blast
  obtain m4 where 4: "fold (sha1_iter sha1_F3) [60..<80]
       (fold ?sp [40..<60] (fold ?sp [20..<40] (fold ?sp [0..<20] r)), m3) = (fold ?sp [0..<80] r, m4)"
    using rounds_ok [OF le(3) iters_ok(3) 3(2)] unfolding fold_segments by blast
  show ?thesis
    unfolding sha1_step_def compress_def r_def [symmetric] Let_def 1(1) 2(1) 3(1) 4
    by (simp split: prod.split)
qed

section \<open>The message\<close>

abbreviation H_init :: "u32 list" where
  "H_init \<equiv> [0x67452301, 0xefcdab89, 0x98badcfe, 0x10325476, 0xc3d2e1f0]"

lemma blocks_short [simp]: "length bs < 64 \<Longrightarrow> blocks hs bs = (hs, bs)"
  by (simp add: blocks.simps)

lemma blocks_one: "length bs = 64 \<Longrightarrow> blocks hs bs = (compress hs bs, [])"
  by (simp add: blocks.simps [of hs bs])

lemma blocks_append: "blocks hs p = (hs', r) \<Longrightarrow> blocks hs (p @ q) = blocks hs' (r @ q)"
proof (induction hs p rule: blocks.induct)
  case (1 hs p)
  show ?case
  proof (cases "length p < 64")
    case True
    then show ?thesis using "1.prems" by simp
  next
    case False
    then have "blocks (compress hs (take 64 p)) (drop 64 p) = (hs', r)"
      using "1.prems" by (simp add: blocks.simps [of hs p])
    from "1.IH" [OF False this] False show ?thesis
      by (simp add: blocks.simps [of hs "p @ q"])
  qed
qed

lemma length_blocks_rest: "length (snd (blocks hs p)) = length p mod 64"
proof (induction hs p rule: blocks.induct)
  case (1 hs p)
  then show ?case
    by (cases "length p < 64") (simp_all add: blocks.simps [of hs p] mod_if [of "length p"])
qed

text \<open>
  The context has absorbed the message \<open>s\<close>: its words are the digest of the complete blocks, the
  first \<open>COUNT\<close> bytes of the buffer are the rest.
\<close>

definition absorbed :: "sha1_ctxt \<Rightarrow> byte list \<Rightarrow> bool" where
  "absorbed ctxt s \<longleftrightarrow> length (m_b8 ctxt) = 64 \<and> COUNT ctxt < 64 \<and>
     blocks H_init s = (h_b32 ctxt, take (COUNT ctxt) (m_b8 ctxt))"

lemma absorbed_init: "absorbed sha1_init []"
  by (simp add: absorbed_def sha1_init_def)

lemma absorbed_count: "absorbed ctxt s \<Longrightarrow> COUNT ctxt = length s mod 64"
  using length_blocks_rest [of H_init s] by (auto simp: absorbed_def)

lemma take_patch: "i + length xs \<le> length b \<Longrightarrow> take (i + length xs) (patch b i xs) = take i b @ xs"
  by (simp add: patch_def)

lemma absorbed_fill:
  assumes "absorbed ctxt s" and "COUNT ctxt + length xs < 64"
  shows "absorbed (ctxt\<lparr>m_b8 := patch (m_b8 ctxt) (COUNT ctxt) xs, COUNT := COUNT ctxt + length xs, c_b64 := c'\<rparr>) (s @ xs)"
proof -
  have "blocks H_init (s @ xs) = blocks (h_b32 ctxt) (take (COUNT ctxt) (m_b8 ctxt) @ xs)"
    using assms(1) by (intro blocks_append) (simp add: absorbed_def)
  also have "\<dots> = (h_b32 ctxt, take (COUNT ctxt) (m_b8 ctxt) @ xs)"
    using assms by (intro blocks_short) (simp add: absorbed_def)
  finally show ?thesis using assms by (simp add: absorbed_def take_patch)
qed

lemma absorbed_complete:
  assumes "absorbed ctxt s" and "COUNT ctxt + length xs = 64"
  shows "absorbed (sha1_step (ctxt\<lparr>m_b8 := patch (m_b8 ctxt) (COUNT ctxt) xs, COUNT := 0, c_b64 := c'\<rparr>)) (s @ xs)"
proof -
  have *: "patch (m_b8 ctxt) (COUNT ctxt) xs = take (COUNT ctxt) (m_b8 ctxt) @ xs"
    using assms by (simp add: absorbed_def patch_def)
  have "blocks H_init (s @ xs) = blocks (h_b32 ctxt) (patch (m_b8 ctxt) (COUNT ctxt) xs)"
    using assms(1) unfolding * by (intro blocks_append) (simp add: absorbed_def)
  also have "\<dots> = (compress (h_b32 ctxt) (patch (m_b8 ctxt) (COUNT ctxt) xs), [])"
    using assms unfolding * by (intro blocks_one) (simp add: absorbed_def)
  finally show ?thesis by (simp add: absorbed_def sha1_step_eq)
qed

text \<open>A chunk that does not pass the end of the buffer, with the step that follows a full buffer.\<close>

definition take_chunk :: "sha1_ctxt \<Rightarrow> byte list \<Rightarrow> u64 \<Rightarrow> sha1_ctxt" where
  "take_chunk ctxt xs c' = (
     let ctxt = ctxt\<lparr>m_b8 := patch (m_b8 ctxt) (COUNT ctxt) xs, COUNT := advance ctxt (length xs), c_b64 := c'\<rparr>
     in if COUNT ctxt mod 64 = 0 then sha1_step ctxt else ctxt)"

lemma absorbed_chunk:
  assumes "absorbed ctxt s" and "xs \<noteq> []" and "COUNT ctxt + length xs \<le> 64"
  shows "absorbed (take_chunk ctxt xs c') (s @ xs)" and "c_b64 (take_chunk ctxt xs c') = c'"
proof -
  show "c_b64 (take_chunk ctxt xs c') = c'" by (simp add: take_chunk_def Let_def sha1_step_eq)
  have "0 < length xs" using assms(2) by simp
  show "absorbed (take_chunk ctxt xs c') (s @ xs)"
  proof (cases "COUNT ctxt + length xs = 64")
    case True
    then show ?thesis using absorbed_complete [OF assms(1) True]
      by (simp add: take_chunk_def advance_def Let_def)
  next
    case False
    then have lt: "COUNT ctxt + length xs < 64" using assms(3) by simp
    then have "advance ctxt (length xs) = COUNT ctxt + length xs" by (simp add: advance_def)
    then show ?thesis using absorbed_fill [OF assms(1) lt, of c'] \<open>0 < length xs\<close> lt
      by (simp add: take_chunk_def Let_def)
  qed
qed

lemma PUTPAD_chunk: "absorbed ctxt s \<Longrightarrow> PUTPAD x ctxt = Some (take_chunk ctxt [x] (c_b64 ctxt))"
  by (simp add: absorbed_def PUTPAD_def store_patch take_chunk_def Let_def)

lemma putpads_absorbed:
  "absorbed ctxt s \<Longrightarrow> \<exists>ctxt'. putpads xs ctxt = Some ctxt' \<and> absorbed ctxt' (s @ xs)"
proof (induction xs arbitrary: ctxt s)
  case Nil
  then show ?case by simp
next
  case (Cons x xs)
  have "COUNT ctxt + length [x] \<le> 64" using Cons.prems by (simp add: absorbed_def)
  from absorbed_chunk(1) [OF Cons.prems _ this, of "c_b64 ctxt"]
  have "absorbed (take_chunk ctxt [x] (c_b64 ctxt)) (s @ [x])" by simp
  from Cons.IH [OF this] show ?case by (simp add: PUTPAD_chunk [OF Cons.prems])
qed

lemma zero_fill_absorbed:
  assumes "absorbed ctxt s" and "COUNT ctxt + n < 64"
  shows "\<exists>ctxt'. zero_fill (COUNT ctxt) n ctxt = Some ctxt' \<and> absorbed ctxt' (s @ replicate n 0)
     \<and> c_b64 ctxt' = c_b64 ctxt"
  using assms absorbed_fill [OF assms(1), of "replicate n 0" "c_b64 ctxt"]
  by (simp add: zero_fill_def store_bytes_patch advance_def absorbed_def)

lemma zero_fill_complete:
  assumes "absorbed ctxt s" and "COUNT ctxt + n = 64"
  shows "\<exists>ctxt'. zero_fill (COUNT ctxt) n ctxt = Some ctxt' \<and> absorbed (sha1_step ctxt') (s @ replicate n 0)
     \<and> c_b64 ctxt' = c_b64 ctxt"
  using assms absorbed_complete [OF assms(1), of "replicate n 0" "c_b64 ctxt"]
  by (simp add: zero_fill_def store_bytes_patch advance_def absorbed_def)

lemma byte_of_low_word: "k \<le> 24 \<Longrightarrow> (ucast (drop_bit k (ucast (v :: u64) :: u32)) :: byte) = ucast (drop_bit k v)"
  by (rule bit_word_eqI) (simp add: bit_simps)

lemma count_bytes_be64: "count_bytes x = be64 x"
  by (simp add: count_bytes_def be64_def be32_def byte_of_low_word byte_of_low_word [of 0, simplified])

lemma last_block:
  fixes a q l c :: nat
  shows "a = 64 * q + l \<Longrightarrow> c = l + 1 \<Longrightarrow> l < 64 \<Longrightarrow> Suc (a + (64 - c)) = 64 * Suc q"
  by simp

lemma short_padding: "l \<le> 55 \<Longrightarrow> (119 - l) mod 64 = 55 - (l :: nat)"
  using mod_add_self2 [of "55 - l" 64] by simp

lemma sha1_pad_absorbed:
  assumes "absorbed ctxt s"
  shows "\<exists>ctxt'. sha1_pad ctxt = Some ctxt' \<and> absorbed ctxt'
     (s @ [0x80] @ replicate ((119 - length s mod 64) mod 64) 0 @ be64 (c_b64 ctxt))"
proof -
  define c1 where "c1 = take_chunk ctxt [0x80] (c_b64 ctxt)"
  let ?l = "length s mod 64"
  have put: "PUTPAD 0x80 ctxt = Some c1" unfolding c1_def by (rule PUTPAD_chunk [OF assms])
  have "COUNT ctxt + length [0x80] \<le> 64" using assms by (simp add: absorbed_def)
  then have a1: "absorbed c1 (s @ [0x80])" and cc: "c_b64 c1 = c_b64 ctxt"
    unfolding c1_def by (intro absorbed_chunk [OF assms]; simp)+
  have n1: "COUNT c1 = (if ?l = 63 then 0 else ?l + 1)"
    using absorbed_count [OF a1] by (simp add: mod_Suc)
  have lt: "?l < 64" by simp
  show ?thesis
  proof (cases "64 - COUNT c1 < 8")
    case True
    then have l: "56 \<le> ?l" "?l < 63" "COUNT c1 = ?l + 1" using n1 lt by (auto split: if_splits)
    obtain c2 where c2: "zero_fill (COUNT c1) (64 - COUNT c1) c1 = Some c2"
        "absorbed (sha1_step c2) ((s @ [0x80]) @ replicate (64 - COUNT c1) 0)" "c_b64 c2 = c_b64 c1"
      using zero_fill_complete [OF a1, of "64 - COUNT c1"] l by auto
    have z: "COUNT (sha1_step c2) = 0"
    proof -
      have "length ((s @ [0x80]) @ replicate (64 - COUNT c1) 0) = 64 * (length s div 64 + 1)"
        using last_block [of "length s" "length s div 64" "length s mod 64" "COUNT c1"] l by simp
      then show ?thesis using absorbed_count [OF c2(2)] by (simp only: mod_mult_self1_is_0)
    qed
    obtain c3 where c3: "zero_fill 0 56 (sha1_step c2) = Some c3"
        "absorbed c3 (((s @ [0x80]) @ replicate (64 - COUNT c1) 0) @ replicate 56 0)"
        "c_b64 c3 = c_b64 (sha1_step c2)"
      using zero_fill_absorbed [OF c2(2), of 56] z by auto
    obtain c4 where c4: "putpads (count_bytes (c_b64 c3)) c3 = Some c4"
        "absorbed c4 ((((s @ [0x80]) @ replicate (64 - COUNT c1) 0) @ replicate 56 0) @ count_bytes (c_b64 c3))"
      using putpads_absorbed [OF c3(2)] by blast
    have "(119 - ?l) mod 64 = (64 - COUNT c1) + 56" using l by simp
    moreover have "c_b64 c3 = c_b64 ctxt" by (simp add: c3(3) sha1_step_eq c2(3) cc)
    ultimately have "absorbed c4 (s @ [0x80] @ replicate ((119 - ?l) mod 64) 0 @ be64 (c_b64 ctxt))"
      using c4(2) by (simp add: count_bytes_be64 replicate_add)
    moreover have "sha1_pad ctxt = Some c4"
    proof -
      have "COUNT c1 mod 64 = COUNT c1" using l by simp
      then show ?thesis using True by (simp add: sha1_pad_def put Let_def c2(1) z c3(1) c4(1))
    qed
    ultimately show ?thesis by blast
  next
    case False
    let ?n = "64 - COUNT c1 - 8"
    have l: "COUNT c1 \<le> 56" using False by simp
    obtain c3 where c3: "zero_fill (COUNT c1) ?n c1 = Some c3"
        "absorbed c3 ((s @ [0x80]) @ replicate ?n 0)" "c_b64 c3 = c_b64 c1"
      using zero_fill_absorbed [OF a1, of ?n] l by auto
    obtain c4 where c4: "putpads (count_bytes (c_b64 c3)) c3 = Some c4"
        "absorbed c4 (((s @ [0x80]) @ replicate ?n 0) @ count_bytes (c_b64 c3))"
      using putpads_absorbed [OF c3(2)] by blast
    have "(119 - ?l) mod 64 = ?n"
    proof (cases "?l = 63")
      case True
      then show ?thesis using n1 by simp
    next
      case False
      then have "?l \<le> 55" "?n = 55 - ?l" using n1 l by simp_all
      then show ?thesis using short_padding [of ?l] by (simp only:)
    qed
    moreover have "c_b64 c3 = c_b64 ctxt" by (simp add: c3(3) cc)
    ultimately have "absorbed c4 (s @ [0x80] @ replicate ((119 - ?l) mod 64) 0 @ be64 (c_b64 ctxt))"
      using c4(2) by (simp add: count_bytes_be64)
    moreover have "sha1_pad ctxt = Some c4"
      using False l c3(1) by (simp add: sha1_pad_def put Let_def c4(1))
    ultimately show ?thesis by blast
  qed
qed

lemma sha1_loop_absorbed:
  assumes "absorbed ctxt s" and "c_b64 ctxt = of_nat (8 * length s)"
  shows "\<exists>ctxt'. sha1_loop ctxt input off = Some ctxt' \<and> absorbed ctxt' (s @ drop off input)
     \<and> c_b64 ctxt' = of_nat (8 * length (s @ drop off input))"
  using assms
proof (induction "length input - off" arbitrary: ctxt off s rule: less_induct)
  case less
  show ?case
  proof (cases "off < length input")
    case False
    then show ?thesis using less.prems by (simp add: sha1_loop.simps)
  next
    case True
    define n where "n = min (64 - COUNT ctxt) (length input - off)"
    define xs where "xs = take n (drop off input)"
    have cnt: "COUNT ctxt < 64" and len: "length (m_b8 ctxt) = 64"
      using less.prems(1) by (simp_all add: absorbed_def)
    have n: "0 < n" "off + n \<le> length input" "COUNT ctxt + n \<le> 64" using True cnt by (auto simp: n_def)
    have xs: "length xs = n" "xs \<noteq> []" using n by (auto simp: xs_def)
    let ?c = "take_chunk ctxt xs (c_b64 ctxt + of_nat (n * 8))"
    have a: "absorbed ?c (s @ xs)" "c_b64 ?c = of_nat (8 * length (s @ xs))"
      using absorbed_chunk [OF less.prems(1) xs(2)] n(3) xs(1) less.prems(2) by simp_all
    have cond: "(if 64 - COUNT ctxt < length input - off then 64 - COUNT ctxt
        else length input - off) = n"
      by (simp add: n_def min_def)
    have lb: "load_bytes input off n = Some xs"
      using n by (simp add: load_bytes_def xs_def)
    have sb: "store_bytes (m_b8 ctxt) (COUNT ctxt) xs = Some (patch (m_b8 ctxt) (COUNT ctxt) xs)"
      using n xs len by (simp add: store_bytes_patch)
    have step: "sha1_loop ctxt input off = sha1_loop ?c input (off + n)"
      unfolding sha1_loop.simps [of ctxt] Let_def mod_less [OF cnt] cond lb sb
      by (simp add: True take_chunk_def xs(1) Let_def sb)
    have "\<exists>ctxt'. sha1_loop ?c input (off + n) = Some ctxt' \<and> absorbed ctxt' ((s @ xs) @ drop (off + n) input)
       \<and> c_b64 ctxt' = of_nat (8 * length ((s @ xs) @ drop (off + n) input))"
      using n a by (intro less.hyps) simp_all
    moreover have "xs @ drop (off + n) input = drop off input"
      by (simp add: xs_def) (metis add.commute append_take_drop_id drop_drop)
    ultimately show ?thesis by (simp add: step)
  qed
qed

lemma be32_bytes: "map (\<lambda>i. ucast (drop_bit (8 * i) w)) [3, 2, 1, 0] = be32 w"
  by (simp add: be32_def)

lemma SHA1_eq: "SHA1 d = Some (fips_180_1 d)"
proof -
  have "c_b64 sha1_init = of_nat (8 * length [])" by (simp add: sha1_init_def)
  from sha1_loop_absorbed [OF absorbed_init this, of d 0]
  obtain ctx where ctx: "sha1_loop sha1_init d 0 = Some ctx" "absorbed ctx d"
      "c_b64 ctx = of_nat (8 * length d)"
    by auto
  from sha1_pad_absorbed [OF ctx(2)] obtain ctx' where
    ctx': "sha1_pad ctx = Some ctx'" "absorbed ctx' (pad_message d)"
    by (auto simp: pad_message_def ctx(3))
  then have "fst (blocks H_init (pad_message d)) = h_b32 ctx'" by (simp add: absorbed_def)
  then show ?thesis
    unfolding SHA1_def sha1_result_def fips_180_1_def be32_bytes by (simp add: ctx(1) ctx'(1))
qed

lemma length_blocks_words: "length hs = 5 \<Longrightarrow> length (fst (blocks hs bs)) = 5"
proof (induction hs bs rule: blocks.induct)
  case (1 hs bs)
  then show ?case
    by (cases "length bs < 64") (simp_all add: blocks.simps [of hs bs] compress_def split: prod.split)
qed

lemma length_fips [simp]: "length (fips_180_1 d) = 20"
  using length_blocks_words [of H_init "pad_message d"]
  by (simp add: fips_180_1_def length_concat comp_def sum_list_triv)

section \<open>Properties\<close>

text \<open>
  C8: the digest \<open>SHA1\<close> writes is the one FIPS 180-1 defines, for every message, and no buffer is
  left: the sixteen words in a circle are the schedule of eighty words, the byte swaps are the
  big-endian reading of a block, the padding inside the buffer is the padding of the message, also
  where it needs a block of its own.
\<close>
theorem SHA1_correct: "SHA1 d = Some (fips_180_1 d)"
  by (rule SHA1_eq)

end
