(* ===== verification/WebSocket.thy ===== *)
theory WebSocket
  imports Commands Posix_IO Base64 Sha1
begin

text \<open>
  \<^verbatim>\<open>src/server/core/websocket.cpp\<close> and \<^verbatim>\<open>websocket.hpp\<close>: the handshake, the frames the
  server receives commands in and the frames it answers with, against RFC 6455.

  \<open>rd\<close> and \<open>wr\<close> are the system calls on \<open>comm_fd\<close>. The loop of \<open>read_n_bytes\<close> repeats a
  failed \<open>read\<close> for ever, so it is a \<open>partial_function\<close>: in the functions that call it,
  \<^term>\<open>None\<close> also stands for ``does not return''. \<open>header\<close> of the class is not
  initialised by the constructor; its first contents are an argument of \<open>new_websocket\<close>.
\<close>

section \<open>State\<close>

record frame_header =
  header_size :: nat
  mask_offset :: int
  payload_size :: int
  fin :: bool
  masked :: bool
  opcode :: nat

record websocket =
  comm_fd :: int
  read_str_len :: nat
  read_str :: buf
  payload_ptr :: nat
  sha_str :: buf
  send_buf :: buf
  http_packet :: "byte list"
  ws_header :: frame_header
  connection_closed :: bool

definition new_websocket :: "frame_header \<Rightarrow> buf \<Rightarrow> websocket" where
  "new_websocket hdr_mem send_mem = \<lparr>comm_fd = - 1, read_str_len = 0,
     read_str = replicate WEBSOCK_READ_STR_LEN 0, payload_ptr = 0, sha_str = replicate 21 0,
     send_buf = send_mem, http_packet = [], ws_header = hdr_mem, connection_closed = False\<rparr>"

definition set_id :: "int \<Rightarrow> websocket \<Rightarrow> websocket" where
  "set_id fd ws = ws\<lparr>comm_fd := fd\<rparr>"

definition CONTINUATION_FRAME :: nat where "CONTINUATION_FRAME = 0x0"
definition TEXT_FRAME :: nat where "TEXT_FRAME = 0x1"
definition BINARY_FRAME :: nat where "BINARY_FRAME = 0x2"
definition CONNECTION_CLOSE :: nat where "CONNECTION_CLOSE = 0x8"
definition PING :: nat where "PING = 0x9"
definition PONG :: nat where "PONG = 0xA"

lemmas opcode_defs = CONTINUATION_FRAME_def TEXT_FRAME_def BINARY_FRAME_def CONNECTION_CLOSE_def
  PING_def PONG_def

section \<open>Receiving\<close>

definition reset_read_buff :: "websocket \<Rightarrow> websocket option" where
  "reset_read_buff ws = do {
     s \<leftarrow> store_bytes (read_str ws) 0 (replicate (read_str_len ws) 0);
     Some (ws\<lparr>read_str := s, read_str_len := 0\<rparr>) }"

text \<open>
  The inner loop of \<open>read_n_bytes\<close>. It ends with \<open>bytes_read\<close> the result of the last \<open>read\<close>:
  -1 for an error, 0 for the end of the stream. The branch on a negative \<open>bytes_read\<close> inside the
  loop cannot be taken.
\<close>

function rnb_inner :: "'w reader \<Rightarrow> 'w \<Rightarrow> websocket \<Rightarrow> int \<Rightarrow> int \<Rightarrow> int \<Rightarrow>
    (int \<times> int \<times> int \<times> websocket \<times> 'w) option" where
  "rnb_inner rd w ws remaining expected bytes_read =
     (if remaining > 0 then
        (case rd w (nat remaining) of
           (RdErr, w) \<Rightarrow> Some (- 1, remaining, expected, ws, w)
         | (RdBytes bs, w) \<Rightarrow>
             if bs = [] then Some (0, remaining, expected, ws, w)
             else do {
               s \<leftarrow> store_bytes (read_str ws) (read_str_len ws) bs;
               let n = int (length bs);
               let expected = (if expected - n < 0 then 0 else expected - n);
               rnb_inner rd w (ws\<lparr>read_str := s, read_str_len := read_str_len ws + length bs\<rparr>)
                 (remaining - n) expected n })
      else Some (bytes_read, remaining, expected, ws, w))"
  by pat_completeness auto
termination
  by (relation "measure (\<lambda>(rd, w, ws, remaining, expected, bytes_read). nat remaining)") auto

partial_function (option) rnb_outer :: "'w reader \<Rightarrow> 'w \<Rightarrow> websocket \<Rightarrow> int \<Rightarrow> int \<Rightarrow> int \<Rightarrow>
    (int \<times> websocket \<times> 'w) option" where
  "rnb_outer rd w ws remaining expected bytes_read =
     (if expected > 0 then do {
        (bytes_read, remaining, expected, ws, w) \<leftarrow> rnb_inner rd w ws remaining expected bytes_read;
        if bytes_read = 0 then Some (1, ws\<lparr>connection_closed := True\<rparr>, w)
        else if read_str_len ws = KOHERON_READ_STR_LEN then Some (- 1, ws, w)
        else rnb_outer rd w ws remaining expected bytes_read }
      else Some (0, ws, w))"

definition read_n_bytes :: "'w reader \<Rightarrow> 'w \<Rightarrow> websocket \<Rightarrow> int \<Rightarrow> int \<Rightarrow> (int \<times> websocket \<times> 'w) option" where
  "read_n_bytes rd w ws bytes expected = rnb_outer rd w ws bytes expected (- 1)"

definition check_opcode :: "nat \<Rightarrow> int" where
  "check_opcode opc =
     (if opc = CONTINUATION_FRAME then - 1
      else if opc = TEXT_FRAME then 0
      else if opc = BINARY_FRAME then 0
      else if opc = CONNECTION_CLOSE then 1
      else if opc = PING then - 1
      else if opc = PONG then - 1
      else - 1)"

text \<open>The \<open>memcpy\<close> into a host integer followed by \<open>ntohs\<close> or \<open>be64toh\<close> reads it big-endian.\<close>

definition read_size16 :: "buf \<Rightarrow> nat \<Rightarrow> int option" where
  "read_size16 b p = map_option (\<lambda>s. int (unat s)) (extract_u16 b p)"

definition read_size64 :: "buf \<Rightarrow> nat \<Rightarrow> int option" where
  "read_size64 b p = map_option sint (extract_u64 b p)"

definition set_sizes :: "nat \<Rightarrow> int \<Rightarrow> int \<Rightarrow> websocket \<Rightarrow> websocket" where
  "set_sizes hsize psize moff ws =
     ws\<lparr>ws_header := (ws_header ws)\<lparr>header_size := hsize, payload_size := psize, mask_offset := moff\<rparr>\<rparr>"

text \<open>The last test of \<open>read_header\<close>.\<close>

definition check_payload_size :: "websocket \<Rightarrow> int" where
  "check_payload_size ws =
     (if payload_size (ws_header ws) > int WEBSOCK_READ_STR_LEN - 56 then - 1 else 0)"

text \<open>The second half of \<open>read_header\<close>: the size that follows the first two bytes.\<close>

definition read_sizes :: "'w reader \<Rightarrow> 'w \<Rightarrow> websocket \<Rightarrow> nat \<Rightarrow> (int \<times> websocket \<times> 'w) option" where
  "read_sizes rd w ws stream_size =
     (if stream_size \<le> 125 then (
        let ws = set_sizes 6 (int stream_size) 2 ws in Some (check_payload_size ws, ws, w))
      else if stream_size = 126 then do {
        (err, ws, w) \<leftarrow> read_n_bytes rd w ws 2 2;
        if err < 0 then Some (- 1, ws, w)
        else if connection_closed ws then Some (0, ws, w)
        else do {
          s \<leftarrow> read_size16 (read_str ws) 2;
          let ws = set_sizes 8 s 4 ws;
          Some (check_payload_size ws, ws, w) } }
      else if stream_size = 127 then do {
        (err, ws, w) \<leftarrow> read_n_bytes rd w ws 8 8;
        if err < 0 then Some (- 1, ws, w)
        else if connection_closed ws then Some (0, ws, w)
        else do {
          l \<leftarrow> read_size64 (read_str ws) 2;
          let ws = set_sizes 14 l 10 ws;
          Some (check_payload_size ws, ws, w) } }
      else Some (- 1, ws, w))"

definition read_header :: "'w reader \<Rightarrow> 'w \<Rightarrow> websocket \<Rightarrow> (int \<times> websocket \<times> 'w) option" where
  "read_header rd w ws = do {
     (err, ws, w) \<leftarrow> read_n_bytes rd w ws 6 6;
     if err < 0 then Some (- 1, ws, w)
     else if connection_closed ws then Some (0, ws, w)
     else do {
       b0 \<leftarrow> load (read_str ws) 0;
       b1 \<leftarrow> load (read_str ws) 1;
       let stream_size = unat (b1 AND 0x7F);
       let ws = ws\<lparr>ws_header := (ws_header ws)\<lparr>fin := (b0 AND 0x80 \<noteq> 0), masked := (b1 AND 0x80 \<noteq> 0),
                  opcode := unat (b0 AND 0x0F)\<rparr>\<rparr>;
       let opcode_err = check_opcode (opcode (ws_header ws));
       if opcode_err < 0 then Some (- 1, ws, w)
       else if opcode_err = 1 then Some (opcode_err, ws\<lparr>connection_closed := True\<rparr>, w)
       else read_sizes rd w ws stream_size } }"

definition read_stream :: "'w reader \<Rightarrow> 'w \<Rightarrow> websocket \<Rightarrow> (int \<times> websocket \<times> 'w) option" where
  "read_stream rd w ws = do {
     ws \<leftarrow> reset_read_buff ws;
     (read_head_err, ws, w) \<leftarrow> read_header rd w ws;
     if read_head_err < 0 then Some (- 1, ws, w)
     else if read_head_err = 1 then Some (read_head_err, ws, w)
     else do {
       (err, ws, w) \<leftarrow> read_n_bytes rd w ws (payload_size (ws_header ws)) (payload_size (ws_header ws));
       if err < 0 then Some (- 1, ws, w) else Some (err, ws, w) } }"

text \<open>\<open>read_str[i]\<close> for an index computed with \<open>int\<close>s.\<close>

definition load_at :: "buf \<Rightarrow> int \<Rightarrow> byte option" where
  "load_at b i = (if 0 \<le> i then load b (nat i) else None)"

definition unmask :: "websocket \<Rightarrow> nat \<Rightarrow> byte option" where
  "unmask ws i = do {
     p \<leftarrow> load_at (read_str ws) (mask_offset (ws_header ws) + 4 + int i);
     k \<leftarrow> load_at (read_str ws) (mask_offset (ws_header ws) + int (i mod 4));
     Some (p XOR k) }"

definition decode_raw_stream_cmd :: "websocket \<Rightarrow> command \<Rightarrow> (int \<times> command) option" where
  "decode_raw_stream_cmd ws cmd =
     (if read_str_len ws < (header_size (ws_header ws) + 1) mod 2 ^ 32 then Some (- 1, cmd)
      else do {
        h \<leftarrow> for_loop 0 HEADER_SIZE (\<lambda>i d. do { x \<leftarrow> unmask ws i; store d i x })
              (buf_data (header cmd));
        p \<leftarrow> for_loop HEADER_SIZE (nat (payload_size (ws_header ws)))
              (\<lambda>i d. do { x \<leftarrow> unmask ws i; store d (i - HEADER_SIZE) x }) (buf_data (payload cmd));
        Some (0, cmd\<lparr>header := (header cmd)\<lparr>buf_data := h\<rparr>, payload := (payload cmd)\<lparr>buf_data := p\<rparr>\<rparr>) })"

text \<open>\<open>decode_raw_stream\<close> works in place; the mask lies in front of the payload.\<close>

definition decode_raw_stream :: "websocket \<Rightarrow> (int \<times> websocket) option" where
  "decode_raw_stream ws =
     (if read_str_len ws < (header_size (ws_header ws) + 1) mod 2 ^ 32 then Some (- 1, ws)
      else do {
        let ptr = mask_offset (ws_header ws) + 4;
        s \<leftarrow> (if ptr < 0 then None else
              for_loop 0 (nat (payload_size (ws_header ws)))
                (\<lambda>i d. do { x \<leftarrow> unmask (ws\<lparr>read_str := d\<rparr>) i; store d (nat ptr + i) x }) (read_str ws));
        Some (0, ws\<lparr>read_str := s, payload_ptr := nat ptr\<rparr>) })"

definition receive_cmd :: "'w reader \<Rightarrow> 'w \<Rightarrow> websocket \<Rightarrow> command \<Rightarrow> (int \<times> websocket \<times> command \<times> 'w) option" where
  "receive_cmd rd w ws cmd =
     (if connection_closed ws then Some (0, ws, cmd, w)
      else do {
        (err, ws, w) \<leftarrow> read_stream rd w ws;
        if err < 0 then Some (- 1, ws, cmd, w)
        else if err = 1 then Some (0, ws, cmd, w)
        else do {
          (derr, cmd) \<leftarrow> decode_raw_stream_cmd ws cmd;
          if derr < 0 then Some (- 1, ws, cmd, w)
          else Some (payload_size (ws_header ws), ws, cmd, w) } })"

section \<open>Sending\<close>

definition set_send_header :: "buf \<Rightarrow> int \<Rightarrow> nat \<Rightarrow> (int \<times> buf) option" where
  "set_send_header bits data_len format = do {
     bits \<leftarrow> store_bytes bits 0 (replicate (nat (10 + data_len)) 0);
     bits \<leftarrow> store bits 0 (of_nat format);
     let at = (\<lambda>k. word_of_int (drop_bit k data_len AND 0xFF) :: byte);
     if data_len \<le> 125 then do {
       bits \<leftarrow> store bits 1 (word_of_int data_len);
       Some (2, bits) }
     else if data_len > 125 \<and> data_len \<le> 0xFFFF then do {
       bits \<leftarrow> store bits 1 126;
       bits \<leftarrow> store bits 2 (at 8);
       bits \<leftarrow> store bits 3 (at 0);
       Some (4, bits) }
     else do {
       bits \<leftarrow> store bits 1 127;
       bits \<leftarrow> store bits 2 (at 56);
       bits \<leftarrow> store bits 3 (at 48);
       bits \<leftarrow> store bits 4 (at 40);
       bits \<leftarrow> store bits 5 (at 32);
       bits \<leftarrow> store bits 6 (at 24);
       bits \<leftarrow> store bits 7 (at 16);
       bits \<leftarrow> store bits 8 (at 8);
       bits \<leftarrow> store bits 9 (at 0);
       Some (10, bits) } }"

function send_loop :: "'w writer \<Rightarrow> 'w \<Rightarrow> buf \<Rightarrow> nat \<Rightarrow> int \<Rightarrow> int \<Rightarrow> (int \<times> 'w) option" where
  "send_loop wr w bits offset remaining bytes_send =
     (if remaining > 0 then do {
        xs \<leftarrow> load_bytes bits offset (nat remaining);
        let (n, w) = wr w xs;
        if n > 0 then send_loop wr w bits (offset + nat n) (remaining - n) n
        else Some (n, w) }
      else Some (bytes_send, w))"
  by pat_completeness auto
termination
  by (relation "measure (\<lambda>(wr, w, bits, offset, remaining, bytes_send). nat remaining)") auto

definition send_request :: "'w writer \<Rightarrow> 'w \<Rightarrow> websocket \<Rightarrow> buf \<Rightarrow> int \<Rightarrow> (int \<times> websocket \<times> 'w) option" where
  "send_request wr w ws bits len =
     (if connection_closed ws then Some (0, ws, w)
      else do {
        (bytes_send, w) \<leftarrow> send_loop wr w bits 0 len 0;
        if bytes_send < 0 then Some (- 1, ws\<lparr>connection_closed := True\<rparr>, w)
        else Some (bytes_send, ws, w) })"

definition ws_exit :: "'w writer \<Rightarrow> 'w \<Rightarrow> websocket \<Rightarrow> (int \<times> websocket \<times> 'w) option" where
  "ws_exit wr w ws = do {
     (len, bits) \<leftarrow> set_send_header (send_buf ws) 0 (128 + CONNECTION_CLOSE);
     send_request wr w (ws\<lparr>send_buf := bits\<rparr>) bits len }"

text \<open>\<open>send<T>\<close>: \<open>data\<close> are the \<open>len * sizeof(T)\<close> bytes; the test adds 10 in 32 bits.\<close>

definition ws_send :: "'w writer \<Rightarrow> 'w \<Rightarrow> websocket \<Rightarrow> byte list \<Rightarrow> (int \<times> websocket \<times> 'w) option" where
  "ws_send wr w ws data =
     (if connection_closed ws then Some (0, ws, w)
      else if (length data + 10) mod 2 ^ 32 > WEBSOCK_SEND_BUF_LEN then Some (- 1, ws, w)
      else do {
        (off, bits) \<leftarrow> set_send_header (send_buf ws) (int (length data)) (128 + BINARY_FRAME);
        bits \<leftarrow> store_bytes bits (nat off) data;
        send_request wr w (ws\<lparr>send_buf := bits\<rparr>) bits (off + int (length data)) })"

section \<open>Handshake\<close>

definition bytes_of :: "string \<Rightarrow> byte list" where "bytes_of s = map of_char s"

definition crlf :: "byte list" where "crlf = [0x0D, 0x0A]"

text \<open>\<open>std::string::find\<close>: the first position at which the pattern occurs.\<close>

fun find_sub :: "byte list \<Rightarrow> byte list \<Rightarrow> nat \<Rightarrow> nat option" where
  "find_sub pat [] n = (if pat = [] then Some n else None)"
| "find_sub pat (x # xs) n = (if take (length pat) (x # xs) = pat then Some n else find_sub pat xs (Suc n))"

text \<open>\<open>std::string(read_str)\<close> reads up to the first zero byte, wherever that is.\<close>

definition c_string :: "buf \<Rightarrow> byte list option" where
  "c_string b = (if 0 \<in> set b then Some (takeWhile (\<lambda>x. x \<noteq> 0) b) else None)"

definition read_http_packet :: "'w reader \<Rightarrow> 'w \<Rightarrow> websocket \<Rightarrow> (int \<times> websocket \<times> 'w) option" where
  "read_http_packet rd w ws = do {
     ws \<leftarrow> reset_read_buff ws;
     case rd w WEBSOCK_READ_STR_LEN of
       (RdErr, w) \<Rightarrow> Some (- 1, ws, w)
     | (RdBytes bs, w) \<Rightarrow> do {
         s \<leftarrow> store_bytes (read_str ws) 0 bs;
         let ws = ws\<lparr>read_str := s\<rparr>;
         if length bs = KOHERON_READ_STR_LEN then Some (- 1, ws, w)
         else if bs = [] then Some (- 1, ws\<lparr>connection_closed := True\<rparr>, w)
         else do {
           str \<leftarrow> c_string (read_str ws);
           let ws = ws\<lparr>http_packet := str\<rparr>;
           case find_sub (crlf @ crlf) str 0 of
             None \<Rightarrow> Some (- 1, ws, w)
           | Some _ \<Rightarrow> Some (int (length bs), ws, w) } } }"

definition WSKeyIdentifier :: "byte list" where "WSKeyIdentifier = bytes_of ''Sec-WebSocket-Key: ''"
definition WSProtocolIdentifier :: "byte list" where
  "WSProtocolIdentifier = bytes_of ''Sec-WebSocket-Protocol: ''"
definition WSMagic :: "byte list" where "WSMagic = bytes_of ''258EAFA5-E914-47DA-95CA-C5AB0DC85B11''"

definition handshake_answer :: "byte list \<Rightarrow> bool \<Rightarrow> byte list" where
  "handshake_answer final_str is_protocol =
     bytes_of ''HTTP/1.1 101 Switching Protocols'' @ crlf @
     bytes_of ''Upgrade: websocket'' @ crlf @
     bytes_of ''Connection: Upgrade'' @ crlf @
     bytes_of ''Sec-WebSocket-Accept: '' @ final_str @ crlf @
     (if is_protocol then bytes_of ''Sec-WebSocket-Protocol: chat'' @ crlf else []) @
     crlf"

definition authenticate :: "'w reader \<Rightarrow> 'w writer \<Rightarrow> 'w \<Rightarrow> websocket \<Rightarrow> (int \<times> websocket \<times> 'w) option" where
  "authenticate rd wr w ws = do {
     (err, ws, w) \<leftarrow> read_http_packet rd w ws;
     if err < 0 then Some (- 1, ws, w)
     else (
       let is_protocol = find_sub WSProtocolIdentifier (http_packet ws) 0 \<noteq> None in
       case find_sub WSKeyIdentifier (http_packet ws) 0 of
         None \<Rightarrow> Some (- 1, ws, w)
       | Some pos \<Rightarrow> do {
           let key = take 24 (drop (pos + length WSKeyIdentifier) (http_packet ws)) @ WSMagic;
           digest \<leftarrow> SHA1 key;
           s \<leftarrow> store_bytes (sha_str ws) 0 digest;
           let ws = ws\<lparr>sha_str := s\<rparr>;
           sha20 \<leftarrow> load_bytes (sha_str ws) 0 20;
           final_str \<leftarrow> base64_encode sha20;
           let answer = handshake_answer final_str is_protocol;
           send_request wr w ws answer (int (length answer)) }) }"

section \<open>Receiving, for every behaviour of the peer\<close>

declare rnb_inner.simps [simp del] send_loop.simps [simp del]

definition no_error :: "'w reader \<Rightarrow> bool" where
  "no_error rd \<longleftrightarrow> (\<forall>w n. fst (rd w n) \<noteq> RdErr)"

lemma packet_read_no_error: "no_error packet_read"
proof -
  have "fst (packet_read w n) \<noteq> RdErr" for w n by (induction w n rule: packet_read.induct) simp_all
  then show ?thesis by (simp add: no_error_def)
qed

text \<open>
  The type invariant: the arrays have their declared lengths, and the decoded header, if stale, is one that \<open>read_header\<close>
  accepted. In a new object only the first part holds: the header is not initialised before the first frame.
\<close>

definition ws_bufs :: "websocket \<Rightarrow> bool" where
  "ws_bufs ws \<longleftrightarrow> length (read_str ws) = WEBSOCK_READ_STR_LEN \<and> length (send_buf ws) = WEBSOCK_SEND_BUF_LEN \<and>
     length (sha_str ws) = 21 \<and> read_str_len ws \<le> WEBSOCK_READ_STR_LEN"

definition ws_ok :: "websocket \<Rightarrow> bool" where
  "ws_ok ws \<longleftrightarrow> length (read_str ws) = WEBSOCK_READ_STR_LEN \<and> length (send_buf ws) = WEBSOCK_SEND_BUF_LEN \<and>
     length (sha_str ws) = 21 \<and> read_str_len ws \<le> WEBSOCK_READ_STR_LEN \<and>
     (header_size (ws_header ws), mask_offset (ws_header ws)) \<in> {(6, 2), (8, 4), (14, 10)} \<and>
     payload_size (ws_header ws) \<le> int WEBSOCK_READ_STR_LEN - 56"

lemma ws_ok_bufs: "ws_ok ws \<Longrightarrow> ws_bufs ws"
  by (simp add: ws_ok_def ws_bufs_def)

lemma new_websocket_bufs:
  "length send_mem = WEBSOCK_SEND_BUF_LEN \<Longrightarrow> ws_bufs (set_id fd (new_websocket hdr_mem send_mem))"
  by (simp add: ws_bufs_def new_websocket_def set_id_def)

text \<open>At most \<open>n\<close> bytes have been added to the read buffer, nothing else changed but the closed flag.\<close>

definition filled :: "websocket \<Rightarrow> nat \<Rightarrow> websocket \<Rightarrow> bool" where
  "filled ws n ws' \<longleftrightarrow> length (read_str ws') = length (read_str ws) \<and> read_str_len ws' \<le> read_str_len ws + n \<and>
     ws_header ws' = ws_header ws \<and> send_buf ws' = send_buf ws \<and> sha_str ws' = sha_str ws"

lemma filled_refl [simp]: "filled ws n ws"
  by (simp add: filled_def)

lemma filled_closed [simp]: "filled ws n (ws'\<lparr>connection_closed := c\<rparr>) \<longleftrightarrow> filled ws n ws'"
  by (simp add: filled_def)

lemma rnb_inner_safe:
  "\<lbrakk> reader_ok rd; no_error rd; read_str_len ws + nat r \<le> length (read_str ws) \<rbrakk> \<Longrightarrow>
   \<exists>br r' ws' w'. rnb_inner rd w ws r r br0 = Some (br, r', r', ws', w') \<and>
     filled ws (nat r) ws' \<and> (br = 0 \<or> r' \<le> 0)"
proof (induction "nat r" arbitrary: w ws r br0 rule: less_induct)
  case less
  show ?case
  proof (cases "r > 0")
    case False
    then show ?thesis by (simp add: rnb_inner.simps [of rd w ws])
  next
    case True
    obtain bs w1 where r1: "rd w (nat r) = (RdBytes bs, w1)"
      using less.prems(2) unfolding no_error_def by (metis rd_result.exhaust prod.collapse)
    show ?thesis
    proof (cases "bs = []")
      case True
      then show ?thesis using r1 \<open>r > 0\<close> by (simp add: rnb_inner.simps [of rd w ws])
    next
      case False
      have len: "length bs \<le> nat r" using less.prems(1) r1 unfolding reader_ok_def by blast
      let ?ws = "ws\<lparr>read_str := patch (read_str ws) (read_str_len ws) bs, read_str_len := read_str_len ws + length bs\<rparr>"
      let ?r = "r - int (length bs)"
      have st: "store_bytes (read_str ws) (read_str_len ws) bs = Some (read_str ?ws)"
        using less.prems(3) len by (simp add: store_bytes_patch)
      have "\<not> r < int (length bs)" using len True by linarith
      then have step: "rnb_inner rd w ws r r br0 = rnb_inner rd w1 ?ws ?r ?r (int (length bs))"
        using r1 False True len st by (simp add: rnb_inner.simps [of rd w ws] Let_def)
      have "\<exists>br r' ws' w'. rnb_inner rd w1 ?ws ?r ?r (int (length bs)) = Some (br, r', r', ws', w') \<and>
          filled ?ws (nat ?r) ws' \<and> (br = 0 \<or> r' \<le> 0)"
        using False True len less.prems by (intro less.hyps) simp_all
      moreover have "filled ws (nat r) ws'" if "filled ?ws (nat ?r) ws'" for ws'
        using that len less.prems(3) True by (auto simp: filled_def nat_diff_distrib)
      ultimately show ?thesis using step by metis
    qed
  qed
qed

lemma read_n_bytes_safe:
  assumes "reader_ok rd" and "no_error rd" and "read_str_len ws + nat n \<le> length (read_str ws)"
  obtains r ws' w' where "read_n_bytes rd w ws n n = Some (r, ws', w')" "filled ws (nat n) ws'"
proof (cases "n > 0")
  case False
  then show ?thesis using that by (simp add: read_n_bytes_def rnb_outer.simps)
next
  case True
  obtain br r' ws' w' where
    i: "rnb_inner rd w ws n n (- 1) = Some (br, r', r', ws', w')" "filled ws (nat n) ws'" "br = 0 \<or> r' \<le> 0"
    using rnb_inner_safe [OF assms] by blast
  have "rnb_outer rd w' ws' r' r' br = Some (0, ws', w')" if "r' \<le> 0"
    using that by (simp add: rnb_outer.simps)
  with i True have "read_n_bytes rd w ws n n
      = Some (if br = 0 then (1, ws'\<lparr>connection_closed := True\<rparr>, w')
          else if read_str_len ws' = KOHERON_READ_STR_LEN then (- 1, ws', w') else (0, ws', w'))"
    by (auto simp: read_n_bytes_def rnb_outer.simps [of rd w ws])
  with i(2) show ?thesis
    using that by (cases "br = 0"; cases "read_str_len ws' = KOHERON_READ_STR_LEN") auto
qed

text \<open>Headers: every path of \<open>read_header\<close> leaves a header that the invariant allows.\<close>

lemma ws_ok_filled: "ws_ok ws \<Longrightarrow> filled ws n ws' \<Longrightarrow> read_str_len ws + n \<le> WEBSOCK_READ_STR_LEN \<Longrightarrow> ws_ok ws'"
  by (simp add: ws_ok_def filled_def)

lemma read_n_bytes_header:
  assumes "reader_ok rd" and "no_error rd" and "ws_ok ws" and "read_str_len ws + n \<le> k" and "k \<le> 14"
  obtains r ws' w' where "read_n_bytes rd w ws (int n) (int n) = Some (r, ws', w')" "ws_ok ws'"
    "read_str_len ws' \<le> k"
proof -
  have "read_str_len ws + nat (int n) \<le> length (read_str ws)"
    using assms(3-5) by (simp add: ws_ok_def buffer_lengths)
  then obtain r ws' w' where "read_n_bytes rd w ws (int n) (int n) = Some (r, ws', w')" "filled ws n ws'"
    using read_n_bytes_safe [OF assms(1,2), of ws "int n" w] by auto
  moreover have "ws_ok ws'"
    by (rule ws_ok_filled [OF assms(3) \<open>filled ws n ws'\<close>]) (use assms(4,5) in \<open>simp add: buffer_lengths\<close>)
  ultimately show ?thesis using that assms(4) by (simp add: filled_def)
qed

lemma ws_ok_header_bits [simp]:
  "ws_ok (ws\<lparr>ws_header := (ws_header ws)\<lparr>fin := a, masked := b, opcode := n\<rparr>\<rparr>) \<longleftrightarrow> ws_ok ws"
  "ws_ok (ws\<lparr>connection_closed := x\<rparr>) \<longleftrightarrow> ws_ok ws"
  by (simp_all add: ws_ok_def)

lemma load_ok: "ws_ok ws \<Longrightarrow> i < 14 \<Longrightarrow> \<exists>x. load (read_str ws) i = Some x"
  by (simp add: load_def ws_ok_def buffer_lengths)

lemma read_size_ok:
  "ws_ok ws \<Longrightarrow> \<exists>x. read_size16 (read_str ws) 2 = Some x"
  "ws_ok ws \<Longrightarrow> \<exists>x. read_size64 (read_str ws) 2 = Some x"
  by (simp_all add: read_size16_def read_size64_def extract_u16_def extract_u64_def extract_u32_def
      load_def ws_ok_def buffer_lengths)

lemma set_sizes_ok:
  assumes "ws_ok ws" and "(hs, mo) \<in> {(6, 2), (8, 4), (14, 10)}"
  shows "check_payload_size (set_sizes hs p mo ws) < 0 \<or> ws_ok (set_sizes hs p mo ws)"
  using assms by (auto simp: ws_ok_def set_sizes_def check_payload_size_def)

lemma set_sizes_len [simp]: "read_str_len (set_sizes hs p mo ws) = read_str_len ws"
  by (simp add: set_sizes_def)

lemma read_sizes_safe:
  assumes "reader_ok rd" and "no_error rd" and "ws_ok ws" and "read_str_len ws \<le> 6"
  obtains r ws' w' where "read_sizes rd w ws n = Some (r, ws', w')" "r < 0 \<or> ws_ok ws'" "read_str_len ws' \<le> 14"
proof -
  obtain r3 ws3 w3 where 3: "read_n_bytes rd w ws 2 2 = Some (r3, ws3, w3)" "ws_ok ws3" "read_str_len ws3 \<le> 8"
    by (rule read_n_bytes_header [OF assms(1-3), of 2 8 w]) (use assms(4) in simp_all)
  obtain r4 ws4 w4 where 4: "read_n_bytes rd w ws 8 8 = Some (r4, ws4, w4)" "ws_ok ws4" "read_str_len ws4 \<le> 14"
    by (rule read_n_bytes_header [OF assms(1-3), of 8 14 w]) (use assms(4) in simp_all)
  obtain s3 s4 where sz: "read_size16 (read_str ws3) 2 = Some s3" "read_size64 (read_str ws4) 2 = Some s4"
    using read_size_ok(1) [OF 3(2)] read_size_ok(2) [OF 4(2)] by blast
  have sizes: "check_payload_size (set_sizes 6 (int n) 2 ws) < 0 \<or> ws_ok (set_sizes 6 (int n) 2 ws)"
    "check_payload_size (set_sizes 8 s3 4 ws3) < 0 \<or> ws_ok (set_sizes 8 s3 4 ws3)"
    "check_payload_size (set_sizes 14 s4 10 ws4) < 0 \<or> ws_ok (set_sizes 14 s4 10 ws4)"
    by (rule set_sizes_ok [OF assms(3)] set_sizes_ok [OF 3(2)] set_sizes_ok [OF 4(2)]; simp)+
  let ?P = "\<lambda>x. case x of None \<Rightarrow> False | Some (r, ws', w') \<Rightarrow> (r < 0 \<or> ws_ok ws') \<and> read_str_len ws' \<le> 14"
  have "?P (read_sizes rd w ws n)"
    unfolding read_sizes_def 3(1) 4(1) using assms(3,4) 3(2,3) 4(2,3) sizes
    by (simp add: sz Let_def split: if_split)
  then show ?thesis using that by (auto split: option.splits)
qed

lemma read_header_safe:
  assumes "reader_ok rd" and "no_error rd" and "ws_ok ws" and "read_str_len ws = 0"
  obtains r ws' w' where "read_header rd w ws = Some (r, ws', w')" "r < 0 \<or> ws_ok ws'" "read_str_len ws' \<le> 14"
proof -
  obtain r1 ws1 w1 where 1: "read_n_bytes rd w ws 6 6 = Some (r1, ws1, w1)" "ws_ok ws1" "read_str_len ws1 \<le> 6"
    by (rule read_n_bytes_header [OF assms(1-3), of 6 6 w]) (use assms(4) in simp_all)
  obtain b0 b1 where b: "load (read_str ws1) 0 = Some b0" "load (read_str ws1) 1 = Some b1"
    using load_ok [OF 1(2)] by fastforce
  define ws2 where "ws2 = ws1\<lparr>ws_header := (ws_header ws1)\<lparr>fin := (b0 AND 0x80 \<noteq> 0),
    masked := (b1 AND 0x80 \<noteq> 0), opcode := unat (b0 AND 0x0F)\<rparr>\<rparr>"
  have 2: "ws_ok ws2" "read_str_len ws2 \<le> 6" using 1 by (simp_all add: ws2_def)
  obtain r3 ws3 w3 where 3: "read_sizes rd w1 ws2 (unat (b1 AND 0x7F)) = Some (r3, ws3, w3)"
      "r3 < 0 \<or> ws_ok ws3" "read_str_len ws3 \<le> 14"
    by (rule read_sizes_safe [OF assms(1,2) 2])
  have "read_header rd w ws = Some (
      if r1 < 0 then (- 1, ws1, w1)
      else if connection_closed ws1 then (0, ws1, w1)
      else if check_opcode (opcode (ws_header ws2)) < 0 then (- 1, ws2, w1)
      else if check_opcode (opcode (ws_header ws2)) = 1 then (1, ws2\<lparr>connection_closed := True\<rparr>, w1)
      else (r3, ws3, w3))"
    unfolding read_header_def 1(1) by (simp add: b Let_def ws2_def 3(1) [unfolded ws2_def] del: One_nat_def)
  then show ?thesis using that 1 2 3 by (auto split: if_splits)
qed

lemma reset_ok: "ws_ok ws \<Longrightarrow> \<exists>ws'. reset_read_buff ws = Some ws' \<and> ws_ok ws' \<and> read_str_len ws' = 0"
  by (simp add: reset_read_buff_def store_bytes_patch ws_ok_def)

lemma read_stream_safe:
  assumes "reader_ok rd" and "no_error rd" and "ws_ok ws"
  obtains r ws' w' where "read_stream rd w ws = Some (r, ws', w')" "r < 0 \<or> ws_ok ws'"
proof -
  obtain ws0 where 0: "reset_read_buff ws = Some ws0" "ws_ok ws0" "read_str_len ws0 = 0"
    using reset_ok [OF assms(3)] by blast
  obtain r1 ws1 w1 where 1: "read_header rd w ws0 = Some (r1, ws1, w1)" "r1 < 0 \<or> ws_ok ws1"
      "read_str_len ws1 \<le> 14"
    using read_header_safe [OF assms(1,2) 0(2,3), of w] .
  show ?thesis
  proof (cases "r1 < 0 \<or> r1 = 1")
    case True
    then show ?thesis using that 0 1 by (auto simp: read_stream_def)
  next
    case False
    let ?n = "payload_size (ws_header ws1)"
    have ok: "ws_ok ws1" using 1 False by simp
    then have "?n \<le> int WEBSOCK_READ_STR_LEN - 56" by (simp add: ws_ok_def)
    then have fit: "read_str_len ws1 + nat ?n \<le> WEBSOCK_READ_STR_LEN"
      using 1(3) by (simp add: buffer_lengths)
    then have "read_str_len ws1 + nat ?n \<le> length (read_str ws1)" using ok by (simp add: ws_ok_def)
    then obtain r2 ws2 w2 where 2: "read_n_bytes rd w1 ws1 ?n ?n = Some (r2, ws2, w2)" "filled ws1 (nat ?n) ws2"
      by (rule read_n_bytes_safe [OF assms(1,2)])
    then have "ws_ok ws2" using ws_ok_filled [OF ok _ fit] by blast
    moreover have "read_stream rd w ws = Some (if r2 < 0 then - 1 else r2, ws2, w2)"
      using False 0(1) 1(1) 2(1) by (simp add: read_stream_def)
    ultimately show ?thesis using that by blast
  qed
qed

text \<open>The bytes that \<open>decode_raw_stream_cmd\<close> computes, in bounds for every accepted header.\<close>

definition plain :: "websocket \<Rightarrow> nat \<Rightarrow> byte" where
  "plain ws i = read_str ws ! (nat (mask_offset (ws_header ws)) + 4 + i)
     XOR read_str ws ! (nat (mask_offset (ws_header ws)) + i mod 4)"

lemma unmask_plain:
  assumes "ws_ok ws" and "int i < max 8 (payload_size (ws_header ws))"
  shows "unmask ws i = Some (plain ws i)"
proof -
  have mo: "0 \<le> mask_offset (ws_header ws)" "mask_offset (ws_header ws) \<le> 10"
    and len: "length (read_str ws) = 262144" "payload_size (ws_header ws) \<le> 262088"
    using assms(1) by (auto simp: ws_ok_def buffer_lengths)
  have "i mod 4 < 4" by simp
  moreover have "int i < 262088" using assms(2) len(2) by linarith
  moreover have "nat (mask_offset (ws_header ws) + 4 + int i) = nat (mask_offset (ws_header ws)) + 4 + i"
    "nat (mask_offset (ws_header ws) + int (i mod 4)) = nat (mask_offset (ws_header ws)) + i mod 4"
    using mo by linarith+
  moreover from calculation mo have "nat (mask_offset (ws_header ws)) + i mod 4 < 262144"
    "nat (mask_offset (ws_header ws)) + 4 + i < 262144"
    by linarith+
  ultimately show ?thesis
    using mo len(1) by (simp add: unmask_def load_at_def load_def plain_def)
qed

lemma decode_raw_stream_cmd_eq:
  assumes "ws_ok ws" and "command_ok cmd"
  shows "decode_raw_stream_cmd ws cmd =
    (if read_str_len ws < header_size (ws_header ws) + 1 then Some (- 1, cmd)
     else Some (0, cmd\<lparr>
       header := (header cmd)\<lparr>buf_data := map (plain ws) [0..<8]\<rparr>,
       payload := (payload cmd)\<lparr>buf_data := patch (buf_data (payload cmd)) 0
         (map (plain ws) [8..<nat (payload_size (ws_header ws))])\<rparr>\<rparr>))"
proof -
  let ?n = "nat (payload_size (ws_header ws))"
  have "for_loop 0 8 (\<lambda>i d. do { x \<leftarrow> unmask ws i; store d i x }) (buf_data (header cmd))
      = Some (patch (buf_data (header cmd)) 0 (map (plain ws) [0..<8]))"
    by (rule for_loop_fill)
      (use assms unmask_plain [OF assms(1)] in \<open>simp_all add: command_ok_def HEADER_SIZE_def\<close>)
  moreover have "patch (buf_data (header cmd)) 0 (map (plain ws) [0..<8]) = map (plain ws) [0..<8]"
    using assms(2) by (intro patch_whole) (simp add: command_ok_def HEADER_SIZE_def)
  moreover have "for_loop 8 ?n (\<lambda>i d. do { x \<leftarrow> unmask ws i; store d (i - 8) x }) (buf_data (payload cmd))
      = Some (patch (buf_data (payload cmd)) 0 (map (plain ws) [8..<?n]))"
  proof (cases "8 \<le> ?n")
    case True
    have "?n \<le> 262088" using assms(1) by (auto simp: ws_ok_def buffer_lengths)
    then show ?thesis
      by (intro for_loop_fill)
        (use assms True unmask_plain [OF assms(1)] in \<open>simp_all add: command_ok_def CMD_PAYLOAD_BUFFER_LEN_def\<close>)
  qed simp
  moreover have "(header_size (ws_header ws) + 1) mod 2 ^ 32 = header_size (ws_header ws) + 1"
    using assms(1) by (auto simp: ws_ok_def)
  ultimately show ?thesis
    unfolding decode_raw_stream_cmd_def HEADER_SIZE_def by simp
qed

lemma receive_cmd_safe:
  assumes "reader_ok rd" and "no_error rd" and "ws_ok ws" and "command_ok cmd"
  shows "\<exists>r ws' cmd' w'. receive_cmd rd w ws cmd = Some (r, ws', cmd', w') \<and> command_ok cmd' \<and>
    (r < 0 \<or> ws_ok ws')"
proof (cases "connection_closed ws")
  case True
  then show ?thesis using assms by (simp add: receive_cmd_def)
next
  case False
  obtain r1 ws1 w1 where 1: "read_stream rd w ws = Some (r1, ws1, w1)" "r1 < 0 \<or> ws_ok ws1"
    by (rule read_stream_safe [OF assms(1-3)])
  have "payload_size (ws_header ws1) \<le> 262088" if "ws_ok ws1"
    using that by (simp add: ws_ok_def buffer_lengths)
  with 1 False assms(4) show ?thesis
    by (cases "r1 < 0"; cases "r1 = 1")
      (auto simp: receive_cmd_def decode_raw_stream_cmd_eq command_ok_def buffer_lengths)
qed

section \<open>RFC 6455\<close>

definition len_field :: "nat \<Rightarrow> byte list" where
  "len_field n = (if n \<le> 125 then [of_nat n] else if n \<le> 65535 then 126 # be16 (of_nat n)
     else 127 # be64 (of_nat n))"

definition apply_mask :: "byte list \<Rightarrow> byte list \<Rightarrow> byte list" where
  "apply_mask key xs = map (\<lambda>i. xs ! i XOR key ! (i mod 4)) [0..<length xs]"

text \<open>A final frame from the client, masked, and one from the server, not masked.\<close>

definition client_head :: "byte \<Rightarrow> byte list \<Rightarrow> nat \<Rightarrow> byte list" where
  "client_head opc key n = (0x80 OR opc) # (0x80 OR hd (len_field n)) # tl (len_field n) @ key"

definition client_frame :: "byte \<Rightarrow> byte list \<Rightarrow> byte list \<Rightarrow> byte list" where
  "client_frame opc key xs = client_head opc key (length xs) @ apply_mask key xs"

definition server_frame :: "byte \<Rightarrow> byte list \<Rightarrow> byte list" where
  "server_frame opc xs = (0x80 OR opc) # len_field (length xs) @ xs"

definition client_head_size :: "nat \<Rightarrow> nat" where
  "client_head_size n = (if n \<le> 125 then 6 else if n \<le> 65535 then 8 else 14)"

lemma length_apply_mask [simp]: "length (apply_mask key xs) = length xs"
  by (simp add: apply_mask_def)

lemma length_client_head [simp]: "length key = 4 \<Longrightarrow> length (client_head opc key n) = client_head_size n"
  by (simp add: client_head_def len_field_def client_head_size_def)

section \<open>Receiving from a stream\<close>

text \<open>\<open>n\<close> more bytes of the stream are in the read buffer.\<close>

definition got :: "websocket \<Rightarrow> byte list \<Rightarrow> websocket" where
  "got ws xs = ws\<lparr>read_str := patch (read_str ws) (read_str_len ws) xs, read_str_len := read_str_len ws + length xs\<rparr>"

lemma got_simps [simp]:
  "read_str_len (got ws xs) = read_str_len ws + length xs"
  "ws_header (got ws xs) = ws_header ws"
  "connection_closed (got ws xs) = connection_closed ws"
  "read_str (got ws xs) = patch (read_str ws) (read_str_len ws) xs"
  by (simp_all add: got_def)

lemma got_Nil [simp]: "got ws [] = ws"
  by (simp add: got_def)

lemma got_got:
  "read_str_len ws + length xs + length ys \<le> length (read_str ws) \<Longrightarrow> got (got ws xs) ys = got ws (xs @ ys)"
  by (simp add: got_def patch_adjacent)

lemma rnb_inner_stream:
  "\<lbrakk> stream_source rd peer; peer w = xs @ rest; xs \<noteq> []; read_str_len ws + length xs \<le> length (read_str ws) \<rbrakk> \<Longrightarrow>
   \<exists>br w'. rnb_inner rd w ws (int (length xs)) (int (length xs)) br0 = Some (br, 0, 0, got ws xs, w') \<and>
     br > 0 \<and> peer w' = rest"
proof (induction "length xs" arbitrary: w ws xs br0 rule: less_induct)
  case less
  from less.prems(1-3) obtain bs w1 where r: "rd w (length xs) = (RdBytes bs, w1)" "bs \<noteq> []"
      "length bs \<le> length xs" "peer w = bs @ peer w1"
    unfolding stream_source_def by (metis append_is_Nil_conv length_greater_0_conv)
  define ys where "ys = drop (length bs) xs"
  have xs: "xs = bs @ ys" and w1: "peer w1 = ys @ rest"
  proof -
    have eq: "xs @ rest = bs @ peer w1" using r(4) less.prems(2) by simp
    have "take (length bs) (xs @ rest) = bs" "drop (length bs) (xs @ rest) = peer w1"
      unfolding eq by simp_all
    then have "take (length bs) xs = bs" "peer w1 = ys @ rest" using r(3) by (simp_all add: ys_def)
    then show "xs = bs @ ys" "peer w1 = ys @ rest" by (metis append_take_drop_id ys_def)+
  qed
  have st: "store_bytes (read_str ws) (read_str_len ws) bs = Some (patch (read_str ws) (read_str_len ws) bs)"
    using less.prems(4) xs by (simp add: store_bytes_patch)
  have step: "rnb_inner rd w ws (int (length xs)) (int (length xs)) br0
      = rnb_inner rd w1 (got ws bs) (int (length ys)) (int (length ys)) (int (length bs))"
  proof -
    have "int (length xs) - int (length bs) = int (length ys)" "0 < length xs" using xs r(2) by simp_all
    then show ?thesis using r(1,2) st by (simp add: rnb_inner.simps [of rd w ws] Let_def got_def)
  qed
  show ?case
  proof (cases "ys = []")
    case True
    then show ?thesis using step r(2) w1 xs by (simp add: rnb_inner.simps [of rd w1])
  next
    case False
    have fit: "read_str_len ws + length bs + length ys \<le> length (read_str ws)"
      using less.prems(4) xs by simp
    have "\<exists>br w'. rnb_inner rd w1 (got ws bs) (int (length ys)) (int (length ys)) (int (length bs))
        = Some (br, 0, 0, got (got ws bs) ys, w') \<and> br > 0 \<and> peer w' = rest"
      using False fit r(2) w1 less.prems(1) xs by (intro less.hyps) simp_all
    then show ?thesis using step got_got [OF fit] xs by simp
  qed
qed

lemma read_n_bytes_stream:
  assumes "stream_source rd peer" and "peer w = xs @ rest"
    and "read_str_len ws + length xs \<le> length (read_str ws)"
  obtains w' where "read_n_bytes rd w ws (int (length xs)) (int (length xs))
    = Some (if xs \<noteq> [] \<and> read_str_len ws + length xs = KOHERON_READ_STR_LEN then - 1 else 0, got ws xs, w')"
    "peer w' = rest"
proof (cases "xs = []")
  case True
  then show ?thesis using that [of w] assms(2) by (simp add: read_n_bytes_def rnb_outer.simps)
next
  case False
  obtain br w' where i: "rnb_inner rd w ws (int (length xs)) (int (length xs)) (- 1)
      = Some (br, 0, 0, got ws xs, w')" "br > 0" "peer w' = rest"
    using rnb_inner_stream [OF assms(1,2) False assms(3)] by blast
  have "rnb_outer rd w' (got ws xs) 0 0 br = Some (0, got ws xs, w')" by (simp add: rnb_outer.simps)
  then show ?thesis using that [of w'] i False
    by (simp add: read_n_bytes_def rnb_outer.simps [of rd w ws])
qed

lemma low_bits:
  "k < 128 \<Longrightarrow> unat ((0x80 OR of_nat k) AND 0x7F :: byte) = k"
proof -
  assume "k < 128"
  have m: "(0x7F :: byte) = mask 7" by (simp add: mask_eq_exp_minus_1)
  have "(0x80 OR of_nat k) AND 0x7F = (take_bit 7 (of_nat k) :: byte)"
    unfolding m take_bit_eq_mask [symmetric] take_bit_or by simp
  moreover have "unat (of_nat k :: byte) = k" using \<open>k < 128\<close> by (simp add: unat_of_nat)
  ultimately show ?thesis using \<open>k < 128\<close>
    by (simp only: unsigned_take_bit_eq) (simp add: take_bit_nat_eq_self)
qed

lemma data_opcode:
  "opc \<in> {1, 2} \<Longrightarrow> check_opcode (unat ((0x80 OR opc) AND 0x0F :: byte)) = 0"
  by (auto simp: check_opcode_def opcode_defs)

definition ready :: "websocket \<Rightarrow> bool" where
  "ready ws \<longleftrightarrow> ws_bufs ws \<and> \<not> connection_closed ws \<and> read_str_len ws = 0"

text \<open>The header that \<open>read_header\<close> leaves after the head of a client frame.\<close>

definition has_header :: "nat \<Rightarrow> frame_header \<Rightarrow> bool" where
  "has_header n h \<longleftrightarrow> header_size h = client_head_size n \<and> mask_offset h = int (client_head_size n) - 4 \<and>
     payload_size h = int n"

lemma read_size16_be:
  "n \<le> 65535 \<Longrightarrow> length xs = 2 \<Longrightarrow> read_size16 (xs @ be16 (of_nat n) @ ys) 2 = Some (int n)"
  using extract_u16_be [of xs "of_nat n" ys] by (simp add: read_size16_def unsigned_of_nat take_bit_eq_mod)

lemma read_size64_be:
  "n < 2 ^ 63 \<Longrightarrow> length xs = 2 \<Longrightarrow> read_size64 (xs @ be64 (of_nat n) @ ys) 2 = Some (int n)"
  using extract_u64_be [of xs "of_nat n" ys] sint_word_of_int_range [of "int n", where ?'a = 64]
  by (simp add: read_size64_def)

lemma read_header_step:
  assumes "read_n_bytes rd w ws 6 6 = Some (r, ws1, w1)" and "0 \<le> r" and "\<not> connection_closed ws1"
    and "load (read_str ws1) 0 = Some b0" and "load (read_str ws1) 1 = Some b1"
    and "check_opcode (unat (b0 AND 0x0F)) = 0"
  shows "read_header rd w ws = read_sizes rd w1 (ws1\<lparr>ws_header := (ws_header ws1)\<lparr>fin := (b0 AND 0x80 \<noteq> 0),
    masked := (b1 AND 0x80 \<noteq> 0), opcode := unat (b0 AND 0x0F)\<rparr>\<rparr>) (unat (b1 AND 0x7F))"
  using assms by (simp add: read_header_def Let_def)

lemma set_sizes_frame:
  assumes "n \<le> 262088"
  shows "\<exists>h. set_sizes (client_head_size n) (int n) (int (client_head_size n) - 4) (ws\<lparr>ws_header := h0\<rparr>)
      = ws\<lparr>ws_header := h\<rparr> \<and> has_header n h"
    and "check_payload_size (set_sizes (client_head_size n) (int n) mo ws) = 0"
proof -
  show "\<exists>h. set_sizes (client_head_size n) (int n) (int (client_head_size n) - 4) (ws\<lparr>ws_header := h0\<rparr>)
      = ws\<lparr>ws_header := h\<rparr> \<and> has_header n h"
    by (rule exI [of _ "h0\<lparr>header_size := client_head_size n, payload_size := int n,
        mask_offset := int (client_head_size n) - 4\<rparr>"]) (simp add: set_sizes_def has_header_def)
qed (use assms in \<open>simp add: set_sizes_def check_payload_size_def buffer_lengths\<close>)

text \<open>
  One lemma for the three sizes: the head is read as its first six bytes and the bytes after them,
  if any, in a second call.
\<close>

lemma read_header_frame:
  assumes "stream_source rd peer" and "peer w = client_head opc key n @ rest" and "ready ws"
    and "opc \<in> {1, 2}" and "length key = 4" and "n \<le> WEBSOCK_READ_STR_LEN - 56"
  obtains w' h where "read_header rd w ws = Some (0, (got ws (client_head opc key n))\<lparr>ws_header := h\<rparr>, w')"
    "peer w' = rest" "has_header n h"
proof -
  let ?head = "client_head opc key n"
  define xs ys where "xs = take 6 ?head" and "ys = drop 6 ?head"
  have n: "n \<le> 262088" using assms(6) by (simp add: buffer_lengths)
  have split: "?head = xs @ ys" "length xs = 6" "length ys = client_head_size n - 6"
    using assms(5) by (simp_all add: xs_def ys_def client_head_size_def)
  have ws: "read_str_len ws = 0" "\<not> connection_closed ws" "length (read_str ws) = 262144"
    using assms(3) by (simp_all add: ready_def ws_bufs_def buffer_lengths)
  obtain w1 where 1: "read_n_bytes rd w ws 6 6 = Some (0, got ws xs, w1)" "peer w1 = ys @ rest"
    using read_n_bytes_stream [OF assms(1), of w xs "ys @ rest" ws] assms(2) split ws
    by (auto simp: buffer_lengths)
  define b0 b1 where "b0 = 0x80 OR opc" and "b1 = 0x80 OR hd (len_field n)"
  have b: "load (read_str (got ws xs)) 0 = Some b0" "load (read_str (got ws xs)) 1 = Some b1"
    using ws by (simp_all add: xs_def client_head_def patch_def load_def b0_def b1_def)
  define ws2 where "ws2 = (got ws xs)\<lparr>ws_header := (ws_header ws)\<lparr>fin := (b0 AND 0x80 \<noteq> 0),
    masked := (b1 AND 0x80 \<noteq> 0), opcode := unat (b0 AND 0x0F)\<rparr>\<rparr>"
  have "check_opcode (unat (b0 AND 0x0F)) = 0" unfolding b0_def by (rule data_opcode [OF assms(4)])
  then have rh: "read_header rd w ws = read_sizes rd w1 ws2 (unat (b1 AND 0x7F))"
    using read_header_step [OF 1(1) _ _ b] ws(2) by (simp add: ws2_def)
  show ?thesis
  proof (cases "n \<le> 125")
    case True
    then have "ys = []" "unat (b1 AND 0x7F) = n"
      using split(3) low_bits [of n] by (simp_all add: client_head_size_def len_field_def b1_def)
    moreover have "client_head_size n = 6" using True by (simp add: client_head_size_def)
    moreover note set_sizes_frame [OF n]
    ultimately have "read_sizes rd w1 ws2 (unat (b1 AND 0x7F)) = Some (0, set_sizes 6 (int n) 2 ws2, w1)"
      "\<exists>h. set_sizes 6 (int n) 2 ws2 = (got ws ?head)\<lparr>ws_header := h\<rparr> \<and> has_header n h"
      using True split(1) by (simp_all add: read_sizes_def ws2_def)
    then show ?thesis using that rh 1(2) \<open>ys = []\<close> by fastforce
  next
    case False
    have fit: "read_str_len ws2 + length ys \<le> length (read_str ws2)"
      using split ws by (simp add: ws2_def client_head_size_def)
    have rs: "read_str (got ws2 ys) = patch (read_str ws) 0 ?head"
      using split ws by (simp add: ws2_def patch_adjacent client_head_size_def)
    have cl: "\<not> connection_closed (got ws2 ys)" using ws(2) by (simp add: ws2_def)
    have g: "got ws2 ys = (got ws ?head)\<lparr>ws_header := ws_header ws2\<rparr>"
      using split ws by (simp add: ws2_def got_def patch_adjacent client_head_size_def)
    have ne: "length ys + 6 \<noteq> KOHERON_READ_STR_LEN" using split(3) by (simp add: buffer_lengths client_head_size_def)
    obtain w2 where 2: "read_n_bytes rd w1 ws2 (int (length ys)) (int (length ys)) = Some (0, got ws2 ys, w2)"
        "peer w2 = rest"
      using read_n_bytes_stream [OF assms(1) 1(2) fit] split(2) ws ne by (auto simp: ws2_def)
    show ?thesis
    proof (cases "n \<le> 65535")
      case True
      with False have y: "length ys = 2" and sz: "unat (b1 AND 0x7F) = 126"
        using split(3) low_bits [of 126] by (simp_all add: client_head_size_def len_field_def b1_def)
      have "read_size16 (read_str (got ws2 ys)) 2 = Some (int n)"
        unfolding rs using read_size16_be [OF True, of "[b0, b1]"] False True
        by (simp add: patch_def client_head_def len_field_def b0_def b1_def)
      moreover have "client_head_size n = 8" using False True by (simp add: client_head_size_def)
      moreover note set_sizes_frame [OF n]
      ultimately have "read_sizes rd w1 ws2 (unat (b1 AND 0x7F)) = Some (0, set_sizes 8 (int n) 4 (got ws2 ys), w2)"
        "\<exists>h. set_sizes 8 (int n) 4 (got ws2 ys) = (got ws ?head)\<lparr>ws_header := h\<rparr> \<and> has_header n h"
        using 2(1) y cl sz by (simp_all add: read_sizes_def g)
      then show ?thesis using that rh 2(2) by fastforce
    next
      case False2: False
      with False have y: "length ys = 8" and sz: "unat (b1 AND 0x7F) = 127"
        using split(3) low_bits [of 127] by (simp_all add: client_head_size_def len_field_def b1_def)
      have "n < 2 ^ 63" using n by simp
      then have "read_size64 (read_str (got ws2 ys)) 2 = Some (int n)"
        unfolding rs using read_size64_be [of n "[b0, b1]"] False2
        by (simp add: patch_def client_head_def len_field_def b0_def b1_def)
      moreover have "client_head_size n = 14" using False False2 by (simp add: client_head_size_def)
      moreover note set_sizes_frame [OF n]
      ultimately have "read_sizes rd w1 ws2 (unat (b1 AND 0x7F)) = Some (0, set_sizes 14 (int n) 10 (got ws2 ys), w2)"
        "\<exists>h. set_sizes 14 (int n) 10 (got ws2 ys) = (got ws ?head)\<lparr>ws_header := h\<rparr> \<and> has_header n h"
        using 2(1) y cl sz by (simp_all add: read_sizes_def g)
      then show ?thesis using that rh 2(2) by fastforce
    qed
  qed
qed

text \<open>The whole frame.\<close>

lemma client_head_key:
  assumes "length key = 4" and "k < 4"
  shows "client_head opc key n ! (client_head_size n - 4 + k) = key ! k"
proof -
  have "client_head opc key n = ((0x80 OR opc) # (0x80 OR hd (len_field n)) # tl (len_field n)) @ key"
    by (simp add: client_head_def)
  moreover have "length ((0x80 OR opc) # (0x80 OR hd (len_field n)) # tl (len_field n)) = client_head_size n - 4"
    by (simp add: len_field_def client_head_size_def)
  ultimately show ?thesis by (metis nth_append_length_plus)
qed

lemma plain_frame:
  assumes "has_header (length xs) (ws_header ws)" and "length key = 4" and "i < length xs"
    and "read_str ws = client_frame opc key xs @ rest"
  shows "plain ws i = xs ! i"
proof -
  let ?n = "client_head_size (length xs)"
  have hs: "6 \<le> ?n" "length (client_head opc key (length xs)) = ?n"
    using assms(2) by (simp_all add: client_head_size_def)
  have "read_str ws ! (?n + i) = xs ! i XOR key ! (i mod 4)"
    using hs(2) assms(3) by (simp add: assms(4) client_frame_def nth_append apply_mask_def)
  moreover have "read_str ws ! (?n - 4 + i mod 4) = key ! (i mod 4)"
  proof -
    have "i mod 4 < 4" by simp
    with hs have "?n - 4 + i mod 4 < ?n" by linarith
    then show ?thesis
      using client_head_key [OF assms(2), of "i mod 4" opc "length xs"] hs(2)
      by (simp add: assms(4) client_frame_def nth_append)
  qed
  moreover have "nat (mask_offset (ws_header ws)) = ?n - 4" "?n - 4 + 4 + i = ?n + i"
    using assms(1) hs(1) by (simp_all add: has_header_def)
  ultimately show ?thesis
    unfolding plain_def by (simp add: xor.assoc)
qed

lemma receive_cmd_frame:
  assumes "stream_source rd peer" and "peer w = client_frame opc key xs @ rest"
    and "ws_bufs ws" and "\<not> connection_closed ws" and "command_ok cmd"
    and "opc \<in> {1, 2}" and "length key = 4" and "8 \<le> length xs" and "length xs \<le> WEBSOCK_READ_STR_LEN - 56"
  shows "\<exists>ws' w'. peer w' = rest \<and> ws_ok ws' \<and> \<not> connection_closed ws' \<and>
    payload_size (ws_header ws') = int (length xs) \<and>
    receive_cmd rd w ws cmd =
     (if client_head_size (length xs) + length xs = KOHERON_READ_STR_LEN then Some (- 1, ws', cmd, w')
      else Some (int (length xs), ws', cmd\<lparr>header := (header cmd)\<lparr>buf_data := take 8 xs\<rparr>,
        payload := (payload cmd)\<lparr>buf_data := patch (buf_data (payload cmd)) 0 (drop 8 xs)\<rparr>\<rparr>, w'))"
proof -
  let ?n = "length xs" and ?head = "client_head opc key (length xs)" and ?hs = "client_head_size (length xs)"
  obtain ws0 where 0: "reset_read_buff ws = Some ws0" "ws_bufs ws0" "read_str_len ws0 = 0"
    "connection_closed ws0 = connection_closed ws"
    using assms(3) by (auto simp: reset_read_buff_def store_bytes_patch ws_bufs_def)
  then have "ready ws0" using assms(4) by (simp add: ready_def)
  have len: "length (read_str ws0) = 262144" "?n \<le> 262088"
    using 0(2) assms(9) by (simp_all add: ws_bufs_def buffer_lengths)
  have hs: "?hs \<le> 14" "length ?head = ?hs" using assms(7) by (simp_all add: client_head_size_def)
  have "peer w = ?head @ apply_mask key xs @ rest" using assms(2) by (simp add: client_frame_def)
  then obtain w1 h where 1: "read_header rd w ws0 = Some (0, (got ws0 ?head)\<lparr>ws_header := h\<rparr>, w1)"
      "peer w1 = apply_mask key xs @ rest" "has_header ?n h"
    using read_header_frame [OF assms(1) _ \<open>ready ws0\<close> assms(6,7,9)] by metis
  let ?ws1 = "(got ws0 ?head)\<lparr>ws_header := h\<rparr>"
  let ?ws2 = "got ?ws1 (apply_mask key xs)"
  have fit: "read_str_len ?ws1 + length (apply_mask key xs) \<le> length (read_str ?ws1)"
    using hs len 0(3) by simp
  obtain w2 where 2: "read_n_bytes rd w1 ?ws1 (int ?n) (int ?n)
      = Some (if ?hs + ?n = KOHERON_READ_STR_LEN then - 1 else 0, ?ws2, w2)" "peer w2 = rest"
  proof -
    have "apply_mask key xs \<noteq> []" using assms(8) by (metis length_apply_mask list.size(3) not_numeral_le_zero)
    then show thesis
      using read_n_bytes_stream [OF assms(1) 1(2) fit] hs(2) 0(3) that by auto
  qed
  have rs: "read_str ?ws2 = client_frame opc key xs @ drop (?hs + ?n) (read_str ws0)"
    using hs len 0(3) by (simp add: patch_adjacent) (simp add: patch_def client_frame_def)
  have ok: "ws_ok ?ws2"
    using 0(2,3) 1(3) hs len by (simp add: ws_ok_def ws_bufs_def got_def has_header_def buffer_lengths client_head_size_def)
  have h2: "has_header ?n (ws_header ?ws2)" using 1(3) by simp
  have pl: "map (plain ?ws2) [0..<8] = take 8 xs" "map (plain ?ws2) [8..<?n] = drop 8 xs"
    using plain_frame [OF h2 assms(7) _ rs] assms(8) by (auto intro!: nth_equalityI)
  have ps: "payload_size (ws_header ?ws1) = int ?n" "nat (payload_size (ws_header ?ws2)) = ?n"
    using 1(3) by (simp_all add: has_header_def)
  have st: "read_stream rd w ws = Some (if ?hs + ?n = KOHERON_READ_STR_LEN then - 1 else 0, ?ws2, w2)"
    unfolding read_stream_def using 0(1) 1(1) 2(1) ps(1) by simp
  have "\<not> read_str_len ?ws2 < header_size (ws_header ?ws2) + 1"
    using h2 hs(2) assms(8) 0(3) by (auto simp: has_header_def)
  then have dec: "decode_raw_stream_cmd ?ws2 cmd = Some (0, cmd\<lparr>header := (header cmd)\<lparr>buf_data := take 8 xs\<rparr>,
        payload := (payload cmd)\<lparr>buf_data := patch (buf_data (payload cmd)) 0 (drop 8 xs)\<rparr>\<rparr>)"
    unfolding decode_raw_stream_cmd_eq [OF ok assms(5)] pl ps(2) by (simp only: if_False)
  have "\<not> connection_closed ?ws2" using 0(4) assms(4) by simp
  moreover have "payload_size (ws_header ?ws2) = int ?n" using ps(1) by simp
  moreover have "receive_cmd rd w ws cmd =
     (if ?hs + ?n = KOHERON_READ_STR_LEN then Some (- 1, ?ws2, cmd, w2)
      else Some (int ?n, ?ws2, cmd\<lparr>header := (header cmd)\<lparr>buf_data := take 8 xs\<rparr>,
        payload := (payload cmd)\<lparr>buf_data := patch (buf_data (payload cmd)) 0 (drop 8 xs)\<rparr>\<rparr>, w2))"
    unfolding receive_cmd_def st using assms(4) dec ps(1) by simp
  ultimately show ?thesis using 2(2) ok by blast
qed

text \<open>A \<open>read\<close> that keeps failing is repeated for ever.\<close>

lemma rnb_outer_stuck:
  assumes "\<And>w k. fst (rd w k) = RdErr" and "read_str_len ws \<noteq> KOHERON_READ_STR_LEN" and "0 < n"
  shows "rnb_outer rd w ws n n br = None"
proof -
  have inner: "rnb_inner rd w ws n n br = Some (- 1, n, n, ws, snd (rd w (nat n)))" for w br
    using assms(1) [of w "nat n"] assms(3)
    by (cases "rd w (nat n)") (simp add: rnb_inner.simps [of rd w ws])
  have "\<not> (rd' = rd \<and> ws' = ws \<and> r = n \<and> e = n)"
    if H: "rnb_outer rd' w ws' r e br = Some y" for rd' w ws' r e br y
  proof (rule rnb_outer.raw_induct [where
        P = "\<lambda>rd' w ws' r e br y. \<not> (rd' = rd \<and> ws' = ws \<and> r = n \<and> e = n)", OF _ H], goal_cases)
    case (1 rnb rd' w ws' r e br y)
    show ?case
    proof (rule notI, elim conjE)
      assume eq: "rd' = rd" "ws' = ws" "r = n" "e = n"
      then have "rnb rd (snd (rd w (nat n))) ws n n (- 1) = Some y"
        using 1(2) inner [of w br] assms(2,3) by simp
      from 1(1) [OF this] show False by simp
    qed
  qed
  then show ?thesis by (metis not_None_eq)
qed

section \<open>Sending to a stream\<close>

lemma send_loop_stream:
  assumes "stream_sink wr sent" and "offset + n \<le> length bits"
  shows "\<exists>r w'. send_loop wr w bits offset (int n) br = Some (r, w') \<and>
    sent w' = sent w @ take n (drop offset bits) \<and> (if n = 0 then r = br else 0 < r)"
  using assms(2)
proof (induction n arbitrary: w offset br rule: less_induct)
  case (less n)
  show ?case
  proof (cases "n = 0")
    case True
    then show ?thesis by (simp add: send_loop.simps)
  next
    case False
    let ?xs = "take n (drop offset bits)"
    have "?xs \<noteq> []" "length ?xs = n" using False less.prems by auto
    then obtain k w1 where k: "wr w ?xs = (int k, w1)" "0 < k" "k \<le> n" "sent w1 = sent w @ take k ?xs"
      using assms(1) unfolding stream_sink_def by metis
    have step: "send_loop wr w bits offset (int n) br = send_loop wr w1 bits (offset + k) (int (n - k)) (int k)"
      using False less.prems k(1-3)
      by (simp add: send_loop.simps [of wr w] load_bytes_def of_nat_diff)
    have "\<exists>r w'. send_loop wr w1 bits (offset + k) (int (n - k)) (int k) = Some (r, w') \<and>
        sent w' = sent w1 @ take (n - k) (drop (offset + k) bits) \<and> (if n - k = 0 then r = int k else 0 < r)"
      using k False less.prems by (intro less.IH) auto
    moreover have "take k ?xs @ take (n - k) (drop (offset + k) bits) = ?xs"
    proof -
      have "take k ?xs @ take (n - k) (drop k (drop offset bits)) = take n (drop offset bits)"
        using k(3) by (metis add_diff_inverse_nat linorder_not_less take_add take_take min.absorb1)
      then show ?thesis by (simp add: add.commute)
    qed
    ultimately show ?thesis using step k False by (auto split: if_splits)
  qed
qed

lemma send_request_stream:
  assumes "stream_sink wr sent" and "n \<le> length bits" and "\<not> connection_closed ws"
  shows "\<exists>r w'. send_request wr w ws bits (int n) = Some (r, ws, w') \<and> sent w' = sent w @ take n bits \<and>
    (if n = 0 then r = 0 else 0 < r)"
  using send_loop_stream [OF assms(1), of 0 n bits w 0] assms(2,3) by (auto simp: send_request_def)

lemma size_byte:
  "word_of_int (drop_bit k (int n) AND 0xFF) = (ucast (drop_bit k (of_nat n :: 'a::len word)) :: byte)"
  if "k + 8 \<le> LENGTH('a)"
proof -
  have m: "(0xFF :: int) = mask 8" by (simp add: mask_eq_exp_minus_1)
  show ?thesis unfolding m using that
    by (intro bit_word_eqI) (auto simp: bit_simps bit_of_nat_iff)
qed

text \<open>The first bytes of the buffer become the head of a server frame.\<close>

lemma set_send_header_eq:
  assumes "10 + n \<le> length bits" and "n < 2 ^ 63"
  shows "set_send_header bits (int n) format = Some (int (length (len_field n)) + 1,
    patch (patch bits 0 (replicate (10 + n) 0)) 0 (of_nat format # len_field n))"
proof -
  let ?b = "patch bits 0 (replicate (10 + n) 0)"
  have z: "store_bytes bits 0 (replicate (nat (10 + int n)) 0) = Some ?b"
    using assms(1) by (simp add: store_bytes_patch nat_add_distrib)
  have len: "length ?b = length bits" using assms(1) by simp
  have L: "10 \<le> length bits" using assms(1) by simp
  with len have ne: "?b \<noteq> []" by (metis list.size(3) not_numeral_le_zero)
  consider "n \<le> 125" | "125 < n" "n \<le> 65535" | "65535 < n" by linarith
  then show ?thesis
  proof cases
    case 1
    then show ?thesis using L
      by (simp add: set_send_header_def z len_field_def store_patch len ne patch_adjacent)
  next
    case 2
    have "word_of_int (drop_bit 8 (int n) AND 0xFF) = (ucast (drop_bit 8 (of_nat n :: u16)) :: byte)"
      "word_of_int (int n AND 0xFF) = (ucast (of_nat n :: u16) :: byte)"
      using size_byte [where ?'a = 16, of 8 n] size_byte [where ?'a = 16, of 0 n] by simp_all
    then show ?thesis using L 2
      by (simp add: set_send_header_def z len_field_def store_patch len ne patch_adjacent be16_def Let_def)
  next
    case 3
    have "k + 8 \<le> 64 \<Longrightarrow> word_of_int (drop_bit k (int n) AND 0xFF) = (ucast (drop_bit k (of_nat n :: u64)) :: byte)" for k
      by (rule size_byte) simp
    from this [of 56] this [of 48] this [of 40] this [of 32] this [of 24] this [of 16] this [of 8] this [of 0]
    show ?thesis using L 3
      by (simp add: set_send_header_def z len_field_def store_patch len ne patch_adjacent Let_def
          count_bytes_be64 [symmetric] count_bytes_def)
  qed
qed

lemma len_field_length: "length (len_field n) \<le> 9"
  by (simp add: len_field_def)

text \<open>\<open>send\<close> writes one server frame, in as many pieces as the peer takes it.\<close>

lemma ws_send_stream:
  assumes "stream_sink wr sent" and "ws_bufs ws" and "\<not> connection_closed ws"
    and "length data + 10 \<le> WEBSOCK_SEND_BUF_LEN"
  shows "\<exists>r ws' w'. ws_send wr w ws data = Some (r, ws', w') \<and> 0 < r \<and> ws_bufs ws' \<and> ws_header ws' = ws_header ws \<and>
    \<not> connection_closed ws' \<and> sent w' = sent w @ server_frame 2 data"
proof -
  let ?n = "length data" and ?off = "1 + length (len_field (length data))"
  let ?b = "patch (patch (send_buf ws) 0 (replicate (10 + ?n) 0)) 0 (of_nat 130 # len_field ?n)"
  have len: "length (send_buf ws) = 262144" "?n \<le> 262134"
    using assms(2,4) by (simp_all add: ws_bufs_def buffer_lengths)
  have hd: "set_send_header (send_buf ws) (int ?n) 130 = Some (int (length (len_field ?n)) + 1, ?b)"
    by (rule set_send_header_eq) (use len in simp_all)
  have lb: "length ?b = 262144" using len len_field_length [of ?n] by simp
  define bits where "bits = patch ?b ?off data"
  have st: "store_bytes ?b (nat (int (length (len_field ?n)) + 1)) data = Some bits"
    using lb len len_field_length [of ?n] by (simp add: store_bytes_patch bits_def nat_add_distrib)
  have lbits: "length bits = 262144"
    using lb len len_field_length [of ?n] unfolding bits_def by (subst length_patch) simp_all
  have frame: "take (?off + ?n) bits = server_frame 2 data"
    unfolding bits_def using len len_field_length [of ?n]
    by (simp add: patch_def server_frame_def)
  have fit: "?off + ?n \<le> length bits" using lbits len len_field_length [of ?n] by simp
  obtain r w' where s: "send_request wr w (ws\<lparr>send_buf := bits\<rparr>) bits (int (?off + ?n))
      = Some (r, ws\<lparr>send_buf := bits\<rparr>, w')" "sent w' = sent w @ take (?off + ?n) bits" "0 < r"
    using send_request_stream [OF assms(1) fit, of "ws\<lparr>send_buf := bits\<rparr>" w] assms(3) by auto
  have "int (length (len_field ?n)) + 1 + int ?n = int (?off + ?n)" by simp
  then have "ws_send wr w ws data = Some (r, ws\<lparr>send_buf := bits\<rparr>, w')"
    using assms(3) len(2) hd st s(1)
    by (simp add: ws_send_def BINARY_FRAME_def WEBSOCK_SEND_BUF_LEN_def ac_simps)
  moreover have "ws_bufs (ws\<lparr>send_buf := bits\<rparr>)"
    using assms(2) lbits by (simp add: ws_bufs_def WEBSOCK_SEND_BUF_LEN_def)
  ultimately show ?thesis using s assms(3) frame by simp
qed

lemma ws_send_too_long:
  "\<not> connection_closed ws \<Longrightarrow> WEBSOCK_SEND_BUF_LEN < length data + 10 \<Longrightarrow> length data + 10 < 2 ^ 32 \<Longrightarrow>
    ws_send wr w ws data = Some (- 1, ws, w)"
  by (simp add: ws_send_def)

section \<open>The handshake\<close>

lemma c_string_prefix:
  assumes "0 \<notin> set req" and "length req < length b" and "\<forall>x \<in> set b. x = 0"
  shows "c_string (patch b 0 req) = Some req"
proof -
  obtain y ys where rest: "drop (length req) b = y # ys"
    using assms(2) by (metis Cons_nth_drop_Suc)
  then have "y = 0" using assms(3) by (metis in_set_dropD list.set_intros(1))
  moreover have "takeWhile (\<lambda>x. x \<noteq> 0) (req @ 0 # ys) = req"
    using assms(1) by (subst takeWhile_append2) auto
  ultimately show ?thesis using rest by (simp add: c_string_def patch_def)
qed

lemma read_http_packet_request:
  assumes "ws_bufs ws" and "read_str_len ws = 0" and "\<forall>x \<in> set (read_str ws). x = 0"
    and "rd w WEBSOCK_READ_STR_LEN = (RdBytes req, w1)"
    and "0 \<notin> set req" and "req \<noteq> []" and "length req < WEBSOCK_READ_STR_LEN"
    and "length req \<noteq> KOHERON_READ_STR_LEN" and "find_sub (crlf @ crlf) req 0 \<noteq> None"
  shows "read_http_packet rd w ws
    = Some (int (length req), ws\<lparr>read_str := patch (read_str ws) 0 req, http_packet := req\<rparr>, w1)"
proof -
  have len: "length (read_str ws) = WEBSOCK_READ_STR_LEN" using assms(1) by (simp add: ws_bufs_def)
  have "c_string (patch (read_str ws) 0 req) = Some req"
    by (rule c_string_prefix) (use assms len in simp_all)
  moreover have "ws\<lparr>read_str_len := 0\<rparr> = ws" using assms(2) by simp
  ultimately show ?thesis
    using assms len by (auto simp: read_http_packet_def reset_read_buff_def store_bytes_patch)
qed

lemma authenticate_request:
  assumes "stream_sink wr sent" and "ws_bufs ws" and "\<not> connection_closed ws" and "read_str_len ws = 0"
    and "\<forall>x \<in> set (read_str ws). x = 0"
    and "rd w WEBSOCK_READ_STR_LEN = (RdBytes req, w1)"
    and "0 \<notin> set req" and "length req < WEBSOCK_READ_STR_LEN" and "length req \<noteq> KOHERON_READ_STR_LEN"
    and "find_sub (crlf @ crlf) req 0 \<noteq> None"
    and "req = pre @ WSKeyIdentifier @ key @ post" and "length key = 24"
    and "find_sub WSKeyIdentifier req 0 = Some (length pre)"
  shows "\<exists>r ws' w'. authenticate rd wr w ws = Some (r, ws', w') \<and> 0 < r \<and> ws_bufs ws' \<and> ws_header ws' = ws_header ws \<and>
    \<not> connection_closed ws' \<and> sent w' = sent w1 @ handshake_answer (rfc4648 (fips_180_1 (key @ WSMagic)))
      (find_sub WSProtocolIdentifier req 0 \<noteq> None)"
proof -
  let ?ws1 = "ws\<lparr>read_str := patch (read_str ws) 0 req, http_packet := req\<rparr>"
  let ?d = "fips_180_1 (key @ WSMagic)"
  let ?ans = "handshake_answer (rfc4648 ?d) (find_sub WSProtocolIdentifier req 0 \<noteq> None)"
  let ?ws2 = "?ws1\<lparr>sha_str := patch (sha_str ws) 0 ?d\<rparr>"
  have "req \<noteq> []" using assms(11,12) by auto
  then have rp: "read_http_packet rd w ws = Some (int (length req), ?ws1, w1)"
    using assms by (intro read_http_packet_request) simp_all
  have key: "take 24 (drop (length pre + length WSKeyIdentifier) req) = key"
    using assms(11,12) by simp
  have sha: "store_bytes (sha_str ws) 0 ?d = Some (patch (sha_str ws) 0 ?d)"
      "load_bytes (patch (sha_str ws) 0 ?d) 0 20 = Some ?d"
    using assms(2) by (simp_all add: ws_bufs_def store_bytes_patch load_bytes_def patch_def)
  have ne: "?ans \<noteq> []" by (simp add: handshake_answer_def crlf_def)
  obtain r w' where s: "send_request wr w1 ?ws2 ?ans (int (length ?ans)) = Some (r, ?ws2, w')"
      "sent w' = sent w1 @ ?ans" "0 < r"
    using send_request_stream [OF assms(1) order_refl [of "length ?ans"], of ?ws2 w1] assms(3) ne
    by auto
  have "authenticate rd wr w ws = Some (r, ?ws2, w')"
    unfolding authenticate_def rp using assms(13) key sha s(1)
    by (simp add: SHA1_eq base64_encode_eq Let_def)
  moreover have "ws_bufs ?ws2" using assms(2,8) by (simp add: ws_bufs_def)
  ultimately show ?thesis using s assms(3) by simp
qed

section \<open>A connection that is closed before its first frame\<close>

text \<open>
  At the end of the stream \<open>read_header\<close> returns 0, and \<open>read_stream\<close> goes on with the header of the last frame. Of a new object it
  is not initialised: the result depends on what its memory holds, up to an access outside of \<open>read_str\<close>.
\<close>

definition at_end :: "'w reader \<Rightarrow> ('w \<Rightarrow> bool) \<Rightarrow> bool" where
  "at_end rd ended \<longleftrightarrow> (\<forall>w n. ended w \<longrightarrow> 0 < n \<longrightarrow> fst (rd w n) = RdBytes [] \<and> ended (snd (rd w n)))"

lemma read_n_bytes_closed:
  assumes "at_end rd ended" and "ended w"
  obtains w' where "ended w'" and
    "read_n_bytes rd w ws n n = Some (if 0 < n then (1, ws\<lparr>connection_closed := True\<rparr>, w') else (0, ws, w'))"
proof (cases "0 < n")
  case True
  then obtain w1 where "rd w (nat n) = (RdBytes [], w1)" "ended w1"
    using assms unfolding at_end_def by (metis prod.collapse zero_less_nat_eq)
  then show ?thesis using that [of w1] True
    by (simp add: read_n_bytes_def rnb_outer.simps [of rd w ws] rnb_inner.simps [of rd w ws])
qed (use that [of w] assms in \<open>simp add: read_n_bytes_def rnb_outer.simps [of rd w ws]\<close>)

lemma receive_cmd_closed:
  assumes "at_end rd ended" and "ended w" and "ws_bufs ws" and "\<not> connection_closed ws"
  shows "0 < payload_size (ws_header ws) \<Longrightarrow>
      \<exists>ws' w'. receive_cmd rd w ws cmd = Some (0, ws', cmd, w') \<and> connection_closed ws'"
    and "payload_size (ws_header ws) \<le> 0 \<Longrightarrow> header_size (ws_header ws) + 1 < 2 ^ 32 \<Longrightarrow>
      \<exists>ws' w'. receive_cmd rd w ws cmd = Some (- 1, ws', cmd, w')"
    and "payload_size (ws_header ws) \<le> 0 \<Longrightarrow> header_size (ws_header ws) + 1 = 2 ^ 32 \<Longrightarrow>
      int WEBSOCK_READ_STR_LEN \<le> mask_offset (ws_header ws) \<Longrightarrow> receive_cmd rd w ws cmd = None"
proof -
  let ?h = "ws_header ws"
  obtain ws0 where 0: "reset_read_buff ws = Some ws0" "ws_bufs ws0" "read_str_len ws0 = 0" "ws_header ws0 = ?h"
    using assms(3) by (auto simp: reset_read_buff_def store_bytes_patch ws_bufs_def)
  let ?ws1 = "ws0\<lparr>connection_closed := True\<rparr>"
  obtain w1 where 1: "ended w1" "read_n_bytes rd w ws0 6 6 = Some (1, ?ws1, w1)"
    using read_n_bytes_closed [OF assms(1,2), of ws0 6] by auto
  then have h: "read_header rd w ws0 = Some (0, ?ws1, w1)" by (simp add: read_header_def)
  obtain w2 where 2: "read_n_bytes rd w1 ?ws1 (payload_size ?h) (payload_size ?h)
      = Some (if 0 < payload_size ?h then 1 else 0, ?ws1, w2)"
    by (rule read_n_bytes_closed [OF assms(1) 1(1), of ?ws1 "payload_size ?h"]) (use that in \<open>simp split: if_splits\<close>)
  have st: "read_stream rd w ws = Some (if 0 < payload_size ?h then 1 else 0, ?ws1, w2)"
    using 0 h 2 by (simp add: read_stream_def)
  show "0 < payload_size ?h \<Longrightarrow> \<exists>ws' w'. receive_cmd rd w ws cmd = Some (0, ws', cmd, w') \<and> connection_closed ws'"
    using st assms(4) by (simp add: receive_cmd_def)
  show "payload_size ?h \<le> 0 \<Longrightarrow> header_size ?h + 1 < 2 ^ 32 \<Longrightarrow> \<exists>ws' w'. receive_cmd rd w ws cmd = Some (- 1, ws', cmd, w')"
    using st assms(4) 0 by (simp add: receive_cmd_def decode_raw_stream_cmd_def)
  assume big: "payload_size ?h \<le> 0" "header_size ?h + 1 = 2 ^ 32" "int WEBSOCK_READ_STR_LEN \<le> mask_offset ?h"
  have "unmask ?ws1 0 = None"
    using 0 big(3) by (simp add: unmask_def load_at_def load_def ws_bufs_def nat_le_iff)
  then have "decode_raw_stream_cmd ?ws1 cmd = None"
    using 0 big(2) by (simp add: decode_raw_stream_cmd_def HEADER_SIZE_def for_loop.simps [of 0])
  then show "receive_cmd rd w ws cmd = None" using st big(1) assms(4) by (simp add: receive_cmd_def)
qed

section \<open>What the calls leave alone\<close>

text \<open>A property of the world that the system calls keep is kept by the functions that use them.\<close>

lemma rnb_inner_keeps:
  assumes rd: "\<And>w n. P w \<Longrightarrow> P (snd (rd w n))"
  shows "rnb_inner rd w ws remaining expected br = Some (r, rm, e, ws', w') \<Longrightarrow> P w \<Longrightarrow> P w'"
proof (induction "nat remaining" arbitrary: w ws remaining expected br rule: less_induct)
  case less
  obtain res w1 where r: "rd w (nat remaining) = (res, w1)" by force
  then have w1: "P w1" using rd [OF less.prems(2), of "nat remaining"] by simp
  show ?case
  proof (cases "0 < remaining \<and> (\<exists>bs. res = RdBytes bs \<and> bs \<noteq> [])")
    case False
    then show ?thesis using less.prems w1 r
      by (cases res; cases "0 < remaining") (simp_all add: rnb_inner.simps [of rd w ws])
  next
    case True
    then obtain bs where bs: "res = RdBytes bs" "bs \<noteq> []" by blast
    then obtain s where "rnb_inner rd w1 (ws\<lparr>read_str := s, read_str_len := read_str_len ws + length bs\<rparr>) (remaining - int (length bs))
        (if expected - int (length bs) < 0 then 0 else expected - int (length bs)) (int (length bs)) = Some (r, rm, e, ws', w')"
      using less.prems(1) True r by (auto simp: rnb_inner.simps [of rd w ws] bind_eq_Some_conv Let_def)
    moreover have "nat (remaining - int (length bs)) < nat remaining" using True bs(2) by (cases bs) auto
    ultimately show ?thesis using less.hyps w1 by blast
  qed
qed

lemma rnb_outer_keeps:
  assumes rd: "\<And>w n. P w \<Longrightarrow> P (snd (rd w n))" and H: "rnb_outer rd w ws remaining expected br = Some y" and "P w"
  shows "P (snd (snd y))"
proof -
  have "rd = rd \<and> P w \<longrightarrow> P (snd (snd y))"
  proof (rule rnb_outer.raw_induct [where P = "\<lambda>rd' w ws r e br y. rd' = rd \<and> P w \<longrightarrow> P (snd (snd y))", OF _ H], goal_cases)
    case (1 rnb rd' w ws r e br y)
    show ?case
    proof (intro impI, elim conjE)
      assume eq: "rd' = rd" and w: "P w"
      show "P (snd (snd y))"
      proof (cases "0 < e")
        case True
        then obtain br1 r1 e1 ws1 w1 where i: "rnb_inner rd w ws r e br = Some (br1, r1, e1, ws1, w1)"
          using 1(2) eq by (cases "rnb_inner rd w ws r e br") auto
        note w1 = rnb_inner_keeps [of P, OF rd i w]
        show ?thesis
          using 1(2) 1(1) [of rd w1 ws1 r1 e1 br1 y] eq w1 True i by (auto split: if_splits)
      qed (use 1(2) w in auto)
    qed
  qed
  then show ?thesis using assms(3) by simp
qed

definition keeps :: "('w \<Rightarrow> bool) \<Rightarrow> ('a \<times> 'b \<times> 'w) option \<Rightarrow> bool" where
  "keeps P x \<longleftrightarrow> (\<forall>a b w. x = Some (a, b, w) \<longrightarrow> P w)"

lemma keeps_simps [simp]: "keeps P (Some (a, b, w)) \<longleftrightarrow> P w" "keeps P None"
  by (simp_all add: keeps_def)

lemma keeps_bind:
  "keeps P x \<Longrightarrow> (\<And>a b w. P w \<Longrightarrow> keeps P (f a b w)) \<Longrightarrow> keeps P (Option.bind x (\<lambda>(a, b, w). f a b w))"
  by (cases x) (auto simp: keeps_def)

lemma keeps_bind_value: "(\<And>y. keeps P (f y)) \<Longrightarrow> keeps P (Option.bind x f)"
  by (cases x) simp_all

lemmas keeps_values = keeps_bind_value [where x = "load b i" for b i] keeps_bind_value [where x = "read_size16 b i" for b i]
  keeps_bind_value [where x = "read_size64 b i" for b i] keeps_bind_value [where x = "reset_read_buff ws" for ws]
  keeps_bind_value [where x = "store_bytes b i xs" for b i xs] keeps_bind_value [where x = "c_string b" for b]
  keeps_bind_value [where x = "SHA1 xs" for xs] keeps_bind_value [where x = "load_bytes b i n" for b i n]
  keeps_bind_value [where x = "base64_encode xs" for xs]

text \<open>\<open>reads_keep P rd\<close>: \<open>read\<close> keeps \<open>P\<close>.\<close>

definition reads_keep :: "('w \<Rightarrow> bool) \<Rightarrow> 'w reader \<Rightarrow> bool" where
  "reads_keep P rd \<longleftrightarrow> (\<forall>w n. P w \<longrightarrow> P (snd (rd w n)))"

lemma read_n_bytes_keeps: "reads_keep P rd \<Longrightarrow> P w \<Longrightarrow> keeps P (read_n_bytes rd w ws n e)"
  unfolding keeps_def read_n_bytes_def
proof (intro allI impI)
  fix a b w' assume "reads_keep P rd" "P w" "rnb_outer rd w ws n e (- 1) = Some (a, b, w')"
  then show "P w'" using rnb_outer_keeps [of P rd w ws n e "- 1" "(a, b, w')"] by (simp add: reads_keep_def)
qed

lemma read_sizes_keeps: "reads_keep P rd \<Longrightarrow> P w \<Longrightarrow> keeps P (read_sizes rd w ws n)"
  unfolding read_sizes_def Let_def
  by (auto intro!: keeps_bind [OF read_n_bytes_keeps] keeps_values)

lemma read_header_keeps: "reads_keep P rd \<Longrightarrow> P w \<Longrightarrow> keeps P (read_header rd w ws)"
  unfolding read_header_def Let_def
  by (auto intro!: keeps_bind [OF read_n_bytes_keeps] keeps_values read_sizes_keeps)

lemma read_stream_keeps: "reads_keep P rd \<Longrightarrow> P w \<Longrightarrow> keeps P (read_stream rd w ws)"
  unfolding read_stream_def
  by (auto intro!: keeps_bind [OF read_header_keeps] keeps_bind [OF read_n_bytes_keeps] keeps_values)

lemma receive_cmd_keeps:
  "reads_keep P rd \<Longrightarrow> P w \<Longrightarrow> receive_cmd rd w ws cmd = Some (r, ws', cmd', w') \<Longrightarrow> P w'"
  using read_stream_keeps [of P rd w ws]
  by (cases "read_stream rd w ws") (auto simp: receive_cmd_def bind_eq_Some_conv split: if_splits)

lemma send_loop_keeps:
  assumes wr: "\<And>w xs. P w \<Longrightarrow> P (snd (wr w xs))"
  shows "send_loop wr w bits offset remaining br = Some (r, w') \<Longrightarrow> P w \<Longrightarrow> P w'"
proof (induction "nat remaining" arbitrary: w offset remaining br rule: less_induct)
  case less
  show ?case
  proof (cases "0 < remaining")
    case True
    then obtain xs where xs: "load_bytes bits offset (nat remaining) = Some xs"
      using less.prems(1) by (auto simp: send_loop.simps [of wr w] bind_eq_Some_conv)
    obtain n w1 where n: "wr w xs = (n, w1)" by force
    then have w1: "P w1" using wr [OF less.prems(2), of xs] by simp
    show ?thesis
    proof (cases "0 < n")
      case pos: True
      then have "send_loop wr w1 bits (offset + nat n) (remaining - n) n = Some (r, w')"
        using less.prems(1) xs n True by (simp add: send_loop.simps [of wr w])
      then show ?thesis using less.hyps [of "remaining - n"] w1 True pos by simp
    qed (use less.prems(1) xs n True w1 in \<open>simp add: send_loop.simps [of wr w]\<close>)
  qed (use less.prems in \<open>simp add: send_loop.simps [of wr w]\<close>)
qed

lemma send_request_keeps:
  assumes wr: "\<And>w xs. P w \<Longrightarrow> P (snd (wr w xs))" and "P w"
  shows "keeps P (send_request wr w ws bits len)"
  using send_loop_keeps [of P wr w bits 0 len 0, OF wr] assms(2)
  by (cases "send_loop wr w bits 0 len 0") (auto simp: send_request_def)

text \<open>After the request, which is taken by one read, a handshake only writes.\<close>

lemma authenticate_keeps:
  assumes wr: "\<And>w xs. P w \<Longrightarrow> P (snd (wr w xs))" and w: "P (snd (rd w WEBSOCK_READ_STR_LEN))"
  shows "keeps P (authenticate rd wr w ws)"
proof -
  obtain res w1 where r: "rd w WEBSOCK_READ_STR_LEN = (res, w1)" by force
  then have "P w1" using w by simp
  then have "keeps P (read_http_packet rd w ws)"
    unfolding read_http_packet_def r Let_def
    by (auto intro!: keeps_values split: rd_result.split option.split)
  then show ?thesis
    unfolding authenticate_def Let_def
    by (rule keeps_bind) (auto intro!: keeps_values send_request_keeps wr split: option.split)
qed

section \<open>Properties\<close>

definition example_ws :: websocket where
  "example_ws = new_websocket \<lparr>header_size = 6, mask_offset = 2, payload_size = 0, fin = True, masked = True,
     opcode = 2\<rparr> (replicate WEBSOCK_SEND_BUF_LEN 0)"

definition example_cmd :: command where
  "example_cmd = new_command (replicate HEADER_SIZE 0) (replicate CMD_PAYLOAD_BUFFER_LEN 0)"

definition example_request :: "byte list" where
  "example_request = bytes_of ''GET / HTTP/1.1'' @ crlf @ WSKeyIdentifier @
     bytes_of ''dGhlIHNhbXBsZSBub25jZQ=='' @ crlf @ crlf"

lemma example_ws_ok [simp]:
  "ws_ok example_ws" "ws_bufs example_ws" "\<not> connection_closed example_ws" "read_str_len example_ws = 0"
  "x \<in> set (read_str example_ws) \<Longrightarrow> x = 0"
  by (simp_all add: example_ws_def new_websocket_def ws_ok_def ws_bufs_def buffer_lengths)

lemma example_cmd_ok [simp]: "command_ok example_cmd"
  by (simp add: example_cmd_def new_command_def command_ok_def)



text \<open>
  C10: a final binary or text frame of RFC 6455, masked with any key and of any of the three length
  encodings, is decoded to the bytes the client put in it: the first eight become the header of the
  command, the others its payload, and the stream is left at the next frame. The exception is a frame
  whose head and payload together have exactly \<open>KOHERON_READ_STR_LEN\<close> bytes: it is
  refused, although the buffer has sixteen times that size.
\<close>
theorem receive_cmd_rfc6455:
  assumes "stream_source rd peer" and "peer w = client_frame opc key xs @ rest"
    and "ws_bufs ws" and "\<not> connection_closed ws" and "command_ok cmd"
    and "opc \<in> {1, 2}" and "length key = 4" and "8 \<le> length xs" and "length xs \<le> WEBSOCK_READ_STR_LEN - 56"
  shows "\<exists>ws' w'. peer w' = rest \<and> ws_ok ws' \<and> \<not> connection_closed ws' \<and>
    payload_size (ws_header ws') = int (length xs) \<and>
    receive_cmd rd w ws cmd =
     (if client_head_size (length xs) + length xs = KOHERON_READ_STR_LEN then Some (- 1, ws', cmd, w')
      else Some (int (length xs), ws', cmd\<lparr>header := (header cmd)\<lparr>buf_data := take 8 xs\<rparr>,
        payload := (payload cmd)\<lparr>buf_data := patch (buf_data (payload cmd)) 0 (drop 8 xs)\<rparr>\<rparr>, w'))"
  using assms by (rule receive_cmd_frame)

theorem receive_cmd_rfc6455_witness:
  "\<exists>ws' w'. concat w' = [] \<and> ws_ok ws' \<and> \<not> connection_closed ws' \<and>
    payload_size (ws_header ws') = int (length [0, 0, 0, 0, 0, 1, 0, 2, 7 :: byte]) \<and>
    receive_cmd packet_read [client_frame 2 [1, 2, 3, 4] [0, 0, 0, 0, 0, 1, 0, 2, 7]] example_ws example_cmd =
     (if client_head_size (length [0, 0, 0, 0, 0, 1, 0, 2, 7 :: byte]) + length [0, 0, 0, 0, 0, 1, 0, 2, 7 :: byte]
          = KOHERON_READ_STR_LEN then Some (- 1, ws', example_cmd, w')
      else Some (int (length [0, 0, 0, 0, 0, 1, 0, 2, 7 :: byte]), ws',
        example_cmd\<lparr>header := (header example_cmd)\<lparr>buf_data := take 8 [0, 0, 0, 0, 0, 1, 0, 2, 7]\<rparr>,
        payload := (payload example_cmd)\<lparr>buf_data :=
          patch (buf_data (payload example_cmd)) 0 (drop 8 [0, 0, 0, 0, 0, 1, 0, 2, 7])\<rparr>\<rparr>, w'))"
  by (rule receive_cmd_rfc6455 [OF packet_read_stream, where opc = 2 and key = "[1, 2, 3, 4]" and rest = "[]"])
    (simp_all add: buffer_lengths)

text \<open>
  C12: \<open>send\<close> puts exactly one unmasked binary frame of RFC 6455 on the wire, whatever pieces the socket takes
  it in, and reports success.
\<close>
theorem ws_send_rfc6455:
  assumes "stream_sink wr sent" and "ws_bufs ws" and "\<not> connection_closed ws"
    and "length data + 10 \<le> WEBSOCK_SEND_BUF_LEN"
  shows "\<exists>r ws' w'. ws_send wr w ws data = Some (r, ws', w') \<and> 0 < r \<and> ws_bufs ws' \<and> ws_header ws' = ws_header ws \<and>
    \<not> connection_closed ws' \<and> sent w' = sent w @ server_frame 2 data"
  using assms by (rule ws_send_stream)

theorem ws_send_rfc6455_witness:
  "\<exists>r ws' w'. ws_send accept_all [] example_ws [1, 2, 3] = Some (r, ws', w') \<and> 0 < r \<and> ws_bufs ws' \<and>
    ws_header ws' = ws_header example_ws \<and> \<not> connection_closed ws' \<and> w' = [] @ server_frame 2 [1, 2, 3]"
  by (rule ws_send_rfc6455 [OF accept_all_sink]) (simp_all add: buffer_lengths)

text \<open>The answer of RFC 6455, section 4.2.2: a status line, the header fields, and an empty line.\<close>

definition switching_protocols :: "byte list \<Rightarrow> bool \<Rightarrow> byte list" where
  "switching_protocols accept protocol = concat (map (\<lambda>line. line @ [13, 10])
     ([bytes_of ''HTTP/1.1 101 Switching Protocols'', bytes_of ''Upgrade: websocket'', bytes_of ''Connection: Upgrade'',
       bytes_of ''Sec-WebSocket-Accept: '' @ accept] @
      (if protocol then [bytes_of ''Sec-WebSocket-Protocol: chat''] else []) @ [[]]))"

lemma handshake_answer_fields: "handshake_answer = switching_protocols"
  by (intro ext) (simp add: handshake_answer_def switching_protocols_def crlf_def)

text \<open>
  C11: the handshake. To a request that arrives in one read and holds a key of 24 characters the server
  answers with the accept value RFC 6455 asks for: the base 64 encoding of the SHA-1 digest of the key
  followed by the magic string; the protocol line is sent exactly if the request has one.
\<close>
theorem handshake_rfc6455:
  assumes "stream_sink wr sent" and "ws_bufs ws" and "\<not> connection_closed ws" and "read_str_len ws = 0"
    and "\<forall>x \<in> set (read_str ws). x = 0"
    and "rd w WEBSOCK_READ_STR_LEN = (RdBytes req, w1)"
    and "0 \<notin> set req" and "length req < WEBSOCK_READ_STR_LEN" and "length req \<noteq> KOHERON_READ_STR_LEN"
    and "find_sub (crlf @ crlf) req 0 \<noteq> None"
    and "req = pre @ WSKeyIdentifier @ key @ post" and "length key = 24"
    and "find_sub WSKeyIdentifier req 0 = Some (length pre)"
  shows "\<exists>r ws' w'. authenticate rd wr w ws = Some (r, ws', w') \<and> 0 < r \<and> ws_bufs ws' \<and> ws_header ws' = ws_header ws \<and>
    \<not> connection_closed ws' \<and> sent w' = sent w1 @ switching_protocols
      (rfc4648 (fips_180_1 (key @ bytes_of ''258EAFA5-E914-47DA-95CA-C5AB0DC85B11''))) (find_sub WSProtocolIdentifier req 0 \<noteq> None)"
  using assms unfolding WSMagic_def [symmetric] handshake_answer_fields [symmetric] by (rule authenticate_request)

theorem handshake_rfc6455_witness:
  "\<exists>r ws' w'. authenticate (\<lambda>w n. (RdBytes example_request, w)) accept_all [] example_ws = Some (r, ws', w') \<and> 0 < r \<and>
    ws_bufs ws' \<and> ws_header ws' = ws_header example_ws \<and> \<not> connection_closed ws' \<and> w' = [] @ switching_protocols
      (rfc4648 (fips_180_1 (bytes_of ''dGhlIHNhbXBsZSBub25jZQ=='' @ bytes_of ''258EAFA5-E914-47DA-95CA-C5AB0DC85B11'')))
      (find_sub WSProtocolIdentifier example_request 0 \<noteq> None)"
  by (rule handshake_rfc6455 [OF accept_all_sink, where
        pre = "bytes_of ''GET / HTTP/1.1'' @ crlf" and post = "crlf @ crlf"])
    (simp_all add: example_request_def bytes_of_def crlf_def WSKeyIdentifier_def buffer_lengths)

text \<open>
  C25: a \<open>read\<close> that fails is repeated as long as it fails: with a socket in a persistent error state
  the receive loop does not return.
\<close>
theorem read_error_never_returns:
  assumes "\<And>w k. fst (rd w k) = RdErr" and "read_str_len ws \<noteq> KOHERON_READ_STR_LEN" and "0 < n"
  shows "read_n_bytes rd w ws n n = None"
  unfolding read_n_bytes_def using assms by (rule rnb_outer_stuck)

theorem read_error_never_returns_witness:
  "read_n_bytes (\<lambda>(w :: nat) k. (RdErr, w)) 0 example_ws 6 6 = None"
  by (rule read_error_never_returns) (simp_all add: buffer_lengths)

end
