(* ===== verification/Session.thy ===== *)
theory Session
  imports Tcp_Session WebSocket
begin

text \<open>
  The WebSocket specialisation of \<open>Session\<close>, the dispatch of \<open>SessionAbstract\<close> on the type of the socket,
  sending an answer, and the loop \<open>run\<close> of a session thread
  (\<^verbatim>\<open>src/server/core/session.hpp\<close>, \<^verbatim>\<open>session.cpp\<close>, \<^verbatim>\<open>session_abstract.hpp\<close>).

  A WebSocket session has the whole command in the payload buffer of the \<open>Command\<close> and hands out
  parts of it; a TCP session reads the socket. Both provide the interface \<open>session_reader\<close>: here it is
  interpreted on the WebSocket operations and on the TCP operations over a stream of packets.

  \<open>exit_signal\<close> is set by another thread: \<open>sig\<close> tells, for a state of the world, whether it is set.
  The loop may run for ever, so it is a \<open>partial_function\<close>. \<open>driver_manager.execute\<close> is an argument
  of the loop.
\<close>

section \<open>WebSocket\<close>

definition ws_recv_array :: "command \<Rightarrow> nat \<Rightarrow> nat \<Rightarrow> (int \<times> byte list \<times> command) option" where
  "ws_recv_array cmd size_T N = do {
     (arr, p) \<leftarrow> extract_array size_T N (payload cmd);
     Some (0, arr, cmd\<lparr>payload := p\<rparr>) }"

text \<open>The length field of a vector or a string.\<close>

definition ws_get_length :: "command \<Rightarrow> (nat \<times> command) option" where
  "ws_get_length cmd = do {
     (tup, p) \<leftarrow> buffer_deserialize [TU32] (payload cmd);
     case tup of [U32 n] \<Rightarrow> Some (unat n, cmd\<lparr>payload := p\<rparr>) | _ \<Rightarrow> None }"

text \<open>
  The length is compared with the size of the buffer, not with what is left of it; a refused
  container keeps its contents \<open>old\<close>.
\<close>

definition ws_recv_vector :: "buf \<Rightarrow> command \<Rightarrow> nat \<Rightarrow> (int \<times> byte list \<times> command) option" where
  "ws_recv_vector old cmd size_T = do {
     (len, cmd) \<leftarrow> ws_get_length cmd;
     if len > CMD_PAYLOAD_BUFFER_LEN then Some (- 1, old, cmd)
     else do {
       (vec, p) \<leftarrow> to_vector size_T (len div size_T) (payload cmd);
       Some (0, vec, cmd\<lparr>payload := p\<rparr>) } }"

definition ws_recv_string :: "buf \<Rightarrow> command \<Rightarrow> (int \<times> byte list \<times> command) option" where
  "ws_recv_string old cmd = do {
     (len, cmd) \<leftarrow> ws_get_length cmd;
     if len > CMD_PAYLOAD_BUFFER_LEN then Some (- 1, old, cmd)
     else do {
       (str, p) \<leftarrow> to_string len (payload cmd);
       Some (0, str, cmd\<lparr>payload := p\<rparr>) } }"

definition ws_deserialize :: "command \<Rightarrow> scalar_ty list \<Rightarrow> (int \<times> scalar list \<times> command) option" where
  "ws_deserialize cmd ts =
     (if ts = [] then Some (0, [], cmd)
      else do {
        (tup, p) \<leftarrow> buffer_deserialize ts (payload cmd);
        Some (0, tup, cmd\<lparr>payload := p\<rparr>) })"

definition ws_ops :: "buf \<Rightarrow> command session_ops" where
  "ws_ops old = \<lparr>
     deser_op = ws_deserialize,
     recv_array_op = ws_recv_array,
     recv_vector_op = ws_recv_vector old,
     recv_string_op = ws_recv_string old \<rparr>"

definition ws_read_command ::
  "'w reader \<Rightarrow> int \<Rightarrow> 'w \<Rightarrow> websocket \<Rightarrow> command \<Rightarrow> (int \<times> websocket \<times> command \<times> 'w) option" where
  "ws_read_command rd sid w ws cmd = do {
     (r, ws, cmd, w) \<leftarrow> receive_cmd rd w ws cmd;
     if r < 0 then Some (- 1, ws, cmd, w)
     else if connection_closed ws then Some (0, ws, cmd, w)
     else if payload_size (ws_header ws) < int HEADER_SIZE then Some (- 1, ws, cmd, w)
     else do {
       cmd \<leftarrow> decode_header sid cmd;
       Some (int HEADER_SIZE, ws, cmd, w) } }"

section \<open>The session\<close>

text \<open>\<open>status\<close> is True for \<open>OPENED\<close>. \<open>websock\<close> is an empty object in a TCP session.\<close>

record session =
  sess_fd :: int
  sess_id :: int
  sess_type :: SockType
  websock :: websocket
  send_buffer :: buf
  dynamic_serializer :: dyn_ser
  status :: bool

text \<open>The constructor. The last three arguments are what the memory of the members it does not initialise holds.\<close>

definition new_session :: "SockType \<Rightarrow> int \<Rightarrow> int \<Rightarrow> frame_header \<Rightarrow> buf \<Rightarrow> buf \<Rightarrow> session" where
  "new_session socket_type fd sid hdr_mem send_mem scal_mem = \<lparr>sess_fd = fd, sess_id = sid, sess_type = socket_type,
     websock = new_websocket hdr_mem send_mem, send_buffer = [],
     dynamic_serializer = \<lparr>scal_data = scal_mem, scal_size = 0\<rparr>, status = True\<rparr>"

definition init_socket :: "'w reader \<Rightarrow> 'w writer \<Rightarrow> 'w \<Rightarrow> session \<Rightarrow> (int \<times> session \<times> 'w) option" where
  "init_socket rd wr w s =
     (if sess_type s = WEBSOCK then do {
        (r, ws, w) \<leftarrow> authenticate rd wr w (set_id (sess_fd s) (websock s));
        Some (if r < 0 then - 1 else 0, s\<lparr>websock := ws\<rparr>, w) }
      else Some (0, s, w))"

definition exit_socket :: "'w writer \<Rightarrow> 'w \<Rightarrow> session \<Rightarrow> (int \<times> session \<times> 'w) option" where
  "exit_socket wr w s =
     (if sess_type s = WEBSOCK then do {
        (r, ws, w) \<leftarrow> ws_exit wr w (websock s);
        Some (r, s\<lparr>websock := ws\<rparr>, w) }
      else Some (0, s, w))"

definition read_command :: "'w reader \<Rightarrow> 'w \<Rightarrow> session \<Rightarrow> command \<Rightarrow> (int \<times> session \<times> command \<times> 'w) option" where
  "read_command rd w s cmd =
     (if sess_type s = WEBSOCK then do {
        (r, ws, cmd, w) \<leftarrow> ws_read_command rd (sess_id s) w (websock s) cmd;
        Some (r, s\<lparr>websock := ws\<rparr>, cmd, w) }
      else do {
        (r, cmd, w) \<leftarrow> tcp_read_command rd (sess_id s) w cmd;
        Some (r, s, cmd, w) })"

definition session_write :: "'w writer \<Rightarrow> 'w \<Rightarrow> session \<Rightarrow> byte list \<Rightarrow> (int \<times> session \<times> 'w) option" where
  "session_write wr w s data =
     (if sess_type s = WEBSOCK then do {
        (r, ws, w) \<leftarrow> ws_send wr w (websock s) data;
        Some (r, s\<lparr>websock := ws\<rparr>, w) }
      else (let (r, w) = tcp_write wr w data in Some (r, s, w)))"

definition session_send ::
  "'w writer \<Rightarrow> u16 \<Rightarrow> u16 \<Rightarrow> arg list \<Rightarrow> session \<Rightarrow> 'w \<Rightarrow> (int \<times> session \<times> 'w) option" where
  "session_send wr class_id func_id args s w = do {
     (ser, bytes) \<leftarrow> build_command class_id func_id (dynamic_serializer s) (send_buffer s) args;
     (bytes_send, s, w) \<leftarrow> session_write wr w (s\<lparr>dynamic_serializer := ser, send_buffer := bytes\<rparr>) bytes;
     Some (bytes_send, if bytes_send = 0 then s\<lparr>status := False\<rparr> else s, w) }"

text \<open>\<open>exit_session\<close> only logs a failure of \<open>exit_socket\<close>; \<open>run\<close> returns 0.\<close>

definition finish_session :: "'w writer \<Rightarrow> 'w \<Rightarrow> session \<Rightarrow> (int \<times> session \<times> 'w) option" where
  "finish_session wr w s = do { (_, s, w) \<leftarrow> exit_socket wr w s; Some (0, s, w) }"

type_synonym 'w executor = "command \<Rightarrow> session \<Rightarrow> 'w \<Rightarrow> (int \<times> session \<times> 'w) option"

partial_function (option) run_loop ::
  "('w \<Rightarrow> bool) \<Rightarrow> 'w reader \<Rightarrow> 'w writer \<Rightarrow> 'w executor \<Rightarrow> command \<Rightarrow> 'w \<Rightarrow> session \<Rightarrow> (int \<times> session \<times> 'w) option"
  where
  "run_loop sig rd wr execute cmd0 w s =
     (if sig w then finish_session wr w s
      else do {
        (nb_bytes_rcvd, s, cmd, w) \<leftarrow> read_command rd w s cmd0;
        if sig w then finish_session wr w s
        else if nb_bytes_rcvd \<le> 0 then Some (nb_bytes_rcvd, s, w)
        else do {
          (_, s, w) \<leftarrow> execute cmd s w;
          if \<not> status s then finish_session wr w s
          else run_loop sig rd wr execute cmd0 w s } })"

definition session_run ::
  "('w \<Rightarrow> bool) \<Rightarrow> 'w reader \<Rightarrow> 'w writer \<Rightarrow> 'w executor \<Rightarrow> command \<Rightarrow> 'w \<Rightarrow> session \<Rightarrow> (int \<times> session \<times> 'w) option"
  where
  "session_run sig rd wr execute cmd0 w s = do {
     (r, s, w) \<leftarrow> init_socket rd wr w s;
     if r < 0 then Some (- 1, s, w) else run_loop sig rd wr execute cmd0 w s }"

section \<open>Dispatch on the type of the socket\<close>

text \<open>The default branch returns -1 with value-initialised results.\<close>

fun zero_scalar :: "scalar_ty \<Rightarrow> scalar" where
  "zero_scalar TU8 = U8 0" | "zero_scalar TI8 = I8 0"
| "zero_scalar TU16 = U16 0" | "zero_scalar TI16 = I16 0"
| "zero_scalar TU32 = U32 0" | "zero_scalar TI32 = I32 0"
| "zero_scalar TU64 = U64 0" | "zero_scalar TI64 = I64 0"
| "zero_scalar TFloat = Flt (Float32 0)" | "zero_scalar TDouble = Dbl (Float64 0)"
| "zero_scalar TCplxFloat = CplxFlt (Float32 0, Float32 0)"
| "zero_scalar TCplxDouble = CplxDbl (Float64 0, Float64 0)"
| "zero_scalar TBool = Bool False"

definition on_world :: "command \<Rightarrow> (int \<times> 'x \<times> 'w) option \<Rightarrow> (int \<times> 'x \<times> command \<times> 'w) option" where
  "on_world cmd = map_option (\<lambda>(r, x, w). (r, x, cmd, w))"

definition on_command :: "'w \<Rightarrow> (int \<times> 'x \<times> command) option \<Rightarrow> (int \<times> 'x \<times> command \<times> 'w) option" where
  "on_command w = map_option (\<lambda>(r, x, cmd). (r, x, cmd, w))"

definition abstract_ops ::
  "SockType \<Rightarrow> 'w reader \<Rightarrow> (nat \<Rightarrow> buf) \<Rightarrow> buf \<Rightarrow> (command \<times> 'w) session_ops" where
  "abstract_ops ty rd mem old = (
     if ty = TCP \<or> ty = UNIX then \<lparr>
       deser_op = (\<lambda>(cmd, w) ts. on_world cmd (tcp_deserialize rd mem w ts)),
       recv_array_op = (\<lambda>(cmd, w) t n. on_world cmd (tcp_recv_array rd (mem (t * n)) w t n)),
       recv_vector_op = (\<lambda>(cmd, w) t. on_world cmd (tcp_recv_vector rd (mem 8) old w t)),
       recv_string_op = (\<lambda>(cmd, w). on_world cmd (tcp_recv_string rd (mem 8) old w)) \<rparr>
     else if ty = WEBSOCK then \<lparr>
       deser_op = (\<lambda>(cmd, w) ts. on_command w (ws_deserialize cmd ts)),
       recv_array_op = (\<lambda>(cmd, w) t n. on_command w (ws_recv_array cmd t n)),
       recv_vector_op = (\<lambda>(cmd, w) t. on_command w (ws_recv_vector old cmd t)),
       recv_string_op = (\<lambda>(cmd, w). on_command w (ws_recv_string old cmd)) \<rparr>
     else \<lparr>
       deser_op = (\<lambda>s ts. Some (- 1, map zero_scalar ts, s)),
       recv_array_op = (\<lambda>s t n. Some (- 1, mem (t * n), s)),
       recv_vector_op = (\<lambda>s t. Some (- 1, old, s)),
       recv_string_op = (\<lambda>s. Some (- 1, old, s)) \<rparr>)"

definition abstract_send ::
  "'w writer \<Rightarrow> u16 \<Rightarrow> u16 \<Rightarrow> arg list \<Rightarrow> session \<Rightarrow> 'w \<Rightarrow> (int \<times> session \<times> 'w) option" where
  "abstract_send wr class_id func_id args s w =
     (if sess_type s \<in> {TCP, UNIX, WEBSOCK} then session_send wr class_id func_id args s w
      else Some (- 1, s, w))"

section \<open>Both sessions provide the interface of a reader\<close>

definition payload_ok :: "command \<Rightarrow> bool" where
  "payload_ok cmd \<longleftrightarrow> buf_pos (payload cmd) \<le> length (buf_data (payload cmd))"

lemma payload_advance:
  assumes "payload_ok cmd" and "unread (payload cmd) = xs @ rest" and "n = length xs"
  shows "payload_ok (cmd\<lparr>payload := (payload cmd)\<lparr>buf_pos := buf_pos (payload cmd) + n\<rparr>\<rparr>)"
    and "unread ((payload cmd)\<lparr>buf_pos := buf_pos (payload cmd) + n\<rparr>) = rest"
proof -
  have "length (unread (payload cmd)) = length xs + length rest" using assms(2) by simp
  then show "payload_ok (cmd\<lparr>payload := (payload cmd)\<lparr>buf_pos := buf_pos (payload cmd) + n\<rparr>\<rparr>)"
    using assms(1,3) by (simp add: payload_ok_def unread_def)
  show "unread ((payload cmd)\<lparr>buf_pos := buf_pos (payload cmd) + n\<rparr>) = rest"
    using assms(2,3) by (rule unread_advance)
qed

lemma ws_get_length_enc:
  assumes "payload_ok cmd" and "unread (payload cmd) = be32 n @ rest"
  shows "\<exists>cmd'. ws_get_length cmd = Some (unat n, cmd') \<and> payload_ok cmd' \<and> unread (payload cmd') = rest"
proof -
  have "buffer_deserialize [TU32] (payload cmd) = Some ([U32 n], (payload cmd)\<lparr>buf_pos := buf_pos (payload cmd) + 4\<rparr>)"
    using buffer_deserialize_enc [of "payload cmd" "[U32 n]" rest] assms(2) by simp
  then show ?thesis
    using payload_advance [OF assms, of 4] by (simp add: ws_get_length_def)
qed

lemma ws_load:
  assumes "payload_ok cmd" and "unread (payload cmd) = c @ rest" and "n = length c"
  shows "load_bytes (buf_data (payload cmd)) (buf_pos (payload cmd)) n = Some c"
  by (rule load_bytes_unread [OF assms(2,3)]) (use assms(1) in \<open>simp add: payload_ok_def\<close>)

interpretation ws: session_reader "ws_ops old" "\<lambda>cmd. unread (payload cmd)" payload_ok CMD_PAYLOAD_BUFFER_LEN
  for old
proof
  fix s :: command and vs rest
  assume s: "payload_ok s" "unread (payload s) = concat (map enc_scalar vs) @ rest" "vs \<noteq> []"
    "list_all valid_scalar vs"
  note payload_advance [OF s(1,2), of "required_buffer_size (map ty_of vs)"]
  with buffer_deserialize_enc [OF s(2-4)] s(3)
  show "\<exists>r s'. deser_op (ws_ops old) s (map ty_of vs) = Some (r, vs, s') \<and> 0 \<le> r \<and> payload_ok s' \<and>
      unread (payload s') = rest"
    by (simp add: ws_ops_def ws_deserialize_def)
next
  fix s :: command and a rest :: "byte list" and t n :: nat
  assume s: "payload_ok s" "unread (payload s) = a @ rest" "length a = t * n"
  note payload_advance [OF s(1,2), of "t * n"] ws_load [OF s(1,2), of "t * n"]
  with s(3) show "\<exists>r s'. recv_array_op (ws_ops old) s t n = Some (r, a, s') \<and> 0 \<le> r \<and> payload_ok s' \<and>
      unread (payload s') = rest"
    by (simp add: ws_ops_def ws_recv_array_def extract_array_def)
next
  fix s :: command and c rest :: "byte list" and t :: nat
  assume s: "payload_ok s" "unread (payload s) = enc_container c @ rest" "0 < t" "t dvd length c"
    "length c \<le> CMD_PAYLOAD_BUFFER_LEN"
  then have len: "length c < 2 ^ 32" by (simp add: buffer_lengths)
  then obtain s1 where s1: "ws_get_length s = Some (length c, s1)" "payload_ok s1"
      "unread (payload s1) = c @ rest"
    using ws_get_length_enc [OF s(1), of "of_nat (length c)" "c @ rest"] s(2)
    by (auto simp: enc_container_def unat_of_nat)
  note payload_advance [OF s1(2,3), of "length c"] ws_load [OF s1(2,3), of "length c"]
  with s s1(1) show "\<exists>r s'. recv_vector_op (ws_ops old) s t = Some (r, c, s') \<and> 0 \<le> r \<and> payload_ok s' \<and>
      unread (payload s') = rest"
    by (simp add: ws_ops_def ws_recv_vector_def to_vector_def)
next
  fix s :: command and c rest :: "byte list"
  assume s: "payload_ok s" "unread (payload s) = enc_container c @ rest" "length c \<le> CMD_PAYLOAD_BUFFER_LEN"
  then have len: "length c < 2 ^ 32" by (simp add: buffer_lengths)
  then obtain s1 where s1: "ws_get_length s = Some (length c, s1)" "payload_ok s1"
      "unread (payload s1) = c @ rest"
    using ws_get_length_enc [OF s(1), of "of_nat (length c)" "c @ rest"] s(2)
    by (auto simp: enc_container_def unat_of_nat)
  note payload_advance [OF s1(2,3), of "length c"] ws_load [OF s1(2,3), of "length c"]
  with s s1(1) show "\<exists>r s'. recv_string_op (ws_ops old) s = Some (r, c, s') \<and> 0 \<le> r \<and> payload_ok s' \<and>
      unread (payload s') = rest"
    by (simp add: ws_ops_def ws_recv_string_def to_string_def)
qed

interpretation tcp_packets: session_reader "tcp_ops packet_read (\<lambda>n. replicate n 0) old" concat "\<lambda>_. True"
  "2 ^ 31 - 1" for old
  by (rule tcp_session_reader [OF packet_read_stream]) simp

text \<open>The dispatch keeps the interface.\<close>

lemma abstract_tcp_reader:
  assumes "stream_source rd peer" and "\<And>n. length (mem n) = n" and "ty = TCP \<or> ty = UNIX"
  shows "session_reader (abstract_ops ty rd mem old) (\<lambda>(cmd, w). peer w) (\<lambda>_. True) (2 ^ 31 - 1)"
proof -
  note r = tcp_session_reader [OF assms(1,2), of old, THEN session_reader.deser_enc]
    tcp_session_reader [OF assms(1,2), of old, THEN session_reader.recv_array_enc]
    tcp_session_reader [OF assms(1,2), of old, THEN session_reader.recv_vector_enc]
    tcp_session_reader [OF assms(1,2), of old, THEN session_reader.recv_string_enc]
  show ?thesis
    by unfold_locales
      (use assms(3) r in \<open>fastforce simp: abstract_ops_def tcp_ops_def on_world_def\<close>)+
qed

lemma abstract_ws_reader:
  "session_reader (abstract_ops WEBSOCK rd mem old) (\<lambda>(cmd, w). unread (payload cmd))
    (\<lambda>(cmd, w). payload_ok cmd) CMD_PAYLOAD_BUFFER_LEN"
  by unfold_locales
    (use ws.deser_enc ws.recv_array_enc ws.recv_vector_enc ws.recv_string_enc in
      \<open>fastforce simp: abstract_ops_def ws_ops_def on_command_def\<close>)+

section \<open>From the serializer to the arguments of an operation\<close>

text \<open>
  What the client (or the other server) sent with \<open>build_command\<close> is what the operation is called with.
\<close>

lemma tcp_command_received:
  assumes "stream_source rd peer" and "\<And>n. length (mem n) = n"
    and "peer w = enc_header d p @ concat (map enc_arg args) @ rest"
    and "list_all2 (arg_matches (2 ^ 31 - 1)) ts args" and "length (concat (map enc_arg args)) < 2 ^ 31"
    and "command_ok cmd" and "buf_pos (header cmd) = HEADER_START"
  shows "\<exists>cmd' w1 w2. tcp_read_command rd sid w cmd = Some (8, cmd', w1) \<and>
    driver cmd' = unat d \<and> operation cmd' = int (unat p) \<and> session_id cmd' = sid \<and>
    parse_args (tcp_ops rd mem old) ts w1 = Some (Some args, w2) \<and> peer w2 = rest"
proof -
  obtain cmd' w1 where 1: "tcp_read_command rd sid w cmd = Some (8, cmd', w1)"
      "peer w1 = concat (map enc_arg args) @ rest" "driver cmd' = unat d" "operation cmd' = int (unat p)"
      "session_id cmd' = sid"
    using tcp_read_command_stream [OF assms(1,3), of cmd sid] assms(6,7) by (auto simp: command_ok_def)
  obtain w2 where "parse_args (tcp_ops rd mem old) ts w1 = Some (Some args, w2)" "peer w2 = rest"
    using session_reader.parse_args_enc [OF tcp_session_reader [OF assms(1,2), of old] assms(4)]
      assms(5) 1(2) by fastforce
  with 1 show ?thesis by auto
qed

text \<open>A frame of a command leaves its header in the command and its arguments at the beginning of the payload.\<close>

lemma ws_read_command_frame:
  assumes "stream_source rd peer" and "peer w = client_frame opc key (enc_header d p @ body) @ rest"
    and "opc \<in> {1, 2}" and "length key = 4" and "ws_bufs ws" and "\<not> connection_closed ws"
    and "8 + length body \<le> WEBSOCK_READ_STR_LEN - 56"
    and "client_head_size (8 + length body) + 8 + length body \<noteq> KOHERON_READ_STR_LEN"
    and "command_ok cmd" and "buf_pos (header cmd) = HEADER_START" and "buf_pos (payload cmd) = 0"
  obtains cmd1 ws' w' where "ws_read_command rd sid w ws cmd = Some (8, ws', cmd1, w')" and "peer w' = rest"
    and "ws_ok ws'" and "\<not> connection_closed ws'" and "payload_size (ws_header ws') = int (8 + length body)"
    and "driver cmd1 = unat d" and "operation cmd1 = int (unat p)" and "session_id cmd1 = sid"
    and "payload_ok cmd1" and "\<exists>junk. unread (payload cmd1) = body @ junk"
proof -
  let ?xs = "enc_header d p @ body"
  let ?cmd = "cmd\<lparr>header := (header cmd)\<lparr>buf_data := take 8 ?xs\<rparr>,
    payload := (payload cmd)\<lparr>buf_data := patch (buf_data (payload cmd)) 0 (drop 8 ?xs)\<rparr>\<rparr>"
  have len: "8 \<le> length ?xs" "length ?xs \<le> WEBSOCK_READ_STR_LEN - 56" using assms(7) by simp_all
  obtain ws' w' where 1: "peer w' = rest" "ws_ok ws'" "\<not> connection_closed ws'"
      "payload_size (ws_header ws') = int (length ?xs)"
      "receive_cmd rd w ws cmd = Some (int (length ?xs), ws', ?cmd, w')"
    using receive_cmd_frame [OF assms(1,2,5,6,9,3,4) len] assms(8) by (auto simp: ac_simps)
  let ?cmd1 = "?cmd\<lparr>header := (header ?cmd)\<lparr>buf_pos := 8\<rparr>, session_id := sid,
    cmd_session := Some sid, driver := unat d, operation := int (unat p)\<rparr>"
  have h: "decode_header sid ?cmd = Some ?cmd1"
    using decode_header_enc [of ?cmd d p sid] assms(10) by simp
  have rc: "ws_read_command rd sid w ws cmd = Some (8, ws', ?cmd1, w')"
    unfolding ws_read_command_def 1(5) using 1(3,4) h by (simp add: HEADER_SIZE_def)
  have "payload_ok ?cmd1" using assms(11) by (simp add: payload_ok_def)
  moreover have "unread (payload ?cmd1) = body @ drop (length body) (buf_data (payload cmd))"
    using assms(11) by (simp add: unread_def patch_def)
  ultimately show ?thesis using that [OF rc 1(1-3)] 1(4) by simp
qed

lemma ws_command_received:
  assumes "stream_source rd peer" and "peer w = client_frame opc key (enc_header d p @ concat (map enc_arg args)) @ rest"
    and "opc \<in> {1, 2}" and "length key = 4" and "ws_bufs ws" and "\<not> connection_closed ws"
    and "list_all2 (arg_matches CMD_PAYLOAD_BUFFER_LEN) ts args"
    and "8 + length (concat (map enc_arg args)) \<le> WEBSOCK_READ_STR_LEN - 56"
    and "client_head_size (8 + length (concat (map enc_arg args))) + 8 + length (concat (map enc_arg args))
      \<noteq> KOHERON_READ_STR_LEN"
    and "command_ok cmd" and "buf_pos (header cmd) = HEADER_START" and "buf_pos (payload cmd) = 0"
  shows "\<exists>cmd1 cmd2 ws' w'. ws_read_command rd sid w ws cmd = Some (8, ws', cmd1, w') \<and> peer w' = rest \<and>
    ws_ok ws' \<and> \<not> connection_closed ws' \<and>
    driver cmd1 = unat d \<and> operation cmd1 = int (unat p) \<and> session_id cmd1 = sid \<and>
    parse_args (ws_ops old) ts cmd1 = Some (Some args, cmd2)"
proof -
  obtain cmd1 ws' w' where 1: "ws_read_command rd sid w ws cmd = Some (8, ws', cmd1, w')" "peer w' = rest" "ws_ok ws'"
      "\<not> connection_closed ws'" "driver cmd1 = unat d" "operation cmd1 = int (unat p)" "session_id cmd1 = sid"
      "payload_ok cmd1" "\<exists>junk. unread (payload cmd1) = concat (map enc_arg args) @ junk"
    by (rule ws_read_command_frame [OF assms(1-6,8-12)])
  have len: "length (concat (map enc_arg args)) \<le> CMD_PAYLOAD_BUFFER_LEN" using assms(8) by (simp add: buffer_lengths)
  show ?thesis using ws.parse_args_enc [OF assms(7) len 1(8)] 1 by metis
qed

section \<open>The loop of a session\<close>

text \<open>
  A command as it is sent, and what the loop relies on of \<open>driver_manager.execute\<close>: it reads its arguments
  from the session, leaves the rest of the stream, and does not close the session. \<open>good\<close> is an invariant of
  the rest of the program, which the execution of a command may rely on and keeps.
\<close>

type_synonym call = "u16 \<times> u16 \<times> arg list"

fun enc_call :: "call \<Rightarrow> byte list" where
  "enc_call (d, p, args) = enc_header d p @ concat (map enc_arg args)"

definition executes :: "('w \<Rightarrow> bool) \<Rightarrow> 'w executor \<Rightarrow> ('w \<Rightarrow> byte list) \<Rightarrow> ('w \<Rightarrow> call list) \<Rightarrow> call set \<Rightarrow> bool" where
  "executes good execute peer done calls \<longleftrightarrow> (\<forall>cmd s w d p args rest.
     (d, p, args) \<in> calls \<longrightarrow> driver cmd = unat d \<longrightarrow> operation cmd = int (unat p) \<longrightarrow>
     peer w = concat (map enc_arg args) @ rest \<longrightarrow> status s \<longrightarrow> good w \<longrightarrow>
     (\<exists>r s' w'. execute cmd s w = Some (r, s', w') \<and> peer w' = rest \<and> good w' \<and>
        done w' = done w @ [(d, p, args)] \<and> status s' \<and> sess_type s' = sess_type s))"

lemma tcp_read_command_keeps:
  assumes "\<And>w n. f (snd (rd w n)) = f w" and "tcp_read_command rd sid w cmd = Some (r, cmd', w')"
  shows "f w' = f w"
  using assms(2) read_loop_keeps [of f rd, OF assms(1)]
  by (auto simp: tcp_read_command_def rcv_n_bytes_def Let_def bind_eq_Some_conv split: if_splits)

lemma run_loop_tcp:
  assumes rd: "stream_source rd peer" and eof: "\<And>w n. peer w = [] \<Longrightarrow> 0 < n \<Longrightarrow> fst (rd w n) = RdBytes []"
    and sig: "\<And>w. \<not> sig w" and ex: "executes good execute peer done calls"
    and keep: "\<And>w n. done (snd (rd w n)) = done w" "\<And>w n. good (snd (rd w n)) = good w"
    and cmd0: "command_ok cmd0" "buf_pos (header cmd0) = HEADER_START"
  shows "set cs \<subseteq> calls \<Longrightarrow> peer w = concat (map enc_call cs) \<Longrightarrow> status s \<Longrightarrow> sess_type s = TCP \<Longrightarrow>
    good w \<Longrightarrow> \<exists>s' w'. run_loop sig rd wr execute cmd0 w s = Some (0, s', w') \<and> done w' = done w @ cs \<and> good w'"
proof (induction cs arbitrary: w s)
  case Nil
  obtain w1 where w1: "rd w 8 = (RdBytes [], w1)" "done w1 = done w" "good w1"
    using eof [of w 8] Nil.prems(2,5) keep [of w 8] by (cases "rd w 8") auto
  then have "rcv_n_bytes rd w (buf_data (header cmd0)) HEADER_SIZE = Some (0, buf_data (header cmd0), w1)"
    by (simp add: rcv_n_bytes_def read_loop.simps HEADER_SIZE_def)
  then show ?case
    using sig Nil.prems(4) w1(2,3) by (simp add: run_loop.simps read_command_def tcp_read_command_def Let_def)
next
  case (Cons c cs)
  obtain d p args where c: "c = (d, p, args)" by (cases c)
  have w: "peer w = enc_header d p @ concat (map enc_arg args) @ concat (map enc_call cs)"
    using Cons.prems(2) c by simp
  obtain cmd1 w1 where 1: "tcp_read_command rd (sess_id s) w cmd0 = Some (8, cmd1, w1)"
      "peer w1 = concat (map enc_arg args) @ concat (map enc_call cs)" "driver cmd1 = unat d"
      "operation cmd1 = int (unat p)"
    using tcp_read_command_stream [OF rd w, of cmd0 "sess_id s"] cmd0 by (auto simp: command_ok_def)
  have d1: "done w1 = done w" "good w1"
    using tcp_read_command_keeps [OF keep(1) 1(1)] tcp_read_command_keeps [OF keep(2) 1(1)] Cons.prems(5) by simp_all
  obtain r s2 w2 where 2: "execute cmd1 s w1 = Some (r, s2, w2)" "peer w2 = concat (map enc_call cs)"
      "done w2 = done w1 @ [(d, p, args)]" "status s2" "sess_type s2 = TCP" "good w2"
    using ex [unfolded executes_def, rule_format, of d p args cmd1 w1 "concat (map enc_call cs)" s]
      1(2-4) Cons.prems(1,3,4) c d1(2) by auto
  obtain s' w' where 3: "run_loop sig rd wr execute cmd0 w2 s2 = Some (0, s', w')" "done w' = done w2 @ cs" "good w'"
    using Cons.IH [OF _ 2(2,4,5,6)] Cons.prems(1) by auto
  have "run_loop sig rd wr execute cmd0 w s = run_loop sig rd wr execute cmd0 w2 s2"
    using sig Cons.prems(4) 1(1) 2(1,4)
    by (subst run_loop.simps) (simp add: read_command_def)
  then show ?case using 3 2(3) d1 c by simp
qed

text \<open>A world of packets with a log of the executed calls, and an operation that takes arguments of types \<open>ts\<close>.\<close>

type_synonym logged = "byte list list \<times> call list"

definition logged_read :: "(byte list list \<times> 'a) reader" where
  "logged_read w n = (let (r, p) = packet_read (fst w) n in (r, p, snd w))"

definition logging_exec :: "arg_ty list \<Rightarrow> logged executor" where
  "logging_exec ts cmd s w = do {
     (args, p) \<leftarrow> parse_args (tcp_ops packet_read (\<lambda>n. replicate n 0) []) ts (fst w);
     case args of
       None \<Rightarrow> Some (- 1, s, p, snd w)
     | Some as \<Rightarrow> Some (0, s, p, snd w @ [(of_nat (driver cmd), word_of_int (operation cmd), as)]) }"

lemma logged_read_stream: "stream_source logged_read (\<lambda>w. concat (fst w))"
  unfolding stream_source_def
proof (intro allI impI)
  fix w :: "byte list list \<times> 'a" and n :: nat
  assume "0 < n" "concat (fst w) \<noteq> []"
  then obtain bs p where "packet_read (fst w) n = (RdBytes bs, p)" "bs \<noteq> []" "length bs \<le> n"
      "concat (fst w) = bs @ concat p"
    using packet_read_stream unfolding stream_source_def by metis
  then show "\<exists>bs w'. logged_read w n = (RdBytes bs, w') \<and> bs \<noteq> [] \<and> length bs \<le> n \<and>
      concat (fst w) = bs @ concat (fst w')"
    by (simp add: logged_read_def)
qed

lemma logged_read_eof: "concat (fst w) = [] \<Longrightarrow> fst (logged_read w n) = RdBytes []"
proof -
  have "concat p = [] \<Longrightarrow> packet_read p n = (RdBytes [], [])" for p
    by (induction p n rule: packet_read.induct) auto
  then show "concat (fst w) = [] \<Longrightarrow> fst (logged_read w n) = RdBytes []" by (simp add: logged_read_def)
qed

lemma logged_read_keeps: "snd (snd (logged_read w n)) = snd w"
  by (simp add: logged_read_def split: prod.split)

lemma logging_exec_executes:
  "executes (\<lambda>_. True) (logging_exec ts) (\<lambda>w. concat (fst w)) snd
    {(d, p, args). list_all2 (arg_matches (2 ^ 31 - 1)) ts args \<and> length (concat (map enc_arg args)) < 2 ^ 31}"
  unfolding executes_def
proof (intro allI impI, elim CollectE case_prodE conjE, goal_cases)
  case (1 cmd s w d p args rest)
  then obtain pk where "parse_args (tcp_ops packet_read (\<lambda>n. replicate n 0) []) ts (fst w) = Some (Some args, pk)"
      "concat pk = rest"
    using tcp_packets.parse_args_enc [of ts args "fst w" rest "[]"] by auto
  with 1 show ?case by (simp add: logging_exec_def)
qed

text \<open>A new session is one the properties below are about: it is open, and its WebSocket can begin the handshake.\<close>

lemma new_session_ready:
  assumes "length send_mem = WEBSOCK_SEND_BUF_LEN"
  shows "status (new_session ty fd sid hdr send_mem scal_mem)"
    and "ws_bufs (set_id fd (websock (new_session ty fd sid hdr send_mem scal_mem)))"
    and "\<not> connection_closed (set_id fd (websock (new_session ty fd sid hdr send_mem scal_mem)))"
  using new_websocket_bufs [OF assms] by (simp_all add: new_session_def new_websocket_def set_id_def)

section \<open>Properties\<close>

text \<open>
  End to end over TCP. The bytes \<open>build_command\<close> makes for a command, in whatever pieces they arrive,
  are read back by \<open>read_command\<close> and the generated parser of the operation as the same driver,
  operation and arguments, and the stream is left at the next command.
\<close>
lemma tcp_end_to_end:
  assumes "length (scal_data ser) = cap" and "runs_fit cap 0 args"
    and "stream_source rd peer" and "\<And>n. length (mem n) = n"
    and "map_option snd (build_command d p ser buffer args) = Some bytes" and "peer w = bytes @ rest"
    and "list_all2 (arg_matches (2 ^ 31 - 1)) ts args" and "length (concat (map enc_arg args)) < 2 ^ 31"
    and "command_ok cmd" and "buf_pos (header cmd) = HEADER_START"
  shows "\<exists>cmd' w1 w2. tcp_read_command rd sid w cmd = Some (8, cmd', w1) \<and>
    driver cmd' = unat d \<and> operation cmd' = int (unat p) \<and> session_id cmd' = sid \<and>
    parse_args (tcp_ops rd mem old) ts w1 = Some (Some args, w2) \<and> peer w2 = rest"
proof (rule tcp_command_received [OF assms(3,4) _ assms(7-10)])
  show "peer w = enc_header d p @ concat (map enc_arg args) @ rest"
    using build_command_eq [OF assms(1,2), of d p buffer] assms(5,6) by auto
qed

text \<open>
  C3: end to end over WebSocket: the same command in one masked frame. Frames of exactly
  \<open>KOHERON_READ_STR_LEN\<close> bytes are excluded, the server refuses them.
\<close>
theorem ws_end_to_end:
  assumes "length (scal_data ser) = cap" and "runs_fit cap 0 args"
    and "map_option snd (build_command d p ser buffer args) = Some bytes"
    and "stream_source rd peer" and "peer w = client_frame opc key bytes @ rest"
    and "opc \<in> {1, 2}" and "length key = 4" and "ws_bufs ws" and "\<not> connection_closed ws"
    and "list_all2 (arg_matches CMD_PAYLOAD_BUFFER_LEN) ts args"
    and "8 + length (concat (map enc_arg args)) \<le> WEBSOCK_READ_STR_LEN - 56"
    and "client_head_size (8 + length (concat (map enc_arg args))) + 8 + length (concat (map enc_arg args))
      \<noteq> KOHERON_READ_STR_LEN"
    and "command_ok cmd" and "buf_pos (header cmd) = HEADER_START" and "buf_pos (payload cmd) = 0"
  shows "\<exists>cmd1 cmd2 ws' w'. ws_read_command rd sid w ws cmd = Some (8, ws', cmd1, w') \<and> peer w' = rest \<and>
    ws_ok ws' \<and> \<not> connection_closed ws' \<and>
    driver cmd1 = unat d \<and> operation cmd1 = int (unat p) \<and> session_id cmd1 = sid \<and>
    parse_args (ws_ops old) ts cmd1 = Some (Some args, cmd2)"
proof (rule ws_command_received [OF assms(4) _ assms(6-15)])
  show "peer w = client_frame opc key (enc_header d p @ concat (map enc_arg args)) @ rest"
    using build_command_eq [OF assms(1,2), of d p buffer] assms(3,5) by auto
qed

theorem ws_end_to_end_witness:
  "\<exists>cmd1 cmd2 ws' w'. ws_read_command packet_read 7 [client_frame 2 [9, 8, 7, 6] [0, 0, 0, 0, 0, 2, 0, 5, 1, 2]]
      example_ws example_cmd = Some (8, ws', cmd1, w') \<and> concat w' = [] \<and>
    ws_ok ws' \<and> \<not> connection_closed ws' \<and>
    driver cmd1 = unat (2 :: u16) \<and> operation cmd1 = int (unat (5 :: u16)) \<and> session_id cmd1 = 7 \<and>
    parse_args (ws_ops []) [TArray 1 2] cmd1 = Some (Some [Array [1, 2]], cmd2)"
  by (rule ws_end_to_end [where ser = "\<lparr>scal_data = [0], scal_size = 0\<rparr>" and cap = 1 and buffer = "[]"
        and bytes = "[0, 0, 0, 0, 0, 2, 0, 5, 1, 2]" and opc = 2 and key = "[9, 8, 7, 6]",
        OF _ _ _ packet_read_stream])
    (simp_all add: build_command_unfold enc_header_def be16_def be32_def dump_scalar_pack_def dump_array_eq
      example_cmd_def new_command_def command_ok_def buffer_lengths client_head_size_def)

text \<open>
  C5: a TCP session executes every command its client sent, exactly once and in the order they were
  sent, keeps the invariant the operations rely on, and ends with 0 when the client closes the connection.
\<close>
theorem session_run_executes_all:
  assumes "stream_source rd peer" and "\<And>w n. peer w = [] \<Longrightarrow> 0 < n \<Longrightarrow> fst (rd w n) = RdBytes []"
    and "\<And>w. \<not> sig w" and "executes good execute peer done calls"
    and "\<And>w n. done (snd (rd w n)) = done w" and "\<And>w n. good (snd (rd w n)) = good w"
    and "command_ok cmd0" and "buf_pos (header cmd0) = HEADER_START"
    and "set cs \<subseteq> calls" and "peer w = concat (map enc_call cs)" and "status s" and "sess_type s = TCP" and "good w"
  shows "\<exists>s' w'. session_run sig rd wr execute cmd0 w s = Some (0, s', w') \<and> done w' = done w @ cs \<and> good w'"
proof -
  have "session_run sig rd wr execute cmd0 w s = run_loop sig rd wr execute cmd0 w s"
    using assms(12) by (simp add: session_run_def init_socket_def)
  moreover have "\<exists>s' w'. run_loop sig rd wr execute cmd0 w s = Some (0, s', w') \<and> done w' = done w @ cs \<and> good w'"
    by (rule run_loop_tcp [where peer = peer and calls = calls]; fact assms)
  ultimately show ?thesis by simp
qed

theorem session_run_executes_all_witness:
  "\<exists>s' w'. session_run (\<lambda>_. False) logged_read (\<lambda>w bs. (int (length bs), w)) (logging_exec [TScalar TU32]) example_cmd
      ([enc_call (2, 1, [Scalar (U32 5)]), enc_call (2, 1, [Scalar (U32 6)])], [])
      \<lparr>sess_fd = 3, sess_id = 0, sess_type = TCP, websock = example_ws, send_buffer = [],
        dynamic_serializer = \<lparr>scal_data = replicate 1024 0, scal_size = 0\<rparr>, status = True\<rparr> = Some (0, s', w') \<and>
    snd w' = [] @ [(2, 1, [Scalar (U32 5)]), (2, 1, [Scalar (U32 6)])]"
proof -
  have "\<exists>s' w'. session_run (\<lambda>_. False) logged_read (\<lambda>w bs. (int (length bs), w)) (logging_exec [TScalar TU32]) example_cmd
      ([enc_call (2, 1, [Scalar (U32 5)]), enc_call (2, 1, [Scalar (U32 6)])], [])
      \<lparr>sess_fd = 3, sess_id = 0, sess_type = TCP, websock = example_ws, send_buffer = [],
        dynamic_serializer = \<lparr>scal_data = replicate 1024 0, scal_size = 0\<rparr>, status = True\<rparr> = Some (0, s', w') \<and>
    snd w' = snd ([enc_call (2, 1, [Scalar (U32 5)]), enc_call (2, 1, [Scalar (U32 6)])], []) @
      [(2, 1, [Scalar (U32 5)]), (2, 1, [Scalar (U32 6)])] \<and> True"
    by (rule session_run_executes_all [where good = "\<lambda>_. True" and peer = "\<lambda>w. concat (fst w)" and
          calls = "{(d, p, args). list_all2 (arg_matches (2 ^ 31 - 1)) [TScalar TU32] args \<and>
            length (concat (map enc_arg args)) < 2 ^ 31}"];
      (rule logging_exec_executes | simp add: logged_read_stream logged_read_eof logged_read_keeps
        example_cmd_def new_command_def command_ok_def))
  then show ?thesis by simp
qed

text \<open>
  C28: a TCP command whose scalar arguments never arrive, because the client closed the connection, is not
  refused: \<open>deserialize\<close> returns 0, which is not an error for the generated code, with whatever the
  uninitialised buffer held.
\<close>
theorem tcp_truncated_arguments_accepted:
  assumes "ts \<noteq> []" and "rd w (required_buffer_size ts) = (RdBytes [], w')"
    and "deserialize_at 0 ts (mem (required_buffer_size ts)) = Some junk"
  shows "tcp_deserialize rd mem w ts = Some (0, junk, w')"
proof -
  have "0 < required_buffer_size ts" using assms(1) by (cases ts) simp_all
  then show ?thesis
    using assms by (simp add: tcp_deserialize_def Let_def rcv_n_bytes_def read_loop.simps)
qed

theorem tcp_truncated_arguments_accepted_witness:
  "tcp_deserialize packet_read (\<lambda>n. [0, 7]) [] [TU16] = Some (0, [U16 7], [])"
proof (rule tcp_truncated_arguments_accepted)
  have "extract_u16 [0, 7] 0 = Some 7"
    using extract_u16_be [of "[]" "7" "[]"] by (simp add: be16_def)
  then show "deserialize_at 0 [TU16] [0, 7] = Some [U16 7]" by simp
qed simp_all

text \<open>
  The length of a string in a WebSocket command is only compared with the size of the payload
  buffer: when it is larger than what is left behind the position, the copy reads past the buffer.
\<close>
lemma ws_string_overread:
  assumes "payload_ok cmd" and "unread (payload cmd) = be32 n @ rest" and "unat n \<le> CMD_PAYLOAD_BUFFER_LEN"
    and "length rest < unat n"
  shows "ws_recv_string old cmd = None"
proof -
  obtain cmd1 where 1: "ws_get_length cmd = Some (unat n, cmd1)" "payload_ok cmd1" "unread (payload cmd1) = rest"
    using ws_get_length_enc [OF assms(1,2)] by blast
  have "length (unread (payload cmd1)) = length (buf_data (payload cmd1)) - buf_pos (payload cmd1)"
    by (simp add: unread_def)
  then have "\<not> buf_pos (payload cmd1) + unat n \<le> length (buf_data (payload cmd1))"
    using 1(2,3) assms(4) by (simp add: payload_ok_def)
  then show ?thesis using 1(1) assms(3) by (simp add: ws_recv_string_def to_string_def load_bytes_def)
qed

end
