(* ===== verification/Listening_Channel.thy ===== *)
theory Listening_Channel
  imports Commands
begin

text \<open>
  \<^verbatim>\<open>src/server/core/listening_channel.cpp\<close>, the channels of \<^verbatim>\<open>server.hpp\<close> and their
  configuration in \<^verbatim>\<open>config.hpp\<close>: listening sockets, accepted connections, and the threads that
  serve them.

  The socket calls are parameters, a record \<open>'w net\<close> over the state \<open>'w\<close> of the system; a call returns a
  negative number when it fails. What the code relies on, that descriptors which are opened stay
  open until they are closed, is the locale \<open>socket_api\<close>. Log messages are left out.
\<close>

section \<open>Socket calls and configuration\<close>

datatype domain = AF_INET | AF_UNIX

datatype sockopt = SO_REUSEADDR | TCP_NODELAY | SO_SNDBUF nat | SO_RCVBUF nat

datatype address = Inet nat | Unix_path string

record 'w net =
  sys_socket :: "domain \<Rightarrow> 'w \<Rightarrow> int \<times> 'w"
  sys_setsockopt :: "int \<Rightarrow> sockopt \<Rightarrow> 'w \<Rightarrow> int \<times> 'w"
  sys_bind :: "int \<Rightarrow> address \<Rightarrow> 'w \<Rightarrow> int \<times> 'w"
  sys_listen :: "int \<Rightarrow> nat \<Rightarrow> 'w \<Rightarrow> int \<times> 'w"
  sys_accept :: "int \<Rightarrow> 'w \<Rightarrow> int \<times> 'w"
  sys_shutdown :: "int \<Rightarrow> 'w \<Rightarrow> int \<times> 'w"
  sys_close :: "int \<Rightarrow> 'w \<Rightarrow> 'w"
  sys_unlink :: "string \<Rightarrow> 'w \<Rightarrow> 'w"
  sys_sendmsg :: "int \<Rightarrow> byte list \<Rightarrow> string \<Rightarrow> 'w \<Rightarrow> int \<times> 'w"

definition tcp_nodelay :: bool where "tcp_nodelay = True"
definition tcp_port :: nat where "tcp_port = 36000"
definition tcp_worker_connections :: int where "tcp_worker_connections = 100"
definition websocket_port :: nat where "websocket_port = 8080"
definition websocket_worker_connections :: int where "websocket_worker_connections = 100"
definition unix_socket_path :: string where "unix_socket_path = ''/var/run/koheron-server.sock''"
definition unix_socket_worker_connections :: int where "unix_socket_worker_connections = 100"
definition NUMBER_OF_PENDING_CONNECTIONS :: nat where "NUMBER_OF_PENDING_CONNECTIONS = 10"
definition KOHERON_SIG_LEN :: nat where "KOHERON_SIG_LEN = 16384"

section \<open>Sockets\<close>

definition create_tcp_listening_socket :: "'w net \<Rightarrow> nat \<Rightarrow> 'w \<Rightarrow> int \<times> 'w" where
  "create_tcp_listening_socket N port w = (
     let (listen_fd, w) = sys_socket N AF_INET w
     in if listen_fd < 0 then (-1, w)
        else let (_, w) = sys_setsockopt N listen_fd SO_REUSEADDR w;
                 (_, w) = (if tcp_nodelay then sys_setsockopt N listen_fd TCP_NODELAY w else (0, w));
                 (r, w) = sys_bind N listen_fd (Inet port) w
          in if r < 0 then (-1, sys_close N listen_fd w) else (listen_fd, w))"

definition set_socket_options :: "'w net \<Rightarrow> int \<Rightarrow> 'w \<Rightarrow> int \<times> 'w" where
  "set_socket_options N comm_fd w = (
     let (r, w) = sys_setsockopt N comm_fd (SO_SNDBUF (4 * KOHERON_SIG_LEN)) w
     in if r < 0 then (-1, sys_close N comm_fd w)
        else let (r, w) = sys_setsockopt N comm_fd (SO_RCVBUF KOHERON_READ_STR_LEN) w
          in if r < 0 then (-1, sys_close N comm_fd w)
             else if tcp_nodelay then
               let (r, w) = sys_setsockopt N comm_fd TCP_NODELAY w
               in if r < 0 then (-1, sys_close N comm_fd w) else (0, w)
             else (0, w))"

definition open_tcp_communication :: "'w net \<Rightarrow> int \<Rightarrow> 'w \<Rightarrow> int \<times> 'w" where
  "open_tcp_communication N listen_fd w = (
     let (comm_fd, w) = sys_accept N listen_fd w
     in if comm_fd < 0 then (comm_fd, w)
        else let (r, w) = set_socket_options N comm_fd w in if r < 0 then (-1, w) else (comm_fd, w))"

text \<open>\<open>strcpy\<close> into the 108 bytes of \<open>sun_path\<close>: the path has to leave room for its terminator.\<close>

definition create_unix_listening_socket :: "'w net \<Rightarrow> string \<Rightarrow> 'w \<Rightarrow> (int \<times> 'w) option" where
  "create_unix_listening_socket N path w = (
     let (listen_fd, w) = sys_socket N AF_UNIX w
     in if listen_fd < 0 then Some (-1, w)
        else if length path \<ge> 108 then None
        else let (r, w) = sys_bind N listen_fd (Unix_path path) (sys_unlink N path w)
          in if r < 0 then Some (-1, sys_close N listen_fd w) else Some (listen_fd, w))"

section \<open>Channels\<close>

record channel =
  listen_fd :: int
  number_of_threads :: int
  is_ready :: bool
  opened_sessions :: int
  total_sessions :: int

definition new_channel :: channel where
  "new_channel = \<lparr>listen_fd = -1, number_of_threads = -1, is_ready = False, opened_sessions = 0, total_sessions = 0\<rparr>"

definition worker_connections :: "SockType \<Rightarrow> int" where
  "worker_connections ty = (case ty of TCP \<Rightarrow> tcp_worker_connections | WEBSOCK \<Rightarrow> websocket_worker_connections
     | UNIX \<Rightarrow> unix_socket_worker_connections | NONE \<Rightarrow> 0)"

text \<open>The specialisations of the template for the three kinds of sockets.\<close>

definition tcp_init :: "'w net \<Rightarrow> channel \<Rightarrow> 'w \<Rightarrow> (int \<times> channel \<times> 'w) option" where
  "tcp_init N ch w = (
     let ch = ch\<lparr>number_of_threads := 0\<rparr>
     in if tcp_worker_connections > 0 then do {
          (fd, w) \<leftarrow> Some (create_tcp_listening_socket N tcp_port w);
          Some (fd, ch\<lparr>listen_fd := fd\<rparr>, w) }
        else Some (0, ch, w))"

definition tcp_shutdown :: "'w net \<Rightarrow> channel \<Rightarrow> 'w \<Rightarrow> 'w" where
  "tcp_shutdown N ch w =
     (if tcp_worker_connections > 0
      then let (_, w) = sys_shutdown N (listen_fd ch) w in sys_close N (listen_fd ch) w else w)"

definition tcp_open_communication :: "'w net \<Rightarrow> channel \<Rightarrow> 'w \<Rightarrow> int \<times> 'w" where
  "tcp_open_communication N ch w = open_tcp_communication N (listen_fd ch) w"

definition tcp_is_max_threads :: "channel \<Rightarrow> bool" where
  "tcp_is_max_threads ch \<longleftrightarrow> number_of_threads ch \<ge> tcp_worker_connections"

definition websock_init :: "'w net \<Rightarrow> channel \<Rightarrow> 'w \<Rightarrow> (int \<times> channel \<times> 'w) option" where
  "websock_init N ch w = (
     let ch = ch\<lparr>number_of_threads := 0\<rparr>
     in if websocket_worker_connections > 0 then do {
          (fd, w) \<leftarrow> Some (create_tcp_listening_socket N websocket_port w);
          Some (fd, ch\<lparr>listen_fd := fd\<rparr>, w) }
        else Some (0, ch, w))"

definition websock_shutdown :: "'w net \<Rightarrow> channel \<Rightarrow> 'w \<Rightarrow> 'w" where
  "websock_shutdown N ch w =
     (if websocket_worker_connections > 0
      then let (_, w) = sys_shutdown N (listen_fd ch) w in sys_close N (listen_fd ch) w else w)"

definition websock_open_communication :: "'w net \<Rightarrow> channel \<Rightarrow> 'w \<Rightarrow> int \<times> 'w" where
  "websock_open_communication N ch w = open_tcp_communication N (listen_fd ch) w"

definition websock_is_max_threads :: "channel \<Rightarrow> bool" where
  "websock_is_max_threads ch \<longleftrightarrow> number_of_threads ch \<ge> websocket_worker_connections"

definition unix_init :: "'w net \<Rightarrow> channel \<Rightarrow> 'w \<Rightarrow> (int \<times> channel \<times> 'w) option" where
  "unix_init N ch w = (
     let ch = ch\<lparr>number_of_threads := 0\<rparr>
     in if unix_socket_worker_connections > 0 then do {
          (fd, w) \<leftarrow> create_unix_listening_socket N unix_socket_path w;
          Some (fd, ch\<lparr>listen_fd := fd\<rparr>, w) }
        else Some (0, ch, w))"

definition unix_shutdown :: "'w net \<Rightarrow> channel \<Rightarrow> 'w \<Rightarrow> 'w" where
  "unix_shutdown N ch w =
     (if unix_socket_worker_connections > 0
      then let (_, w) = sys_shutdown N (listen_fd ch) w in sys_close N (listen_fd ch) w else w)"

definition unix_open_communication :: "'w net \<Rightarrow> channel \<Rightarrow> 'w \<Rightarrow> int \<times> 'w" where
  "unix_open_communication N ch w = sys_accept N (listen_fd ch) w"

definition unix_is_max_threads :: "channel \<Rightarrow> bool" where
  "unix_is_max_threads ch \<longleftrightarrow> number_of_threads ch \<ge> unix_socket_worker_connections"

text \<open>The member of a type of socket; there is no specialisation for \<open>NONE\<close>.\<close>

definition channel_init :: "'w net \<Rightarrow> SockType \<Rightarrow> channel \<Rightarrow> 'w \<Rightarrow> (int \<times> channel \<times> 'w) option" where
  "channel_init N ty = (case ty of TCP \<Rightarrow> tcp_init N | WEBSOCK \<Rightarrow> websock_init N | UNIX \<Rightarrow> unix_init N | NONE \<Rightarrow> (\<lambda>ch w. None))"

definition channel_shutdown :: "'w net \<Rightarrow> SockType \<Rightarrow> channel \<Rightarrow> 'w \<Rightarrow> 'w" where
  "channel_shutdown N ty = (case ty of TCP \<Rightarrow> tcp_shutdown N | WEBSOCK \<Rightarrow> websock_shutdown N | UNIX \<Rightarrow> unix_shutdown N
     | NONE \<Rightarrow> (\<lambda>ch w. w))"

definition open_communication :: "'w net \<Rightarrow> SockType \<Rightarrow> channel \<Rightarrow> 'w \<Rightarrow> int \<times> 'w" where
  "open_communication N ty = (case ty of TCP \<Rightarrow> tcp_open_communication N | WEBSOCK \<Rightarrow> websock_open_communication N
     | UNIX \<Rightarrow> unix_open_communication N | NONE \<Rightarrow> (\<lambda>ch w. (- 1, w)))"

definition is_max_threads :: "SockType \<Rightarrow> channel \<Rightarrow> bool" where
  "is_max_threads ty = (case ty of TCP \<Rightarrow> tcp_is_max_threads | WEBSOCK \<Rightarrow> websock_is_max_threads | UNIX \<Rightarrow> unix_is_max_threads
     | NONE \<Rightarrow> (\<lambda>ch. False))"

lemmas channel_specials = channel_init_def channel_shutdown_def open_communication_def is_max_threads_def tcp_init_def websock_init_def
  unix_init_def tcp_shutdown_def websock_shutdown_def unix_shutdown_def tcp_open_communication_def websock_open_communication_def
  unix_open_communication_def tcp_is_max_threads_def websock_is_max_threads_def unix_is_max_threads_def

text \<open>\<open>start_worker\<close> returns whether the listening thread was created.\<close>

definition start_worker :: "'w net \<Rightarrow> channel \<Rightarrow> 'w \<Rightarrow> int \<times> bool \<times> 'w" where
  "start_worker N ch w =
     (if listen_fd ch \<ge> 0 then
        let (r, w) = sys_listen N (listen_fd ch) NUMBER_OF_PENDING_CONNECTIONS w
        in if r < 0 then (-1, False, w) else (0, True, w)
      else (0, False, w))"

text \<open>One round of the loop of \<open>comm_thread_call\<close>; \<open>Spawn fd\<close> is the creation of a session thread.\<close>

datatype comm_result = Break | Continue | Spawn int

definition comm_round ::
    "'w net \<Rightarrow> SockType \<Rightarrow> ('w \<Rightarrow> bool) \<Rightarrow> channel \<Rightarrow> 'w \<Rightarrow> comm_result \<times> 'w" where
  "comm_round N ty exit_comm ch w = (
     let (comm_fd, w) = open_communication N ty ch w
     in if exit_comm w then (Break, w)
        else if comm_fd < 0 then (Continue, w)
        else if is_max_threads ty ch then (Continue, w)
        else (Spawn comm_fd, w))"

text \<open>
  The listening thread, \<open>comm_thread_call\<close>. \<open>others\<close> is what the rest of the system does between two rounds, the thread of an accepted
  connection included; \<open>ch\<close> is the channel, whose counters the session threads change, and \<open>set_ready\<close> sets its \<open>is_ready\<close>.
\<close>

partial_function (option) comm_loop ::
    "'w net \<Rightarrow> SockType \<Rightarrow> ('w \<Rightarrow> bool) \<Rightarrow> (int option \<Rightarrow> 'w \<Rightarrow> 'w) \<Rightarrow> ('w \<Rightarrow> channel) \<Rightarrow> 'w \<Rightarrow> 'w option" where
  "comm_loop N ty exit_comm others ch w =
     (if exit_comm w then Some w
      else case comm_round N ty exit_comm (ch w) w of
          (Break, w) \<Rightarrow> Some w
        | (Continue, w) \<Rightarrow> comm_loop N ty exit_comm others ch (others None w)
        | (Spawn comm_fd, w) \<Rightarrow> comm_loop N ty exit_comm others ch (others (Some comm_fd) w))"

definition comm_thread_call ::
    "'w net \<Rightarrow> SockType \<Rightarrow> ('w \<Rightarrow> bool) \<Rightarrow> ('w \<Rightarrow> 'w) \<Rightarrow> (int option \<Rightarrow> 'w \<Rightarrow> 'w) \<Rightarrow> ('w \<Rightarrow> channel) \<Rightarrow> 'w \<Rightarrow> 'w option" where
  "comm_thread_call N ty exit_comm set_ready others ch w = comm_loop N ty exit_comm others ch (set_ready w)"

text \<open>\<open>join_worker\<close> waits for the listening thread; \<open>joins\<close> is what happens until it has ended, \<^term>\<open>None\<close> when it does not end.\<close>

definition join_worker :: "(SockType \<Rightarrow> 'w \<Rightarrow> 'w option) \<Rightarrow> SockType \<Rightarrow> channel \<Rightarrow> 'w \<Rightarrow> 'w option" where
  "join_worker joins ty ch w = (if listen_fd ch \<ge> 0 then joins ty w else Some w)"

text \<open>The bookkeeping at the start and at the end of \<open>session_thread_call\<close>.\<close>

definition session_thread_begin :: "channel \<Rightarrow> channel" where
  "session_thread_begin ch = ch\<lparr>number_of_threads := number_of_threads ch + 1,
     opened_sessions := opened_sessions ch + 1, total_sessions := total_sessions ch + 1\<rparr>"

definition session_thread_end :: "channel \<Rightarrow> channel" where
  "session_thread_end ch = ch\<lparr>number_of_threads := number_of_threads ch - 1,
     opened_sessions := opened_sessions ch - 1\<rparr>"

section \<open>Descriptors\<close>

text \<open>
  The contract of the socket calls: \<open>fds\<close> are the descriptors that are open. \<open>socket\<close> and \<open>accept\<close>
  fail, or open a descriptor that was not open; \<open>close\<close> closes; no other call changes them.
\<close>

locale socket_api =
  fixes N :: "'w net" and fds :: "'w \<Rightarrow> int set"
  assumes socket_fds: "sys_socket N af w = (r, w') \<Longrightarrow>
      fds w' = (if r < 0 then fds w else insert r (fds w)) \<and> (r \<ge> 0 \<longrightarrow> r \<notin> fds w)"
    and accept_fds: "sys_accept N fd w = (r, w') \<Longrightarrow>
      fds w' = (if r < 0 then fds w else insert r (fds w)) \<and> (r \<ge> 0 \<longrightarrow> r \<notin> fds w)"
    and close_fds: "fds (sys_close N fd w) = fds w - {fd}"
    and setsockopt_fds: "fds (snd (sys_setsockopt N fd opt w)) = fds w"
    and bind_fds: "fds (snd (sys_bind N fd a w)) = fds w"
    and listen_fds: "fds (snd (sys_listen N fd q w)) = fds w"
    and shutdown_fds: "fds (snd (sys_shutdown N fd w)) = fds w"
    and sendmsg_fds: "fds (snd (sys_sendmsg N fd dest msg w)) = fds w"
    and unlink_fds: "fds (sys_unlink N p w) = fds w"
begin

lemmas keeps_fds = setsockopt_fds bind_fds listen_fds shutdown_fds sendmsg_fds unlink_fds close_fds

lemma set_socket_options_fds:
  assumes "set_socket_options N fd w = (r, w')"
  shows "fds w' = (if r < 0 then fds w - {fd} else fds w)"
  using assms
    setsockopt_fds [of fd "SO_SNDBUF (4 * KOHERON_SIG_LEN)" w]
    setsockopt_fds [of fd "SO_RCVBUF KOHERON_READ_STR_LEN" "snd (sys_setsockopt N fd (SO_SNDBUF (4 * KOHERON_SIG_LEN)) w)"]
    setsockopt_fds [of fd TCP_NODELAY "snd (sys_setsockopt N fd (SO_RCVBUF KOHERON_READ_STR_LEN)
        (snd (sys_setsockopt N fd (SO_SNDBUF (4 * KOHERON_SIG_LEN)) w)))"]
  by (auto simp: set_socket_options_def Let_def tcp_nodelay_def close_fds split: prod.splits if_splits)

lemma open_communication_fds:
  assumes "open_communication N ty ch w = (r, w')"
  shows "fds w' = (if r < 0 then fds w else insert r (fds w))" and "r \<ge> 0 \<Longrightarrow> r \<notin> fds w"
proof -
  obtain fd w1 where acc: "sys_accept N (listen_fd ch) w = (fd, w1)" by force
  note a = accept_fds [OF acc]
  obtain q w2 where opts: "set_socket_options N fd w1 = (q, w2)" by force
  note so = set_socket_options_fds [OF opts]
  have "fds w' = (if r < 0 then fds w else insert r (fds w)) \<and> (r \<ge> 0 \<longrightarrow> r \<notin> fds w)"
    using assms acc a opts so
    by (cases ty) (auto simp: open_communication_def tcp_open_communication_def websock_open_communication_def unix_open_communication_def
        open_tcp_communication_def Let_def split: if_splits)
  then show "fds w' = (if r < 0 then fds w else insert r (fds w))" "r \<ge> 0 \<Longrightarrow> r \<notin> fds w" by simp_all
qed

lemma create_tcp_fds:
  assumes "create_tcp_listening_socket N port w = (r, w')"
  shows "fds w' = (if r < 0 then fds w else insert r (fds w))"
proof -
  obtain fd w1 where soc: "sys_socket N AF_INET w = (fd, w1)" by force
  obtain r2 w2 where 2: "sys_setsockopt N fd SO_REUSEADDR w1 = (r2, w2)" by force
  obtain r3 w3 where 3: "sys_setsockopt N fd TCP_NODELAY w2 = (r3, w3)" by force
  obtain r4 w4 where 4: "sys_bind N fd (Inet port) w3 = (r4, w4)" by force
  have "fds w4 = fds w1"
    using 2 3 4 setsockopt_fds [of fd SO_REUSEADDR w1] setsockopt_fds [of fd TCP_NODELAY w2] bind_fds [of fd "Inet port" w3]
    by simp
  then show ?thesis
    using assms soc socket_fds [OF soc] 2 3 4
    by (auto simp: create_tcp_listening_socket_def Let_def tcp_nodelay_def close_fds split: if_splits)
qed

lemma create_unix_fds:
  assumes "create_unix_listening_socket N path w = Some (r, w')"
  shows "fds w' = (if r < 0 then fds w else insert r (fds w))"
proof -
  obtain fd w1 where soc: "sys_socket N AF_UNIX w = (fd, w1)" by force
  obtain r4 w4 where 4: "sys_bind N fd (Unix_path path) (sys_unlink N path w1) = (r4, w4)" by force
  have "fds w4 = fds w1"
    using 4 bind_fds [of fd "Unix_path path" "sys_unlink N path w1"] unlink_fds [of path w1] by simp
  then show ?thesis
    using assms soc socket_fds [OF soc] 4
    by (auto simp: create_unix_listening_socket_def Let_def close_fds split: if_splits)
qed

end

text \<open>A table of open descriptors is such a system.\<close>

definition next_fd :: "int list \<Rightarrow> int" where
  "next_fd w = fold max w 2 + 1"

definition fd_table :: "int list net" where
  "fd_table = \<lparr>sys_socket = (\<lambda>af w. (next_fd w, next_fd w # w)), sys_setsockopt = (\<lambda>fd opt w. (0, w)),
     sys_bind = (\<lambda>fd a w. (0, w)), sys_listen = (\<lambda>fd q w. (0, w)),
     sys_accept = (\<lambda>fd w. if fd \<in> set w then (next_fd w, next_fd w # w) else (-1, w)),
     sys_shutdown = (\<lambda>fd w. (0, w)), sys_close = (\<lambda>fd w. filter (\<lambda>x. x \<noteq> fd) w),
     sys_unlink = (\<lambda>p w. w), sys_sendmsg = (\<lambda>fd dest msg w. (int (length msg), w))\<rparr>"

lemma fold_max_ge: "x \<le> fold max w x" "y \<in> set w \<Longrightarrow> y \<le> fold max w x" for x :: int
proof (induction w arbitrary: x)
  case (Cons a w)
  { case 1 show ?case using Cons.IH(1) [of "max a x"] by simp }
  { case 2 then show ?case using Cons.IH(1) [of "max a x"] Cons.IH(2) [of "max a x"] by auto }
qed simp_all

lemma next_fd_fresh: "next_fd w \<notin> set w" "0 \<le> next_fd w"
  using fold_max_ge(1) [of 2 w] fold_max_ge(2) [of "next_fd w" w 2] by (auto simp: next_fd_def)

interpretation table: socket_api fd_table set
proof unfold_locales
  fix af and w w' :: "int list" and r
  assume "sys_socket fd_table af w = (r, w')"
  then show "set w' = (if r < 0 then set w else insert r (set w)) \<and> (r \<ge> 0 \<longrightarrow> r \<notin> set w)"
    using next_fd_fresh [of w] by (auto simp: fd_table_def)
next
  fix fd and w w' :: "int list" and r
  assume "sys_accept fd_table fd w = (r, w')"
  then show "set w' = (if r < 0 then set w else insert r (set w)) \<and> (r \<ge> 0 \<longrightarrow> r \<notin> set w)"
    using next_fd_fresh [of w] by (auto simp: fd_table_def split: if_splits)
qed (auto simp: fd_table_def)

section \<open>Properties\<close>

lemma channel_descriptors_parts:
  assumes api: "socket_api N fds"
  shows "open_communication N ty ch w = (r, w') \<Longrightarrow> fds w' = (if r < 0 then fds w else insert r (fds w))"
    and "ty \<noteq> NONE \<Longrightarrow> \<exists>r ch' w'. channel_init N ty ch w = Some (r, ch', w') \<and>
      fds w' = (if r < 0 then fds w else insert r (fds w)) \<and> listen_fd ch' = r \<and> number_of_threads ch' = 0"
proof -
  show "open_communication N ty ch w = (r, w') \<Longrightarrow> fds w' = (if r < 0 then fds w else insert r (fds w))"
    by (rule socket_api.open_communication_fds(1) [OF api])
  assume ty: "ty \<noteq> NONE"
  have len: "length unix_socket_path < 108" by (simp add: unix_socket_path_def)
  have "\<exists>x. create_unix_listening_socket N unix_socket_path w = Some x"
    using len by (auto simp: create_unix_listening_socket_def Let_def split: prod.splits)
  then obtain r1 w1 where u: "create_unix_listening_socket N unix_socket_path w = Some (r1, w1)" by force
  have "\<exists>r ch' w'. channel_init N ty ch w = Some (r, ch', w') \<and>
      ((\<exists>p. create_tcp_listening_socket N p w = (r, w')) \<or> create_unix_listening_socket N unix_socket_path w = Some (r, w')) \<and>
      listen_fd ch' = r \<and> number_of_threads ch' = 0"
    using ty u by (cases ty) (auto simp: channel_specials worker_connections_def tcp_worker_connections_def
        websocket_worker_connections_def unix_socket_worker_connections_def Let_def split: prod.splits)
  then show "\<exists>r ch' w'. channel_init N ty ch w = Some (r, ch', w') \<and>
      fds w' = (if r < 0 then fds w else insert r (fds w)) \<and> listen_fd ch' = r \<and> number_of_threads ch' = 0"
    using socket_api.create_tcp_fds [OF api] socket_api.create_unix_fds [OF api] by blast
qed



text \<open>
  A connection that is refused because all workers are busy is dropped without being closed: its
  descriptor stays open and nobody holds it.
\<close>
lemma rejected_connection_leaks:
  assumes "socket_api N fds" and "open_communication N ty ch w = (fd, w1)" and "fd \<ge> 0"
    and "\<not> exit_comm w1" and "is_max_threads ty ch"
  shows "comm_round N ty exit_comm ch w = (Continue, w1) \<and> fds w1 = insert fd (fds w) \<and> fd \<notin> fds w"
  using assms socket_api.open_communication_fds [OF assms(1,2)] by (simp add: comm_round_def)

section \<open>The end of the listening thread\<close>

text \<open>One round as a step: the state in which the thread has ended, or the one in which the next round starts.\<close>

definition comm_next ::
    "'w net \<Rightarrow> SockType \<Rightarrow> ('w \<Rightarrow> bool) \<Rightarrow> (int option \<Rightarrow> 'w \<Rightarrow> 'w) \<Rightarrow> ('w \<Rightarrow> channel) \<Rightarrow> 'w \<Rightarrow> 'w" where
  "comm_next N ty exit_comm others ch w = (case comm_round N ty exit_comm (ch w) w of
       (Break, w) \<Rightarrow> w | (Continue, w) \<Rightarrow> others None w | (Spawn comm_fd, w) \<Rightarrow> others (Some comm_fd) w)"

lemma comm_loop_step:
  "comm_loop N ty exit_comm others ch (comm_next N ty exit_comm others ch w) \<noteq> None \<Longrightarrow> comm_loop N ty exit_comm others ch w \<noteq> None"
  by (subst comm_loop.simps) (auto simp: comm_next_def split: prod.splits comm_result.splits)

text \<open>
  The listening thread ends after the first round in which \<open>exit_comm\<close> is set. In the round that sees it, a connection that was
  just accepted is neither served nor closed.
\<close>

lemma comm_loop_ends:
  "exit_comm ((comm_next N ty exit_comm others ch ^^ n) w) \<Longrightarrow> comm_loop N ty exit_comm others ch w \<noteq> None"
proof (induction n arbitrary: w)
  case 0
  then show ?case by (subst comm_loop.simps) simp
next
  case (Suc n)
  show ?case by (rule comm_loop_step, rule Suc.IH) (use Suc.prems in \<open>simp add: funpow_swap1\<close>)
qed

lemma connection_at_shutdown_leaks:
  assumes "socket_api N fds" and "open_communication N ty (ch w) w = (fd, w1)" and "fd \<ge> 0" and "\<not> exit_comm w" and "exit_comm w1"
  shows "comm_loop N ty exit_comm others ch w = Some w1 \<and> fds w1 = insert fd (fds w) \<and> fd \<notin> fds w"
proof -
  have "comm_round N ty exit_comm (ch w) w = (Break, w1)" using assms(2,5) by (simp add: comm_round_def)
  then have "comm_loop N ty exit_comm others ch w = Some w1" using assms(4) by (subst comm_loop.simps) simp
  then show ?thesis using socket_api.open_communication_fds [OF assms(1,2)] assms(3) by simp
qed

section \<open>The limit of the workers\<close>

text \<open>
  A listener with the threads it has created: the listening thread tests the limit and creates a
  thread; the counter is incremented by that thread, when it runs.
\<close>

record listener =
  chan :: channel
  created :: nat
  serving :: nat

inductive listen_step :: "SockType \<Rightarrow> listener \<Rightarrow> listener \<Rightarrow> bool" for ty where
  spawn: "\<not> is_max_threads ty (chan l) \<Longrightarrow> listen_step ty l (l\<lparr>created := created l + 1\<rparr>)"
| enter: "created l > 0 \<Longrightarrow>
    listen_step ty l (l\<lparr>chan := session_thread_begin (chan l), created := created l - 1, serving := serving l + 1\<rparr>)"
| leave: "serving l > 0 \<Longrightarrow>
    listen_step ty l (l\<lparr>chan := session_thread_end (chan l), serving := serving l - 1\<rparr>)"

definition new_listener :: "channel \<Rightarrow> listener" where
  "new_listener ch = \<lparr>chan = ch\<lparr>number_of_threads := 0\<rparr>, created = 0, serving = 0\<rparr>"

text \<open>
  In every interleaving, \<open>number_of_threads\<close> is the number of threads that serve a session, and it
  returns to zero when they have all ended.
\<close>
lemma listener_counts:
  assumes "(listen_step ty)\<^sup>*\<^sup>* (new_listener new_channel) l"
  shows "number_of_threads (chan l) = int (serving l) \<and> opened_sessions (chan l) = int (serving l) \<and>
    opened_sessions (chan l) \<le> total_sessions (chan l)"
  using assms
proof (induction rule: rtranclp_induct)
  case base
  then show ?case by (simp add: new_listener_def new_channel_def)
next
  case (step l l')
  from step(2,3) show ?case
    by cases (auto simp: session_thread_begin_def session_thread_end_def of_nat_diff)
qed

text \<open>
  The limit of the workers is not enforced: the counter lags behind the threads that were created,
  so any number of sessions can be served at the same time.
\<close>
lemma thread_limit_not_enforced:
  assumes "ty \<noteq> NONE"
  shows "\<exists>l. (listen_step ty)\<^sup>*\<^sup>* (new_listener new_channel) l \<and> serving l = m"
proof -
  let ?l0 = "new_listener new_channel"
  have free: "\<not> is_max_threads ty (chan (?l0\<lparr>created := j\<rparr>))" for j
    using assms by (cases ty) (auto simp: channel_specials new_listener_def worker_connections_def
        tcp_worker_connections_def websocket_worker_connections_def unix_socket_worker_connections_def)
  have spawned: "(listen_step ty)\<^sup>*\<^sup>* ?l0 (?l0\<lparr>created := j\<rparr>)" for j
  proof (induction j)
    case 0
    then show ?case by (simp add: new_listener_def)
  next
    case (Suc j)
    have "listen_step ty (?l0\<lparr>created := j\<rparr>) (?l0\<lparr>created := Suc j\<rparr>)"
      using listen_step.spawn [OF free [of j]] by simp
    then show ?case using Suc by (rule rtranclp.rtrancl_into_rtrancl [rotated])
  qed
  have entered: "\<exists>ch. (listen_step ty)\<^sup>*\<^sup>* l \<lparr>chan = ch, created = 0, serving = serving l + created l\<rparr>" for l
  proof (induction "created l" arbitrary: l)
    case 0
    then have "\<lparr>chan = chan l, created = 0, serving = serving l + created l\<rparr> = l" by (cases l) simp
    then show ?case by (metis rtranclp.rtrancl_refl)
  next
    case (Suc j)
    let ?l = "l\<lparr>chan := session_thread_begin (chan l), created := created l - 1, serving := serving l + 1\<rparr>"
    have st: "listen_step ty l ?l" by (rule listen_step.enter) (use Suc in simp)
    have "j = created ?l" using Suc(2) by simp
    from Suc(1) [OF this] obtain ch where
      "(listen_step ty)\<^sup>*\<^sup>* ?l \<lparr>chan = ch, created = 0, serving = serving ?l + created ?l\<rparr>" by blast
    moreover have "serving ?l + created ?l = serving l + created l" using Suc(2) by simp
    ultimately show ?case using st by (metis converse_rtranclp_into_rtranclp)
  qed
  obtain ch where "(listen_step ty)\<^sup>*\<^sup>* (?l0\<lparr>created := m\<rparr>) \<lparr>chan = ch, created = 0, serving = m\<rparr>"
    using entered [of "?l0\<lparr>created := m\<rparr>"] by (auto simp: new_listener_def)
  then have "(listen_step ty)\<^sup>*\<^sup>* ?l0 \<lparr>chan = ch, created = 0, serving = m\<rparr>"
    using spawned [of m] by (rule rtranclp_trans [rotated])
  then show ?thesis by (intro exI [of _ "\<lparr>chan = ch, created = 0, serving = m\<rparr>"]) simp
qed

end
