(* ===== verification/Client.thy ===== *)
theory Client
  imports Client_Serdes Session Listening_Channel
begin

text \<open>
  The class \<open>KoheronClient\<close> of \<^verbatim>\<open>src/server/client/koheron-client.hpp\<close> (the branch for POSIX systems): connecting,
  sending a command, and receiving its answer. The last section puts the client and a session of the server on the two
  ends of a connection.

  \<open>rd\<close> and \<open>wr\<close> are the calls \<open>recv\<close> and \<open>send\<close> on the socket of the client, \<open>N\<close> and \<open>con\<close> the other socket
  calls. An exception is a value \<open>Inl e\<close>; \<^term>\<open>None\<close> is an assertion that failed, an access outside of a buffer, or an
  exception thrown out of the destructor, which ends the program. \<open>asserts\<close> tells whether the program was
  compiled with assertions.
\<close>

section \<open>The client\<close>

datatype client_error = Socket_error string | Length_error

record client =
  sockfd :: int
  last_class_id :: u16
  last_func_id :: u16
  rcv_buffer :: buf
  cl_send_buffer :: buf
  cl_serializer :: dyn_ser

type_synonym ('a, 'w) outcome = "(client_error + 'a) \<times> client \<times> 'w"

text \<open>\<open>fd\<close> and \<open>mem\<close> are what memory holds: \<open>sockfd\<close> and the scalar pack are not initialised.\<close>

definition new_client :: "int \<Rightarrow> buf \<Rightarrow> client" where
  "new_client fd mem = \<lparr>sockfd = fd, last_class_id = 0, last_func_id = 0, rcv_buffer = [], cl_send_buffer = [],
     cl_serializer = \<lparr>scal_data = mem, scal_size = 0\<rparr>\<rparr>"

definition client_close :: "'w net \<Rightarrow> client \<Rightarrow> 'w \<Rightarrow> (unit, 'w) outcome" where
  "client_close N c w =
     (if sockfd c > 0 then
        let (r, w) = sys_shutdown N (sockfd c) w
        in if r < 0 then (Inl (Socket_error ''Cannot shutdown socket''), c, sys_close N (sockfd c) w)
           else (Inr (), c, sys_close N (sockfd c) w)
      else (Inr (), c, w))"

definition client_destroy :: "'w net \<Rightarrow> client \<Rightarrow> 'w \<Rightarrow> 'w option" where
  "client_destroy N c w = (case client_close N c w of (Inl _, _, _) \<Rightarrow> None | (Inr _, _, w) \<Rightarrow> Some w)"

text \<open>\<open>close(); sockfd = -1; throw socket_error(msg)\<close>: an exception of \<open>close\<close> comes first.\<close>

definition client_abandon :: "'w net \<Rightarrow> string \<Rightarrow> client \<Rightarrow> 'w \<Rightarrow> (unit, 'w) outcome" where
  "client_abandon N msg c w = (case client_close N c w of
       (Inl e, c, w) \<Rightarrow> (Inl e, c, w)
     | (Inr _, c, w) \<Rightarrow> (Inl (Socket_error msg), c\<lparr>sockfd := - 1\<rparr>, w))"

definition client_connect :: "'w net \<Rightarrow> (int \<Rightarrow> 'w \<Rightarrow> int \<times> 'w) \<Rightarrow> client \<Rightarrow> 'w \<Rightarrow> (unit, 'w) outcome" where
  "client_connect N con c w = (
     let (fd, w) = sys_socket N AF_INET w; c = c\<lparr>sockfd := fd\<rparr>
     in if fd < 0 then (Inl (Socket_error ''Cannot open TCP socket''), c, w)
        else let (r, w) = con fd w
          in if r < 0 then client_abandon N ''Cannot connect to server'' c w
             else let (r, w) = sys_setsockopt N fd TCP_NODELAY w
               in if r < 0 then client_abandon N ''Cannot set TCP_NODELAY option'' c w else (Inr (), c, w))"

section \<open>Sending a command\<close>

text \<open>The number of bytes \<open>send\<close> took is not compared with the size of the buffer.\<close>

definition client_send :: "'w writer \<Rightarrow> client \<Rightarrow> 'w \<Rightarrow> (unit, 'w) outcome" where
  "client_send wr c w = (
     let (err, w) = wr w (cl_send_buffer c)
     in if err < 0 then (Inl (Socket_error ''Cannot send command to koheron-server''), c, w) else (Inr (), c, w))"

definition client_call :: "'w writer \<Rightarrow> u16 \<Rightarrow> u16 \<Rightarrow> arg list \<Rightarrow> client \<Rightarrow> 'w \<Rightarrow> (unit, 'w) outcome option" where
  "client_call wr class_id func_id args c w = do {
     let c = c\<lparr>last_class_id := class_id, last_func_id := func_id\<rparr>;
     (ser, bytes) \<leftarrow> serdes_build_command class_id func_id (cl_serializer c) (cl_send_buffer c) args;
     Some (client_send wr (c\<lparr>cl_serializer := ser, cl_send_buffer := bytes\<rparr>) w) }"

text \<open>\<open>call<id>\<close>: the identifiers of \<^verbatim>\<open>operations.hpp\<close> hold the driver in the upper and the operation in the lower half.\<close>

definition client_call_id :: "'w writer \<Rightarrow> u32 \<Rightarrow> arg list \<Rightarrow> client \<Rightarrow> 'w \<Rightarrow> (unit, 'w) outcome option" where
  "client_call_id wr op_id args c w = client_call wr (ucast (drop_bit 16 op_id)) (ucast (op_id AND 0xFFFF)) args c w"

section \<open>Receiving an answer\<close>

function recv_loop :: "'w reader \<Rightarrow> 'w \<Rightarrow> buf \<Rightarrow> nat \<Rightarrow> nat \<Rightarrow> ((client_error + unit) \<times> buf \<times> 'w) option" where
  "recv_loop rd w buffer n_bytes bytes_read =
     (if bytes_read < n_bytes then
        (case rd w (n_bytes - bytes_read) of
           (RdErr, w) \<Rightarrow> Some (Inl (Socket_error ''Cannot receive data''), buffer, w)
         | (RdBytes bs, w) \<Rightarrow>
             if bs = [] then Some (Inl (Socket_error ''Connection closed by koheron-server''), buffer, w)
             else do {
               buffer \<leftarrow> store_bytes buffer bytes_read bs;
               recv_loop rd w buffer n_bytes (bytes_read + length bs) })
      else Some (Inr (), buffer, w))"
  by pat_completeness auto
termination
  by (relation "measure (\<lambda>(rd, w, buffer, n_bytes, bytes_read). n_bytes - bytes_read)")
    (auto intro!: diff_less_mono2)

declare recv_loop.simps [simp del]

text \<open>A negative \<open>n_bytes\<close> becomes a size no vector can have.\<close>

definition recv_all :: "'w reader \<Rightarrow> int \<Rightarrow> client \<Rightarrow> 'w \<Rightarrow> (unit, 'w) outcome option" where
  "recv_all rd n_bytes c w =
     (if n_bytes < 0 then Some (Inl Length_error, c, w)
      else do {
        (r, b, w) \<leftarrow> recv_loop rd w (resize (nat n_bytes) (rcv_buffer c)) (nat n_bytes) 0;
        Some (r, c\<lparr>rcv_buffer := b\<rparr>, w) })"

definition cl_header_size :: nat where
  "cl_header_size = serdes_required_buffer_size [TU32, TU16, TU16]"

definition check_returned_header :: "bool \<Rightarrow> client \<Rightarrow> unit option" where
  "check_returned_header asserts c = do {
     t \<leftarrow> serdes_deserialize_at 0 [TU32, TU16, TU16] (rcv_buffer c);
     if asserts \<and> t \<noteq> [U32 0, U16 (last_class_id c), U16 (last_func_id c)] then None else Some () }"

text \<open>What follows when no exception was thrown.\<close>

definition then_ok ::
  "('a, 'w) outcome option \<Rightarrow> (client \<Rightarrow> 'w \<Rightarrow> ('b, 'w) outcome option) \<Rightarrow> ('b, 'w) outcome option" where
  "then_ok m f = do { (r, c, w) \<leftarrow> m; case r of Inl e \<Rightarrow> Some (Inl e, c, w) | Inr _ \<Rightarrow> f c w }"

text \<open>The types an operation may return, and the value the client gets; elements as the bytes in memory.\<close>

datatype ret_ty = Ret_scalar scalar_ty | Ret_array nat nat | Ret_vector nat | Ret_string | Ret_tuple "scalar_ty list"

datatype ret = Scalars "scalar list" | Elements "byte list"

definition get_payload_dynamic :: "bool \<Rightarrow> 'w reader \<Rightarrow> client \<Rightarrow> 'w \<Rightarrow> (unit, 'w) outcome option" where
  "get_payload_dynamic asserts rd c w =
     then_ok (recv_all rd (int (serdes_required_buffer_size [TU32, TU16, TU16, TU32])) c w) (\<lambda>c w. do {
       _ \<leftarrow> check_returned_header asserts c;
       n \<leftarrow> serdes_extract_u32 (drop cl_header_size (rcv_buffer c)) 0;
       recv_all rd (sint n) c w })"

fun command_deserializer :: "bool \<Rightarrow> 'w reader \<Rightarrow> ret_ty \<Rightarrow> client \<Rightarrow> 'w \<Rightarrow> (ret, 'w) outcome option" where
  "command_deserializer asserts rd (Ret_scalar t) c w =
     then_ok (recv_all rd (int (serdes_required_buffer_size [TU32, TU16, TU16, t])) c w) (\<lambda>c w. do {
       _ \<leftarrow> check_returned_header asserts c;
       vs \<leftarrow> serdes_deserialize_at 0 [t] (drop cl_header_size (rcv_buffer c));
       Some (Inr (Scalars vs), c, w) })"
| "command_deserializer asserts rd (Ret_array size_T N) c w =
     then_ok (recv_all rd (int (cl_header_size + size_T * N)) c w) (\<lambda>c w. do {
       _ \<leftarrow> check_returned_header asserts c;
       arr \<leftarrow> load_bytes (rcv_buffer c) cl_header_size (size_T * N);
       Some (Inr (Elements arr), c, w) })"
| "command_deserializer asserts rd (Ret_vector size_T) c w =
     then_ok (get_payload_dynamic asserts rd c w) (\<lambda>c w. do {
       vec \<leftarrow> load_bytes (rcv_buffer c) 0 (length (rcv_buffer c) div size_T * size_T);
       Some (Inr (Elements vec), c, w) })"
| "command_deserializer asserts rd Ret_string c w =
     then_ok (get_payload_dynamic asserts rd c w) (\<lambda>c w. do {
       str \<leftarrow> load_bytes (rcv_buffer c) 0 (length (rcv_buffer c));
       Some (Inr (Elements str), c, w) })"
| "command_deserializer asserts rd (Ret_tuple ts) c w =
     then_ok (recv_all rd (int (serdes_required_buffer_size ([TU32, TU16, TU16] @ ts))) c w) (\<lambda>c w. do {
       _ \<leftarrow> check_returned_header asserts c;
       vs \<leftarrow> serdes_deserialize_at 0 ts (drop cl_header_size (rcv_buffer c));
       Some (Inr (Scalars vs), c, w) })"

text \<open>Receiving into a container of the caller, whose contents were \<open>old\<close>.\<close>

definition command_deserializer_vector ::
  "bool \<Rightarrow> 'w reader \<Rightarrow> nat \<Rightarrow> buf \<Rightarrow> client \<Rightarrow> 'w \<Rightarrow> (buf, 'w) outcome option" where
  "command_deserializer_vector asserts rd size_T old c w =
     then_ok (get_payload_dynamic asserts rd c w) (\<lambda>c w. do {
       let n = length (rcv_buffer c) div size_T * size_T;
       bytes \<leftarrow> load_bytes (rcv_buffer c) 0 n;
       vec \<leftarrow> store_bytes (resize n old) 0 bytes;
       Some (Inr vec, c, w) })"

definition command_deserializer_string ::
  "bool \<Rightarrow> 'w reader \<Rightarrow> buf \<Rightarrow> client \<Rightarrow> 'w \<Rightarrow> (buf, 'w) outcome option" where
  "command_deserializer_string asserts rd old c w =
     then_ok (get_payload_dynamic asserts rd c w) (\<lambda>c w. do {
       str \<leftarrow> store_bytes (resize (length (rcv_buffer c)) old) 0 (rcv_buffer c);
       Some (Inr str, c, w) })"

section \<open>The answer from a stream\<close>

text \<open>The loop of the client is the loop of the server with exceptions for its error codes.\<close>

definition outcome_of :: "int \<Rightarrow> client_error + unit" where
  "outcome_of r = (if r < 0 then Inl (Socket_error ''Cannot receive data'')
     else if r = 0 then Inl (Socket_error ''Connection closed by koheron-server'') else Inr ())"

lemma recv_loop_read_loop:
  "recv_loop rd w b n k = (if k < n then map_option (\<lambda>(r, b, w). (outcome_of r, b, w)) (read_loop rd w b n k)
     else Some (Inr (), b, w))"
proof (induction rd w b n k rule: recv_loop.induct)
  case (1 rd w b n k)
  show ?case
  proof (cases "k < n")
    case False
    then show ?thesis by (simp add: recv_loop.simps)
  next
    case True
    obtain res w1 where r: "rd w (n - k) = (res, w1)" by force
    show ?thesis
    proof (cases res)
      case RdErr
      then show ?thesis using r True by (simp add: recv_loop.simps [of rd w] read_loop.simps [of rd w] outcome_of_def)
    next
      case (RdBytes bs)
      have IH: "recv_loop rd w1 b1 n (k + length bs) = (if k + length bs < n
          then map_option (\<lambda>(r, b, w). (outcome_of r, b, w)) (read_loop rd w1 b1 n (k + length bs))
          else Some (Inr (), b1, w1))" if "bs \<noteq> []" "store_bytes b k bs = Some b1" for b1
        using "1.IH" [OF True r [symmetric] RdBytes that] .
      show ?thesis
      proof (cases "store_bytes b k bs")
        case None
        then show ?thesis using r True RdBytes by (auto simp: recv_loop.simps [of rd w] read_loop.simps [of rd w] outcome_of_def)
      next
        case (Some b1)
        show ?thesis
          using r True RdBytes Some IH [OF _ Some] read_loop_done [of n "k + length bs" rd w1 b1]
          by (auto simp: recv_loop.simps [of rd w] read_loop.simps [of rd w b] outcome_of_def)
      qed
    qed
  qed
qed

lemma recv_all_stream:
  assumes "stream_source rd peer" and "peer w = xs @ rest" and "n = int (length xs)"
  shows "\<exists>w'. recv_all rd n c w = Some (Inr (), c\<lparr>rcv_buffer := xs\<rparr>, w') \<and> peer w' = rest"
proof -
  let ?b = "resize (length xs) (rcv_buffer c)"
  obtain w' where w': "read_loop rd w ?b (length xs) 0 = Some (int (length xs), xs, w')" "peer w' = rest"
    using read_loop_stream [of "length xs" ?b 0 peer w rd] assms(1,2) by (auto simp: patch_whole)
  show ?thesis
  proof (cases "xs = []")
    case True
    then show ?thesis using w' assms(2,3) by (auto simp: recv_all_def recv_loop_read_loop resize_def)
  next
    case False
    then show ?thesis using w' assms(3) by (simp add: recv_all_def recv_loop_read_loop outcome_of_def)
  qed
qed

lemma recv_all_safe:
  assumes "reader_ok rd"
  shows "\<exists>r c' w'. recv_all rd n c w = Some (r, c', w') \<and> (isl r \<or> length (rcv_buffer c') = nat n)"
proof (cases "0 < n")
  case True
  obtain r b' w' where "read_loop rd w (resize (nat n) (rcv_buffer c)) (nat n) 0 = Some (r, b', w')" "length b' = nat n"
    using read_loop_safe [of "nat n" "resize (nat n) (rcv_buffer c)" 0 rd w] assms by auto
  then show ?thesis using True by (auto simp: recv_all_def recv_loop_read_loop)
next
  case False
  then show ?thesis by (auto simp: recv_all_def recv_loop_read_loop resize_def)
qed

lemma cl_header_size_8 [simp]: "cl_header_size = 8"
  by (simp add: cl_header_size_def)

lemma then_ok_Inr [simp]: "then_ok (Some (Inr x, c, w)) f = f c w"
  by (simp add: then_ok_def)

text \<open>Whatever the server sends, what follows a read gets a buffer of the size it asked for.\<close>

lemma then_recv_all:
  assumes "reader_ok rd" and "\<And>c w. length (rcv_buffer c) = nat n \<Longrightarrow> f c w \<noteq> None"
  shows "then_ok (recv_all rd n c w) f \<noteq> None"
proof -
  obtain r c' w' where r: "recv_all rd n c w = Some (r, c', w')" "isl r \<or> length (rcv_buffer c') = nat n"
    using recv_all_safe [OF assms(1)] by blast
  then show ?thesis using assms(2) [of c' w'] by (cases r) (simp_all add: then_ok_def)
qed

lemma check_returned_header_off: "8 \<le> length (rcv_buffer c) \<Longrightarrow> check_returned_header False c = Some ()"
  using deserialize_at_None [of 0 "[TU32, TU16, TU16]" "rcv_buffer c"]
  by (auto simp: check_returned_header_def not_less simp del: deserialize_at.simps serdes_deserialize_at.simps)

lemma check_returned_header_enc:
  assumes "rcv_buffer c = enc_header d p @ xs" and "last_class_id c = d" and "last_func_id c = p"
  shows "check_returned_header asserts c = Some ()"
  using assms deserialize_at_enc [of "[U32 0, U16 d, U16 p]" "[]" xs]
  by (simp add: check_returned_header_def enc_header_def del: deserialize_at.simps serdes_deserialize_at.simps)

lemma get_payload_dynamic_stream:
  assumes "stream_source rd peer" and "peer w = enc_header d p @ enc_container x @ rest" and "length x < 2 ^ 31"
    and "last_class_id c = d" and "last_func_id c = p"
  shows "\<exists>w'. get_payload_dynamic asserts rd c w = Some (Inr (), c\<lparr>rcv_buffer := x\<rparr>, w') \<and> peer w' = rest"
proof -
  let ?n = "of_nat (length x) :: u32"
  have enc: "enc_container x = be32 ?n @ x" using assms(3) by (simp add: enc_container_def)
  obtain w1 where 1: "recv_all rd 12 c w = Some (Inr (), c\<lparr>rcv_buffer := enc_header d p @ be32 ?n\<rparr>, w1)"
      "peer w1 = x @ rest"
    using recv_all_stream [OF assms(1), of w "enc_header d p @ be32 ?n" "x @ rest" 12 c] assms(2) enc by auto
  have "sint ?n = int (length x)"
    using assms(3) sint_word_of_int_range [where 'a = 32, of "int (length x)"] by simp
  moreover obtain w2 where "recv_all rd (int (length x)) (c\<lparr>rcv_buffer := enc_header d p @ be32 ?n\<rparr>) w1
      = Some (Inr (), c\<lparr>rcv_buffer := x\<rparr>, w2)" "peer w2 = rest"
    using recv_all_stream [OF assms(1) 1(2) refl, of "c\<lparr>rcv_buffer := enc_header d p @ be32 ?n\<rparr>"] by auto
  moreover have "extract_u32 (be32 ?n) 0 = Some ?n" using extract_u32_be [of "[]" ?n "[]"] by simp
  moreover have "check_returned_header asserts (c\<lparr>rcv_buffer := enc_header d p @ be32 ?n\<rparr>) = Some ()"
    by (rule check_returned_header_enc [where d = d and p = p]) (use assms(4,5) in simp_all)
  ultimately show ?thesis using 1(1) by (simp add: get_payload_dynamic_def)
qed

text \<open>The value a client that expects a type gets for an answer of the server.\<close>

fun ret_matches :: "ret_ty \<Rightarrow> arg list \<Rightarrow> ret \<Rightarrow> bool" where
  "ret_matches (Ret_scalar t) as v \<longleftrightarrow> (\<exists>x. as = [Scalar x] \<and> v = Scalars [x] \<and> ty_of x = t \<and> valid_scalar x \<and> real_ty t)"
| "ret_matches (Ret_array t n) as v \<longleftrightarrow> (\<exists>a. as = [Array a] \<and> v = Elements a \<and> length a = t * n)"
| "ret_matches (Ret_vector t) as v \<longleftrightarrow> (\<exists>x. as = [Container x] \<and> v = Elements x \<and> 0 < t \<and> t dvd length x)"
| "ret_matches Ret_string as v \<longleftrightarrow> (\<exists>x. v = Elements x \<and> (as = [Container x] \<or>
     (\<exists>z. as = [CString z] \<and> 0 \<in> set z \<and> x = takeWhile (\<lambda>b. b \<noteq> 0) z)))"
| "ret_matches (Ret_tuple ts) as v \<longleftrightarrow> (\<exists>vs. as = map Scalar vs \<and> v = Scalars vs \<and> map ty_of vs = ts \<and>
     list_all valid_scalar vs \<and> list_all real_ty ts)"

lemma enc_scalars: "concat (map enc_arg (map Scalar vs)) = concat (map enc_scalar vs)"
  by (induction vs) simp_all

lemma length_sent_bytes: "length (sent_bytes c) \<le> length c"
  by (simp add: sent_bytes_def)

text \<open>An answer of fixed size: the header and its bytes.\<close>

lemma recv_fixed_stream:
  assumes "stream_source rd peer" and "peer w = enc_header d p @ xs @ rest" and "n = 8 + int (length xs)"
    and "last_class_id c = d" and "last_func_id c = p"
  shows "\<exists>w'. peer w' = rest \<and> then_ok (recv_all rd n c w) (\<lambda>c w. Option.bind (check_returned_header asserts c) (\<lambda>_. f c w))
    = f (c\<lparr>rcv_buffer := enc_header d p @ xs\<rparr>) w'"
proof -
  obtain w' where "recv_all rd n c w = Some (Inr (), c\<lparr>rcv_buffer := enc_header d p @ xs\<rparr>, w')" "peer w' = rest"
    using recv_all_stream [OF assms(1), of w "enc_header d p @ xs" rest n c] assms(2,3) by auto
  moreover have "check_returned_header asserts (c\<lparr>rcv_buffer := enc_header d p @ xs\<rparr>) = Some ()"
    by (rule check_returned_header_enc [where d = d and p = p]) (use assms(4,5) in simp_all)
  ultimately show ?thesis by auto
qed

lemma recv_scalars_stream:
  assumes "stream_source rd peer" and "peer w = enc_header d p @ concat (map enc_scalar vs) @ rest"
    and "map ty_of vs = ts" and "list_all valid_scalar vs" and "list_all real_ty ts"
    and "last_class_id c = d" and "last_func_id c = p"
  shows "\<exists>c' w'. then_ok (recv_all rd (8 + int (required_buffer_size ts)) c w) (\<lambda>c w. do {
       _ \<leftarrow> check_returned_header asserts c;
       vs \<leftarrow> serdes_deserialize_at 0 ts (drop 8 (rcv_buffer c));
       Some (Inr (Scalars vs), c, w) }) = Some (Inr (Scalars vs), c', w') \<and> peer w' = rest"
proof -
  let ?f = "\<lambda>c w. Option.bind (serdes_deserialize_at 0 ts (drop 8 (rcv_buffer c))) (\<lambda>vs. Some (Inr (Scalars vs), c, w))"
  from recv_fixed_stream [OF assms(1,2) _ assms(6,7), of "8 + int (required_buffer_size ts)" asserts ?f] assms(3)
  obtain w' where w': "peer w' = rest" "then_ok (recv_all rd (8 + int (required_buffer_size ts)) c w)
      (\<lambda>c w. Option.bind (check_returned_header asserts c) (\<lambda>_. ?f c w))
      = ?f (c\<lparr>rcv_buffer := enc_header d p @ concat (map enc_scalar vs)\<rparr>) w'" by auto
  have "deserialize_at 0 ts (concat (map enc_scalar vs)) = Some vs"
    using deserialize_at_enc [of vs "[]" "[]"] assms(3,4) by simp
  then have "?f (c\<lparr>rcv_buffer := enc_header d p @ concat (map enc_scalar vs)\<rparr>) w'
      = Some (Inr (Scalars vs), c\<lparr>rcv_buffer := enc_header d p @ concat (map enc_scalar vs)\<rparr>, w')"
    using assms(5) by simp
  then show ?thesis using w' by auto
qed

lemma command_deserializer_stream:
  assumes src: "stream_source rd peer" and w: "peer w = enc_header d p @ concat (map enc_arg as) @ rest"
    and ret: "ret_matches rty as v" and len: "\<And>x. v = Elements x \<Longrightarrow> length x < 2 ^ 31"
    and last: "last_class_id c = d" "last_func_id c = p"
  shows "\<exists>c' w'. command_deserializer asserts rd rty c w = Some (Inr v, c', w') \<and> peer w' = rest"
proof (cases rty)
  case (Ret_scalar t)
  with ret obtain x where x: "as = [Scalar x]" "v = Scalars [x]" "ty_of x = t" "valid_scalar x" "real_ty t" by auto
  have "peer w = enc_header d p @ concat (map enc_scalar [x]) @ rest" using w x(1) by simp
  from recv_scalars_stream [OF src this _ _ _ last, of "[t]" asserts]
  show ?thesis using Ret_scalar x by (simp del: serdes_deserialize_at.simps)
next
  case (Ret_array t n)
  with ret obtain a where a: "as = [Array a]" "v = Elements a" "length a = t * n" by auto
  let ?f = "\<lambda>c w. Option.bind (load_bytes (rcv_buffer c) 8 (t * n)) (\<lambda>arr. Some (Inr (Elements arr), c, w))"
  have "peer w = enc_header d p @ a @ rest" using w a(1) by simp
  from recv_fixed_stream [OF src this _ last, of "8 + int (t * n)" asserts ?f] a(3) obtain w' where w': "peer w' = rest"
    "then_ok (recv_all rd (8 + int (t * n)) c w) (\<lambda>c w. Option.bind (check_returned_header asserts c) (\<lambda>_. ?f c w))
      = ?f (c\<lparr>rcv_buffer := enc_header d p @ a\<rparr>) w'" by auto
  have "?f (c\<lparr>rcv_buffer := enc_header d p @ a\<rparr>) w' = Some (Inr v, c\<lparr>rcv_buffer := enc_header d p @ a\<rparr>, w')"
    using a by (simp add: load_bytes_def)
  then show ?thesis using Ret_array w' by auto
next
  case (Ret_vector t)
  with ret obtain x where x: "as = [Container x]" "v = Elements x" "0 < t" "t dvd length x" by auto
  then have "peer w = enc_header d p @ enc_container x @ rest" using w by simp
  from get_payload_dynamic_stream [OF src this len [OF x(2)] last, of asserts]
  show ?thesis using Ret_vector x by (auto simp: load_bytes_def)
next
  case Ret_string
  with ret obtain x where x: "v = Elements x" "concat (map enc_arg as) = enc_container x" by auto
  then have "peer w = enc_header d p @ enc_container x @ rest" using w by simp
  from get_payload_dynamic_stream [OF src this len [OF x(1)] last, of asserts]
  show ?thesis using Ret_string x(1) by (auto simp: load_bytes_def)
next
  case (Ret_tuple ts)
  with ret obtain vs where vs: "as = map Scalar vs" "v = Scalars vs" "map ty_of vs = ts" "list_all valid_scalar vs"
      "list_all real_ty ts" by auto
  have "peer w = enc_header d p @ concat (map enc_scalar vs) @ rest" using w vs(1) enc_scalars by simp
  from recv_scalars_stream [OF src this vs(3-5) last, of asserts]
  show ?thesis using Ret_tuple vs by simp
qed

section \<open>Any server\<close>

fun real_ret :: "ret_ty \<Rightarrow> bool" where
  "real_ret (Ret_scalar t) \<longleftrightarrow> real_ty t" | "real_ret (Ret_tuple ts) \<longleftrightarrow> list_all real_ty ts" | "real_ret _ \<longleftrightarrow> True"

lemma serdes_deserialize_at_defined:
  assumes "list_all real_ty ts" and "required_buffer_size ts \<le> length b"
  shows "serdes_deserialize_at 0 ts b \<noteq> None"
  using assms deserialize_at_None [of 0 ts b] by (auto simp del: deserialize_at.simps serdes_deserialize_at.simps)

lemma get_payload_dynamic_total:
  assumes "reader_ok rd" shows "get_payload_dynamic False rd c w \<noteq> None"
  unfolding get_payload_dynamic_def
proof (rule then_recv_all [OF assms])
  fix c :: client and w
  assume len: "length (rcv_buffer c) = nat (int (serdes_required_buffer_size [TU32, TU16, TU16, TU32]))"
  then obtain n where n: "extract_u32 (drop 8 (rcv_buffer c)) 0 = Some n"
    using extract_u32_None [of "drop 8 (rcv_buffer c)" 0] by (cases "extract_u32 (drop 8 (rcv_buffer c)) 0") auto
  have "recv_all rd (sint n) c w \<noteq> None" using recv_all_safe [OF assms, of "sint n" c w] by auto
  then show "Option.bind (check_returned_header False c) (\<lambda>_. Option.bind
      (serdes_extract_u32 (drop cl_header_size (rcv_buffer c)) 0) (\<lambda>n. recv_all rd (sint n) c w)) \<noteq> None"
    using len n by (simp add: check_returned_header_off)
qed

lemma then_payload_dynamic:
  assumes "reader_ok rd" and "\<And>c w. f c w \<noteq> None"
  shows "then_ok (get_payload_dynamic False rd c w) f \<noteq> None"
  using get_payload_dynamic_total [OF assms(1), of c w] assms(2) by (auto simp: then_ok_def split: sum.splits)

text \<open>What a call writes when the socket takes it whole.\<close>

lemma client_call_writes:
  assumes "length (scal_data (cl_serializer c)) = 1024" and "runs_fit 1024 0 args" and "list_all real_arg args"
    and "\<And>w bs. \<exists>w'. cwr w bs = (int (length bs), w') \<and> sent w' = sent w @ bs"
  shows "\<exists>c1 cw1. client_call cwr d p args c cw = Some (Inr (), c1, cw1) \<and>
    sent cw1 = sent cw @ enc_header d p @ concat (map enc_arg args) \<and> last_class_id c1 = d \<and> last_func_id c1 = p"
proof -
  let ?req = "enc_header d p @ concat (map enc_arg args)"
  obtain ser where "build_command d p (cl_serializer c) (cl_send_buffer c) args = Some (ser, ?req)"
    using build_command_eq [OF assms(1,2), of d p "cl_send_buffer c"] by auto
  moreover obtain cw1 where "cwr cw ?req = (int (length ?req), cw1)" "sent cw1 = sent cw @ ?req"
    using assms(4) by blast
  ultimately show ?thesis
    using assms(3) by (simp add: client_call_def client_send_def serdes_build_command_eq Let_def)
qed

section \<open>Properties\<close>

text \<open>
  C2: a remote call. The client's request reaches the server as the same driver, operation and arguments, in whatever pieces
  it arrives, and the value with which the operation answers through its session is the value the client's \<open>recv\<close>
  returns, for every type of result; both streams are left at the next message.
\<close>
theorem rpc_round_trip:
  assumes "length (scal_data (cl_serializer c)) = 1024" and "runs_fit 1024 0 args" and "list_all real_arg args"
    and "\<And>w bs. \<exists>w'. cwr w bs = (int (length bs), w') \<and> sent w' = sent w @ bs"
    and "stream_source srd inbox" and "\<And>n. length (mem n) = n"
    and "list_all2 (arg_matches (2 ^ 31 - 1)) ts args" and "length (concat (map enc_arg args)) < 2 ^ 31"
    and "command_ok cmd" and "buf_pos (header cmd) = HEADER_START"
    and "sess_type s = TCP" and "length (scal_data (dynamic_serializer s)) = cap" and "runs_fit cap 0 answer"
    and "\<And>w bs. \<exists>w'. swr w bs = (int (length bs), w') \<and> outbox w' = outbox w @ bs"
    and "stream_source crd reply" and "ret_matches rty answer v" and "\<And>x. v = Elements x \<Longrightarrow> length x < 2 ^ 31"
  shows "\<exists>request c1 cw1. client_call cwr d p args c cw = Some (Inr (), c1, cw1) \<and> sent cw1 = sent cw @ request \<and>
    (\<forall>sw. inbox sw = request @ rest \<longrightarrow> (\<exists>cmd' sw1 sw2 response r s' sw3.
      tcp_read_command srd sid sw cmd = Some (8, cmd', sw1) \<and> driver cmd' = unat d \<and> operation cmd' = int (unat p) \<and>
      parse_args (tcp_ops srd mem old) ts sw1 = Some (Some args, sw2) \<and> inbox sw2 = rest \<and>
      session_send swr d p answer s sw2 = Some (r, s', sw3) \<and> outbox sw3 = outbox sw2 @ response \<and>
      (\<forall>cw2. reply cw2 = response @ later \<longrightarrow> (\<exists>c2 cw3.
        command_deserializer asserts crd rty c1 cw2 = Some (Inr v, c2, cw3) \<and> reply cw3 = later))))"
proof -
  let ?req = "enc_header d p @ concat (map enc_arg args)" and ?resp = "enc_header d p @ concat (map enc_arg answer)"
  obtain c1 cw1 where call: "client_call cwr d p args c cw = Some (Inr (), c1, cw1)" "sent cw1 = sent cw @ ?req"
      "last_class_id c1 = d" "last_func_id c1 = p"
    using client_call_writes [where c = c and args = args, OF assms(1-4)] by blast
  have server: "\<exists>cmd' sw1 sw2 r s' sw3. tcp_read_command srd sid sw cmd = Some (8, cmd', sw1) \<and>
      driver cmd' = unat d \<and> operation cmd' = int (unat p) \<and>
      parse_args (tcp_ops srd mem old) ts sw1 = Some (Some args, sw2) \<and> inbox sw2 = rest \<and>
      session_send swr d p answer s sw2 = Some (r, s', sw3) \<and> outbox sw3 = outbox sw2 @ ?resp"
    if sw: "inbox sw = ?req @ rest" for sw
  proof -
    obtain cmd' sw1 sw2 where r: "tcp_read_command srd sid sw cmd = Some (8, cmd', sw1)" "driver cmd' = unat d"
        "operation cmd' = int (unat p)" "parse_args (tcp_ops srd mem old) ts sw1 = Some (Some args, sw2)" "inbox sw2 = rest"
      using tcp_command_received [OF assms(5,6) _ assms(7-10), of sw d p rest sid old] sw by auto
    obtain ser2 where "build_command d p (dynamic_serializer s) (send_buffer s) answer = Some (ser2, ?resp)"
      using build_command_eq [OF assms(12,13), of d p "send_buffer s"] by auto
    moreover obtain sw3 where "swr sw2 ?resp = (int (length ?resp), sw3)" "outbox sw3 = outbox sw2 @ ?resp"
      using assms(14) by blast
    ultimately show ?thesis
      using r assms(11) by (simp add: session_send_def session_write_def tcp_write_def Let_def)
  qed
  have client: "\<exists>c2 cw3. command_deserializer asserts crd rty c1 cw2
      = Some (Inr v, c2, cw3) \<and> reply cw3 = later" if "reply cw2 = ?resp @ later" for cw2
    using command_deserializer_stream [OF assms(15) _ assms(16,17), of cw2 d p later c1] that call(3,4) by simp
  have both: "\<exists>cmd' sw1 sw2 response r s' sw3.
      tcp_read_command srd sid sw cmd = Some (8, cmd', sw1) \<and> driver cmd' = unat d \<and> operation cmd' = int (unat p) \<and>
      parse_args (tcp_ops srd mem old) ts sw1 = Some (Some args, sw2) \<and> inbox sw2 = rest \<and>
      session_send swr d p answer s sw2 = Some (r, s', sw3) \<and> outbox sw3 = outbox sw2 @ response \<and>
      (\<forall>cw2. reply cw2 = response @ later \<longrightarrow> (\<exists>c2 cw3. command_deserializer asserts crd rty c1 cw2 = Some (Inr v, c2, cw3) \<and> reply cw3 = later))"
    if sw: "inbox sw = ?req @ rest" for sw
  proof -
    obtain cmd' sw1 sw2 r s' sw3 where x: "tcp_read_command srd sid sw cmd = Some (8, cmd', sw1)" "driver cmd' = unat d"
      "operation cmd' = int (unat p)" "parse_args (tcp_ops srd mem old) ts sw1 = Some (Some args, sw2)" "inbox sw2 = rest"
      "session_send swr d p answer s sw2 = Some (r, s', sw3)" "outbox sw3 = outbox sw2 @ ?resp"
      using server [OF sw] by (elim exE conjE)
    show ?thesis
      by (rule exI [of _ cmd'], rule exI [of _ sw1], rule exI [of _ sw2], rule exI [of _ ?resp], rule exI [of _ r],
          rule exI [of _ s'], rule exI [of _ sw3], intro conjI allI impI) (rule x client | assumption)+
  qed
  show ?thesis
    by (rule exI [of _ ?req], rule exI [of _ c1], rule exI [of _ cw1],
        intro conjI allI impI) (rule call(1,2) both | assumption)+
qed

theorem rpc_round_trip_witness:
  "\<exists>request c1 cw1. client_call accept_all 2 5 [Scalar (U32 7)] (new_client 0 (replicate 1024 0)) []
      = Some (Inr (), c1, cw1) \<and> cw1 = [] @ request \<and>
    (\<forall>sw :: byte list list \<times> byte list. concat (fst sw) = request @ [] \<longrightarrow> (\<exists>cmd' sw1 sw2 response r s' sw3.
      tcp_read_command logged_read 0 sw example_cmd = Some (8, cmd', sw1) \<and>
      driver cmd' = unat (2 :: u16) \<and> operation cmd' = int (unat (5 :: u16)) \<and>
      parse_args (tcp_ops logged_read (\<lambda>n. replicate n 0) []) [TScalar TU32] sw1
        = Some (Some [Scalar (U32 7)], sw2) \<and> concat (fst sw2) = [] \<and>
      session_send (\<lambda>w bs. (int (length bs), fst w, snd w @ bs)) 2 5 [Container [1, 2, 3, 4]]
        \<lparr>sess_fd = 3, sess_id = 0, sess_type = TCP, websock = example_ws, send_buffer = [],
         dynamic_serializer = \<lparr>scal_data = replicate 1024 0, scal_size = 0\<rparr>, status = True\<rparr> sw2 = Some (r, s', sw3) \<and>
      snd sw3 = snd sw2 @ response \<and>
      (\<forall>cw2. concat cw2 = response @ [9] \<longrightarrow> (\<exists>c2 cw3.
        command_deserializer True packet_read (Ret_vector 2) c1 cw2 = Some (Inr (Elements [1, 2, 3, 4]), c2, cw3) \<and>
        concat cw3 = [9]))))"
  by (rule rpc_round_trip [where cap = 1024, OF _ _ _ _ logged_read_stream _ _ _ _ _ _ _ _ _ packet_read_stream])
    (simp_all add: new_client_def accept_all_def example_cmd_def new_command_def command_ok_def)



text \<open>
  When the connection is refused, \<open>shutdown\<close> of the unconnected socket fails: the exception says so and not that
  the connection failed, \<open>sockfd\<close> still names the socket, which is closed, and the destructor closes it once more; when
  \<open>shutdown\<close> fails there too, the exception leaves the destructor and the program ends.
\<close>
lemma refused_connection:
  assumes "sys_socket N AF_INET w = (fd, w1)" and "0 < fd" and "con fd w1 = (r, w2)" and "r < 0"
    and "\<And>w. fst (sys_shutdown N fd w) < 0"
  shows "\<exists>c' w'. client_connect N con c w = (Inl (Socket_error ''Cannot shutdown socket''), c', w') \<and>
    sockfd c' = fd \<and> w' = sys_close N fd (snd (sys_shutdown N fd w2)) \<and> client_destroy N c' w' = None"
  using assms(1-4) assms(5) [of w2] assms(5) [of "sys_close N fd (snd (sys_shutdown N fd w2))"]
  by (simp add: client_connect_def client_abandon_def client_close_def client_destroy_def split_beta)

end
