(* ===== verification/Type_Dispatch.thy ===== *)
theory Type_Dispatch
  imports Client
begin

text \<open>
  What the compiler decides in \<^verbatim>\<open>src/server/core/serializer_deserializer.hpp\<close> and
  \<^verbatim>\<open>src/server/client/koheron-client.hpp\<close>: the type traits of the two serializers, the overloads of
  \<open>command_serializer\<close> and \<open>command_deserializer\<close> that they enable, and the static assertions of \<open>call\<close> and
  \<open>recv\<close>. The other theories start from an argument whose overload is known (the constructors of the type \<open>arg\<close>) and from a type
  that can be returned (\<open>ret_ty\<close>); here it is shown which C++ types these are.
\<close>

section \<open>Types\<close>

text \<open>
  A type for which there is a specialisation of \<open>append\<close> and \<open>extract\<close> is a \<open>Number\<close>; \<open>Other_scalar\<close> are \<open>char\<close>, enumerations and
  the integers without an exact width. \<open>Class\<close> is a class that is none of the others and has not the members of a container.
  A \<open>const\<close> array is an array of \<open>const\<close> elements.
\<close>

datatype cpp_type = Number scalar_ty | Other_scalar string | Pointer cpp_type | C_array cpp_type nat
  | Vec cpp_type | Basic_string | Std_array cpp_type nat | Std_tuple "cpp_type list" | Class string
  | Const cpp_type | Lref cpp_type | Rref cpp_type

definition char_type :: cpp_type where
  "char_type = Other_scalar ''char''"

text \<open>The types of objects, and those a parameter \<open>Tp0&&\<close> of a template is deduced to: an object type or a reference to one.\<close>

fun object_type :: "cpp_type \<Rightarrow> bool" where
  "object_type (Lref t) = False"
| "object_type (Rref t) = False"
| "object_type (Const (Const t)) = False"
| "object_type (Const (Lref t)) = False"
| "object_type (Const (Rref t)) = False"
| "object_type (Const (C_array e n)) = False"
| "object_type t = True"

fun forwarded_type :: "cpp_type \<Rightarrow> bool" where
  "forwarded_type (Lref t) = object_type t"
| "forwarded_type t = object_type t"

text \<open>\<open>std::remove_reference\<close>, \<open>std::remove_cv\<close>, \<open>std::decay\<close>, \<open>std::is_scalar\<close> and \<open>std::is_pointer\<close>.\<close>

fun remove_reference :: "cpp_type \<Rightarrow> cpp_type" where
  "remove_reference (Lref t) = t"
| "remove_reference (Rref t) = t"
| "remove_reference t = t"

fun remove_const :: "cpp_type \<Rightarrow> cpp_type" where
  "remove_const (Const t) = t"
| "remove_const t = t"

definition decay :: "cpp_type \<Rightarrow> cpp_type" where
  "decay t = (case remove_reference t of C_array e n \<Rightarrow> Pointer e | u \<Rightarrow> remove_const u)"

definition std_is_scalar :: "cpp_type \<Rightarrow> bool" where
  "std_is_scalar t = (case remove_const t of Number s \<Rightarrow> real_ty s | Other_scalar _ \<Rightarrow> True | Pointer _ \<Rightarrow> True | _ \<Rightarrow> False)"

definition std_is_pointer :: "cpp_type \<Rightarrow> bool" where
  "std_is_pointer t = (case remove_const t of Pointer _ \<Rightarrow> True | _ \<Rightarrow> False)"

section \<open>Traits\<close>

text \<open>\<open>std::vector<bool>\<close> has no \<open>data\<close>. A reference has no members.\<close>

definition is_container :: "cpp_type \<Rightarrow> bool" where
  "is_container t = (case remove_const t of Vec e \<Rightarrow> e \<noteq> Number TBool | Basic_string \<Rightarrow> True | _ \<Rightarrow> False)"

definition is_scalar_v :: "cpp_type \<Rightarrow> bool" where
  "is_scalar_v t \<longleftrightarrow> std_is_scalar (remove_reference t) \<and> \<not> std_is_pointer (remove_reference t)"

definition is_std_complex_v :: "cpp_type \<Rightarrow> bool" where
  "is_std_complex_v t = (case decay t of Number s \<Rightarrow> \<not> real_ty s | _ \<Rightarrow> False)"

definition is_std_tuple_v :: "cpp_type \<Rightarrow> bool" where
  "is_std_tuple_v t = (case t of Std_tuple _ \<Rightarrow> True | _ \<Rightarrow> False)"

definition is_std_array_v :: "cpp_type \<Rightarrow> bool" where
  "is_std_array_v t = (case t of Std_array _ _ \<Rightarrow> True | _ \<Rightarrow> False)"

definition is_c_string_v :: "cpp_type \<Rightarrow> bool" where
  "is_c_string_v t \<longleftrightarrow> decay t = Pointer char_type \<or> decay t = Pointer (Const char_type)"

text \<open>The traits of the client; it has none for complex numbers.\<close>

definition serdes_is_container :: "cpp_type \<Rightarrow> bool" where
  "serdes_is_container t = (case remove_const t of Vec e \<Rightarrow> e \<noteq> Number TBool | Basic_string \<Rightarrow> True | _ \<Rightarrow> False)"

definition serdes_is_scalar_v :: "cpp_type \<Rightarrow> bool" where
  "serdes_is_scalar_v t \<longleftrightarrow> std_is_scalar (remove_reference t) \<and> \<not> std_is_pointer (remove_reference t)"

definition serdes_is_std_tuple_v :: "cpp_type \<Rightarrow> bool" where
  "serdes_is_std_tuple_v t = (case t of Std_tuple _ \<Rightarrow> True | _ \<Rightarrow> False)"

definition serdes_is_std_array_v :: "cpp_type \<Rightarrow> bool" where
  "serdes_is_std_array_v t = (case t of Std_array _ _ \<Rightarrow> True | _ \<Rightarrow> False)"

definition serdes_is_c_string_v :: "cpp_type \<Rightarrow> bool" where
  "serdes_is_c_string_v t \<longleftrightarrow> remove_reference t = Pointer char_type \<or> remove_reference t = Pointer (Const char_type)"

section \<open>Serializing\<close>

text \<open>The overloads of \<open>command_serializer\<close> that are enabled for its first argument; there is one of each kind for the last argument too.\<close>

datatype overload = Scalar_overload | Container_overload | Array_overload | CString_overload

definition enabled :: "bool \<Rightarrow> 'o \<Rightarrow> 'o list" where
  "enabled b x = (if b then [x] else [])"

definition command_overloads :: "cpp_type \<Rightarrow> overload list" where
  "command_overloads t =
     enabled (is_scalar_v t \<or> is_std_complex_v t) Scalar_overload @
     enabled (is_container (remove_reference t)) Container_overload @
     enabled (is_std_array_v (decay t)) Array_overload @
     enabled (is_c_string_v t) CString_overload"

definition serdes_command_overloads :: "cpp_type \<Rightarrow> overload list" where
  "serdes_command_overloads t =
     enabled (serdes_is_scalar_v t) Scalar_overload @
     enabled (serdes_is_container (remove_reference t)) Container_overload @
     enabled (serdes_is_std_array_v (decay t)) Array_overload @
     enabled (serdes_is_c_string_v t) CString_overload"

text \<open>The specialisations of \<open>append\<close> and \<open>extract\<close>; a scalar is passed by value, so its type is decayed.\<close>

definition has_append :: "cpp_type \<Rightarrow> bool" where
  "has_append t = (case t of Number s \<Rightarrow> True | _ \<Rightarrow> False)"

definition serdes_has_append :: "cpp_type \<Rightarrow> bool" where
  "serdes_has_append t = (case t of Number s \<Rightarrow> real_ty s | _ \<Rightarrow> False)"

text \<open>An argument compiles when one overload is enabled, and its body compiles.\<close>

definition compiles_as :: "(cpp_type \<Rightarrow> bool) \<Rightarrow> cpp_type \<Rightarrow> overload list \<Rightarrow> bool" where
  "compiles_as spec t ovs = (case ovs of [ov] \<Rightarrow> ov = Scalar_overload \<longrightarrow> spec (decay t) | _ \<Rightarrow> False)"

definition serializable :: "cpp_type \<Rightarrow> bool" where
  "serializable t = compiles_as has_append t (command_overloads t)"

definition serdes_serializable :: "cpp_type \<Rightarrow> bool" where
  "serdes_serializable t = compiles_as serdes_has_append t (serdes_command_overloads t)"

lemma decay_tuple_size: "decay t = Std_tuple us \<Longrightarrow> size (Std_tuple us) \<le> size t"
  by (cases t; cases "remove_reference t") (auto simp: decay_def split: cpp_type.splits elim: remove_const.elims)

text \<open>
  \<open>build_command\<close> unpacks a tuple that is its only argument and calls itself with the elements of the copy, which are references.
  Without arguments there is nothing to serialize.
\<close>

function unpack_args :: "cpp_type list \<Rightarrow> cpp_type list" where
  "unpack_args ts = (case ts of [t] \<Rightarrow> (case decay t of Std_tuple us \<Rightarrow> unpack_args (map Lref us) | _ \<Rightarrow> ts) | _ \<Rightarrow> ts)"
  by pat_completeness auto

termination
proof (relation "measure (\<lambda>ts. case ts of [t] \<Rightarrow> size t | _ \<Rightarrow> 0)", goal_cases)
  case (2 ts t us x)
  have "(case map Lref us of [t] \<Rightarrow> size t | _ \<Rightarrow> 0) < size (Std_tuple us)"
    by (auto split: list.split)
  then show ?case using decay_tuple_size 2 by (fastforce split: list.splits)
qed simp

declare unpack_args.simps [simp del]

definition command_compiles :: "cpp_type list \<Rightarrow> bool" where
  "command_compiles ts \<longleftrightarrow> list_all serializable (unpack_args ts)"

definition serdes_command_compiles :: "cpp_type list \<Rightarrow> bool" where
  "serdes_command_compiles ts \<longleftrightarrow> list_all serdes_serializable (unpack_args ts)"

text \<open>\<open>call\<close> with the identifier of an operation, whose declared arguments are \<open>arg_types\<close>, and arguments deduced to \<open>ts\<close>.\<close>

definition call_compiles :: "cpp_type list \<Rightarrow> cpp_type list \<Rightarrow> bool" where
  "call_compiles arg_types ts \<longleftrightarrow> arg_types = map decay ts \<and> serdes_command_compiles ts"

section \<open>Receiving\<close>

text \<open>The overloads of \<open>command_deserializer\<close> without an argument, and those that fill a container.\<close>

datatype deserializer = Scalar_deserializer | Array_deserializer | Vector_deserializer | String_deserializer | Tuple_deserializer

definition deserializer_overloads :: "cpp_type list \<Rightarrow> deserializer list" where
  "deserializer_overloads ts = (case ts of
       [t] \<Rightarrow> enabled (std_is_scalar t) Scalar_deserializer @
         enabled (case t of Std_array _ _ \<Rightarrow> True | _ \<Rightarrow> False) Array_deserializer @
         enabled (case t of Vec _ \<Rightarrow> True | _ \<Rightarrow> False) Vector_deserializer @
         enabled (t = Basic_string) String_deserializer
     | _ \<Rightarrow> enabled (1 < length ts) Tuple_deserializer)"

definition filling_overloads :: "cpp_type \<Rightarrow> deserializer list" where
  "filling_overloads t =
     enabled (case t of Vec _ \<Rightarrow> True | _ \<Rightarrow> False) Vector_deserializer @ enabled (t = Basic_string) String_deserializer"

text \<open>Scalars and the elements of a tuple are read with \<open>extract\<close>.\<close>

definition deserializable :: "cpp_type list \<Rightarrow> bool" where
  "deserializable ts = (case deserializer_overloads ts of
       [d] \<Rightarrow> d = Scalar_deserializer \<or> d = Tuple_deserializer \<longrightarrow> list_all serdes_has_append ts
     | _ \<Rightarrow> False)"

text \<open>\<open>recv<id, Tp...>()\<close> for an operation that returns \<open>ret\<close>, and \<open>recv<id>(container)\<close>.\<close>

definition recv_compiles :: "cpp_type \<Rightarrow> cpp_type list \<Rightarrow> bool" where
  "recv_compiles ret ts \<longleftrightarrow>
     (length ts = 1 \<and> (ret = hd ts \<or> serdes_is_c_string_v ret \<and> hd ts = Basic_string) \<or> 1 < length ts \<and> ret = Std_tuple ts) \<and>
     deserializable ts"

definition recv_into_compiles :: "cpp_type \<Rightarrow> cpp_type \<Rightarrow> bool" where
  "recv_into_compiles ret t \<longleftrightarrow>
     (ret = decay t \<or> serdes_is_c_string_v ret \<and> decay t = Basic_string) \<and> length (filling_overloads t) = 1"

text \<open>The branch of the model of \<open>command_deserializer\<close> for a type; elements are numbers here, whose size is known.\<close>

fun ret_ty_of :: "cpp_type list \<Rightarrow> ret_ty option" where
  "ret_ty_of [Number s] = Some (Ret_scalar s)"
| "ret_ty_of [Std_array (Number s) n] = Some (Ret_array (size_of s) n)"
| "ret_ty_of [Vec (Number s)] = Some (Ret_vector (size_of s))"
| "ret_ty_of [Basic_string] = Some Ret_string"
| "ret_ty_of (Number s # Number s' # ts) = map_option (\<lambda>ss. Ret_tuple (s # s' # ss))
     (if list_all (\<lambda>t. case t of Number _ \<Rightarrow> True | _ \<Rightarrow> False) ts then Some (map (\<lambda>t. case t of Number u \<Rightarrow> u | _ \<Rightarrow> s) ts) else None)"
| "ret_ty_of _ = None"

section \<open>The assertions of the code\<close>

text \<open>The assertions that follow each trait in the two files.\<close>

lemma server_static_asserts:
  "is_container (Vec (Number TFloat))" "is_container Basic_string" "\<not> is_container (Number TFloat)"
  "is_scalar_v (Number TFloat)" "\<not> is_scalar_v (Pointer (Number TU32))" "\<not> is_scalar_v (Vec (Number TFloat))"
  "is_std_complex_v (Number TCplxFloat)" "is_std_complex_v (Lref (Number TCplxDouble))" "\<not> is_std_complex_v (Number TFloat)"
  "is_std_tuple_v (Std_tuple [Number TU32, Number TFloat])" "\<not> is_std_tuple_v (Number TU32)"
  "is_std_array_v (Std_array (Number TU32) 10)" "\<not> is_std_array_v (Vec (Number TU32))"
  "is_c_string_v (Pointer char_type)" "is_c_string_v (Pointer (Const char_type))" "\<not> is_c_string_v Basic_string"
  by (simp_all add: is_container_def is_scalar_v_def std_is_scalar_def std_is_pointer_def is_std_complex_v_def decay_def
      is_std_tuple_v_def is_std_array_v_def is_c_string_v_def)

lemma client_static_asserts:
  "serdes_is_container (Vec (Number TFloat))" "serdes_is_container Basic_string" "\<not> serdes_is_container (Number TFloat)"
  "serdes_is_scalar_v (Number TFloat)" "\<not> serdes_is_scalar_v (Pointer (Number TU32))" "\<not> serdes_is_scalar_v (Vec (Number TFloat))"
  "serdes_is_std_tuple_v (Std_tuple [Number TU32, Number TFloat])" "\<not> serdes_is_std_tuple_v (Number TU32)"
  "serdes_is_std_array_v (Std_array (Number TU32) 10)" "\<not> serdes_is_std_array_v (Vec (Number TU32))"
  "serdes_is_c_string_v (Pointer char_type)" "serdes_is_c_string_v (Pointer (Const char_type))" "\<not> serdes_is_c_string_v Basic_string"
  by (simp_all add: serdes_is_container_def serdes_is_scalar_v_def std_is_scalar_def std_is_pointer_def serdes_is_std_tuple_v_def
      serdes_is_std_array_v_def serdes_is_c_string_v_def)

section \<open>What can be sent\<close>

text \<open>The specification: the types of values that have a form on the wire, and the overload of each.\<close>

fun wire_overload :: "cpp_type \<Rightarrow> overload option" where
  "wire_overload (Number s) = Some Scalar_overload"
| "wire_overload (Vec e) = (if e = Number TBool then None else Some Container_overload)"
| "wire_overload Basic_string = Some Container_overload"
| "wire_overload (Std_array e n) = Some Array_overload"
| "wire_overload (Pointer e) = (if e = char_type \<or> e = Const char_type then Some CString_overload else None)"
| "wire_overload _ = None"

fun overload_of :: "arg \<Rightarrow> overload" where
  "overload_of (Scalar _) = Scalar_overload" | "overload_of (Container _) = Container_overload"
| "overload_of (Array _) = Array_overload" | "overload_of (CString _) = CString_overload"

lemmas trait_defs = is_scalar_v_def is_std_complex_v_def is_container_def is_std_array_v_def is_c_string_v_def std_is_scalar_def
  std_is_pointer_def decay_def enabled_def has_append_def char_type_def

lemmas serdes_trait_defs = serdes_is_scalar_v_def serdes_is_container_def serdes_is_std_array_v_def serdes_is_c_string_v_def
  std_is_scalar_def std_is_pointer_def decay_def enabled_def serdes_has_append_def char_type_def

text \<open>A reference to an object selects what the object selects.\<close>

lemma forwarded_cases:
  assumes "forwarded_type t" obtains u where "object_type u" and "remove_reference t = u" and "remove_reference u = u"
    and "decay t = decay u"
proof
  show "object_type (remove_reference t)" using assms by (cases t) auto
  then show "remove_reference (remove_reference t) = remove_reference t" by (cases "remove_reference t") auto
  then show "decay t = decay (remove_reference t)" by (simp add: decay_def)
qed simp

lemma overloads_forwarded:
  assumes "remove_reference t = u" and "remove_reference u = u" and "decay t = decay u"
  shows "command_overloads t = command_overloads u" and "serdes_command_overloads t = serdes_command_overloads u"
  using assms by (simp_all add: command_overloads_def serdes_command_overloads_def is_scalar_v_def is_std_complex_v_def is_c_string_v_def
      serdes_is_scalar_v_def serdes_is_c_string_v_def)

lemma object_cases:
  assumes "object_type t" obtains "t = remove_const t" | "t = Const (remove_const t)" "\<And>e n. remove_const t \<noteq> C_array e n"
proof (cases t)
  case (Const u)
  then show ?thesis using assms that(2) by (cases u) auto
qed (use that(1) in simp_all)

lemma overloads_object:
  assumes "object_type t"
  shows "command_overloads t = (case wire_overload (decay t) of None \<Rightarrow> enabled (is_scalar_v t) Scalar_overload | Some ov \<Rightarrow> [ov])"
  using assms
proof (cases t)
  case (Const u)
  then show ?thesis using assms
    by (cases u) (simp_all add: command_overloads_def trait_defs)
qed (simp_all add: command_overloads_def trait_defs split: cpp_type.split)

text \<open>What the client adds to the conditions of the server: no complex numbers, and a C string must be an unqualified pointer.\<close>

definition client_accepts :: "cpp_type \<Rightarrow> bool" where
  "client_accepts t = (case decay t of Number s \<Rightarrow> real_ty s | Pointer e \<Rightarrow> remove_reference t = Pointer e | _ \<Rightarrow> True)"

lemma serdes_overloads_object:
  assumes "object_type t"
  shows "serdes_command_overloads t = (case wire_overload (decay t) of None \<Rightarrow> enabled (is_scalar_v t) Scalar_overload
    | Some ov \<Rightarrow> enabled (client_accepts t) ov)"
  using assms
proof (cases t)
  case (Const u)
  then show ?thesis using assms
    by (cases u) (simp_all add: serdes_command_overloads_def serdes_trait_defs is_scalar_v_def client_accepts_def)
qed (simp_all add: serdes_command_overloads_def serdes_trait_defs is_scalar_v_def client_accepts_def)

lemma wire_scalar: "wire_overload t = Some Scalar_overload \<longleftrightarrow> has_append t"
  by (cases t) (simp_all add: has_append_def)

lemma serdes_has_append_iff: "serdes_has_append (decay t) \<longleftrightarrow> has_append (decay t) \<and> client_accepts t"
  by (cases "decay t") (simp_all add: serdes_has_append_def has_append_def client_accepts_def)

section \<open>What can be received\<close>

fun receivable :: "cpp_type \<Rightarrow> bool" where
  "receivable (Number s) = real_ty s"
| "receivable (Vec e) = True"
| "receivable Basic_string = True"
| "receivable (Std_array e n) = True"
| "receivable (Pointer e) \<longleftrightarrow> e = char_type \<or> e = Const char_type"
| "receivable (Std_tuple us) \<longleftrightarrow> 2 \<le> length us \<and> list_all serdes_has_append us"
| "receivable _ = False"

lemma deserializable_one:
  "deserializable [t] \<longleftrightarrow> (case t of Number s \<Rightarrow> real_ty s | Vec e \<Rightarrow> True | Basic_string \<Rightarrow> True | Std_array e n \<Rightarrow> True | _ \<Rightarrow> False)"
proof (cases t)
  case (Const u)
  then show ?thesis
    by (cases u) (simp_all add: deserializable_def deserializer_overloads_def enabled_def std_is_scalar_def serdes_has_append_def)
qed (simp_all add: deserializable_def deserializer_overloads_def enabled_def std_is_scalar_def serdes_has_append_def)

lemma deserializable_many: "1 < length ts \<Longrightarrow> deserializable ts \<longleftrightarrow> list_all serdes_has_append ts"
  by (cases ts; cases "tl ts") (simp_all add: deserializable_def deserializer_overloads_def enabled_def)

text \<open>The type of a result: \<open>ret_type\<close> is decayed.\<close>

definition value_type :: "cpp_type \<Rightarrow> bool" where
  "value_type t \<longleftrightarrow> object_type t \<and> decay t = t"

lemma object_reference: "object_type t \<Longrightarrow> remove_reference t = t"
  by (cases t) simp_all

lemma recv_compiles_receivable:
  assumes "value_type ret" shows "(\<exists>ts. recv_compiles ret ts) \<longleftrightarrow> receivable ret"
proof -
  have ref: "remove_reference ret = ret" using assms object_reference by (simp add: value_type_def)
  have many: "recv_compiles ret ts \<longleftrightarrow> ret = Std_tuple ts \<and> list_all serdes_has_append ts" if "1 < length ts" for ts
    using that deserializable_many [OF that] by (auto simp: recv_compiles_def)
  have one: "recv_compiles ret [t] \<longleftrightarrow> (ret = t \<or> serdes_is_c_string_v ret \<and> t = Basic_string) \<and> deserializable [t]" for t
    by (simp add: recv_compiles_def)
  have none: "\<not> recv_compiles ret []" by (simp add: recv_compiles_def)
  have "(\<exists>ts. recv_compiles ret ts) \<longleftrightarrow> (\<exists>t. recv_compiles ret [t]) \<or> (\<exists>ts. 1 < length ts \<and> recv_compiles ret ts)"
    using none by (metis One_nat_def length_0_conv length_Suc_conv less_one linorder_neqE_nat)
  also have "\<dots> \<longleftrightarrow> deserializable [ret] \<or> serdes_is_c_string_v ret \<or>
      (\<exists>ts. 1 < length ts \<and> ret = Std_tuple ts \<and> list_all serdes_has_append ts)"
    using many one deserializable_one [of Basic_string] by auto
  also have "\<dots> \<longleftrightarrow> receivable ret"
    using assms unfolding serdes_is_c_string_v_def ref deserializable_one value_type_def
    by (cases ret) (auto simp: decay_def Suc_le_eq numeral_2_eq_2)
  finally show ?thesis .
qed

lemma unpack_single: "\<forall>us. decay t \<noteq> Std_tuple us \<Longrightarrow> unpack_args [t] = [t]"
  by (subst unpack_args.simps) (simp split: cpp_type.split)

lemma unpack_many: "length ts \<noteq> 1 \<Longrightarrow> unpack_args ts = ts"
  by (subst unpack_args.simps) (auto split: list.split)

lemma unpack_tuple: "decay t = Std_tuple us \<Longrightarrow> unpack_args [t] = unpack_args (map Lref us)"
  by (subst unpack_args.simps) simp

lemma serializable_object:
  assumes "object_type t" shows "serializable t \<longleftrightarrow> wire_overload (decay t) \<noteq> None"
    and "serdes_serializable t \<longleftrightarrow> wire_overload (decay t) \<noteq> None \<and> client_accepts t"
proof -
  show "serializable t \<longleftrightarrow> wire_overload (decay t) \<noteq> None"
    using wire_scalar [of "decay t"]
    by (auto simp: serializable_def compiles_as_def overloads_object [OF assms] enabled_def split: option.splits)
  show "serdes_serializable t \<longleftrightarrow> wire_overload (decay t) \<noteq> None \<and> client_accepts t"
    using wire_scalar [of "decay t"]
    by (auto simp: serdes_serializable_def compiles_as_def serdes_overloads_object [OF assms] enabled_def serdes_has_append_iff
        split: option.splits)
qed

text \<open>The arguments of the model that the values of a type are; the elements of a container are numbers here.\<close>

definition elements_fit :: "cpp_type \<Rightarrow> (nat \<Rightarrow> bool) \<Rightarrow> bool" where
  "elements_fit e P = (case e of Number s \<Rightarrow> P (size_of s) | _ \<Rightarrow> False)"

definition passed_as :: "cpp_type \<Rightarrow> arg \<Rightarrow> bool" where
  "passed_as t a = (case a of
       Scalar v \<Rightarrow> t = Number (ty_of v)
     | Container c \<Rightarrow> (case t of Vec e \<Rightarrow> elements_fit e (\<lambda>size_T. size_T dvd length c) | Basic_string \<Rightarrow> True | _ \<Rightarrow> False)
     | Array c \<Rightarrow> (case t of Std_array e n \<Rightarrow> elements_fit e (\<lambda>size_T. length c = size_T * n) | _ \<Rightarrow> False)
     | CString z \<Rightarrow> (case t of Pointer e \<Rightarrow> 0 \<in> set z | _ \<Rightarrow> False))"

lemma passed_as_overload: "passed_as t a \<Longrightarrow> wire_overload t = Some ov \<Longrightarrow> overload_of a = ov"
  by (cases a) (auto simp: passed_as_def split: cpp_type.splits if_splits)

lemma passed_as_real: "passed_as (decay t) a \<Longrightarrow> client_accepts t \<Longrightarrow> real_arg a"
  by (cases a) (auto simp: passed_as_def client_accepts_def)

text \<open>Into a container of the caller, which has the type of the result or is a string for a C string.\<close>

lemma recv_into_container:
  "(\<exists>t. object_type t \<and> recv_into_compiles ret t) \<longleftrightarrow> (\<exists>e. ret = Vec e) \<or> ret = Basic_string \<or> serdes_is_c_string_v ret"
    (is "_ \<longleftrightarrow> ?kinds")
proof
  assume "\<exists>t. object_type t \<and> recv_into_compiles ret t"
  then obtain t where "object_type t" "recv_into_compiles ret t" by blast
  then show ?kinds by (cases t) (auto simp: recv_into_compiles_def filling_overloads_def enabled_def decay_def)
next
  have v: "recv_into_compiles (Vec e) (Vec e)" for e
    by (simp add: recv_into_compiles_def filling_overloads_def enabled_def decay_def)
  have s: "ret = Basic_string \<or> serdes_is_c_string_v ret \<Longrightarrow> recv_into_compiles ret Basic_string"
    by (auto simp: recv_into_compiles_def filling_overloads_def enabled_def decay_def)
  assume ?kinds
  then consider e where "ret = Vec e" | "ret = Basic_string \<or> serdes_is_c_string_v ret" by auto
  then show "\<exists>t. object_type t \<and> recv_into_compiles ret t"
  proof cases
    case 1
    show ?thesis by (rule exI [of _ ret]) (simp add: 1 v)
  next
    case 2
    show ?thesis by (rule exI [of _ Basic_string]) (simp add: s [OF 2])
  qed
qed

lemma deserializable_real:
  assumes "deserializable ts" and "ret_ty_of ts = Some rt" shows "real_ret rt"
proof (cases "1 < length ts")
  case True
  then obtain s s' us where ts: "ts = Number s # Number s' # us" using assms(2) by (cases ts rule: ret_ty_of.cases) auto
  then have all: "list_all serdes_has_append us" "real_ty s" "real_ty s'"
    using assms(1) deserializable_many [OF True] by (simp_all add: serdes_has_append_def)
  have rt: "rt = Ret_tuple (s # s' # map (\<lambda>t. case t of Number u \<Rightarrow> u | _ \<Rightarrow> s) us)"
    using assms(2) ts by (simp split: if_splits)
  have "list_all (\<lambda>t. real_ty (case t of Number u \<Rightarrow> u | _ \<Rightarrow> s)) us"
    using all(1) by (rule list.pred_mono_strong) (auto simp: serdes_has_append_def split: cpp_type.splits)
  then show ?thesis using all rt by (simp add: list.pred_map comp_def)
next
  case False
  then show ?thesis using assms by (cases ts rule: ret_ty_of.cases) (auto simp: deserializable_one)
qed

section \<open>Properties\<close>

text \<open>
  C19: for every type that a forwarded argument can have, each of the two serializers has at most one overload enabled, so no call
  is ambiguous. The server compiles exactly the types that have a form on the wire, and for a value of such a type it takes the branch
  of \<open>command_serializer\<close> that the model takes; the client takes the same branch and compiles the same types, except for complex
  numbers and for C strings that are not unqualified pointers (a string literal, a \<open>char * const\<close>).
\<close>
theorem serializer_overloads:
  assumes "forwarded_type t"
  shows "length (command_overloads t) \<le> 1 \<and> length (serdes_command_overloads t) \<le> 1 \<and>
    (serializable t \<longleftrightarrow> wire_overload (decay t) \<noteq> None) \<and>
    (serializable t \<and> passed_as (decay t) a \<longrightarrow> command_overloads t = [overload_of a]) \<and>
    (serdes_serializable t \<longleftrightarrow> serializable t \<and> \<not> is_std_complex_v t \<and>
      (is_c_string_v t \<longrightarrow> remove_reference t = Pointer char_type \<or> remove_reference t = Pointer (Const char_type))) \<and>
    (serdes_serializable t \<and> passed_as (decay t) a \<longrightarrow> serdes_command_overloads t = [overload_of a] \<and> real_arg a)"
proof -
  obtain u where u: "object_type u" "remove_reference t = u" "remove_reference u = u" "decay t = decay u"
    using forwarded_cases [OF assms] .
  note f = overloads_forwarded [OF u(2-4)]
  have d: "serializable t = serializable u" "serdes_serializable t = serdes_serializable u" "client_accepts t = client_accepts u"
    unfolding serializable_def serdes_serializable_def compiles_as_def client_accepts_def f u by simp_all
  have acc: "client_accepts t \<longleftrightarrow> \<not> is_std_complex_v t \<and>
      (is_c_string_v t \<longrightarrow> remove_reference t = Pointer char_type \<or> remove_reference t = Pointer (Const char_type))"
    if "wire_overload (decay t) \<noteq> None"
  proof -
    have "remove_reference t = Pointer e \<Longrightarrow> decay t = Pointer e" for e by (simp add: decay_def)
    then show ?thesis using that by (cases "decay t") (auto simp: client_accepts_def is_std_complex_v_def is_c_string_v_def split: if_splits)
  qed
  show ?thesis
    using serializable_object [OF u(1)] acc u(4) passed_as_overload [of "decay t" a] passed_as_real [of t a]
    unfolding f overloads_object [OF u(1)] serdes_overloads_object [OF u(1)] d
    by (auto simp: enabled_def split: option.splits)
qed

theorem serializer_overloads_witness:
  "serdes_serializable (Lref (Const (Vec (Number TFloat)))) \<and> serdes_command_overloads (Lref (Const (Vec (Number TFloat)))) = [Container_overload] \<and>
   serializable (Lref (C_array (Const char_type) 6)) \<and> \<not> serdes_serializable (Lref (C_array (Const char_type) 6))"
proof -
  let ?v = "Lref (Const (Vec (Number TFloat)))"
  have v: "forwarded_type ?v" "passed_as (decay ?v) (Container [])" "\<not> is_std_complex_v ?v" "\<not> is_c_string_v ?v"
    "wire_overload (decay ?v) \<noteq> None"
    by (simp_all add: decay_def is_std_complex_v_def is_c_string_v_def passed_as_def elements_fit_def)
  let ?c = "Lref (C_array (Const char_type) 6)"
  have c: "forwarded_type ?c" "is_c_string_v ?c" "wire_overload (decay ?c) \<noteq> None"
    by (simp_all add: decay_def is_c_string_v_def char_type_def)
  show ?thesis
    using serializer_overloads [OF v(1), of "Container []"] v(2-) serializer_overloads [OF c(1), of "CString [0]"] c(2-) by auto
qed

text \<open>
  C20: for every type an operation can return, the client has a way to receive it (a list of template arguments, of which one overload of
  \<open>command_deserializer\<close> compiles and which passes the assertion of \<open>recv\<close>) exactly when it is a real number, a container, an array,
  a C string or a tuple of at least two real numbers. The server can send all of these, except a vector of \<open>bool\<close>; what it can
  send and the client cannot receive are complex numbers and the other tuples.
\<close>
theorem results_receivable:
  assumes "value_type ret"
  shows "((\<exists>ts. recv_compiles ret ts) \<longleftrightarrow> receivable ret) \<and>
    (receivable ret \<and> ret \<noteq> Vec (Number TBool) \<longrightarrow> command_compiles [ret]) \<and>
    (command_compiles [ret] \<and> \<not> receivable ret \<longrightarrow> is_std_complex_v ret \<or> is_std_tuple_v ret) \<and>
    (recv_compiles ret ts \<and> ret_ty_of ts = Some rt \<longrightarrow> real_ret rt)"
proof -
  have r: "object_type ret" "decay ret = ret" using assms by (simp_all add: value_type_def)
  have tup: "command_compiles [Std_tuple us]" if "2 \<le> length us" "list_all serdes_has_append us" for us
  proof -
    have "unpack_args [Std_tuple us] = map Lref us"
      using that(1) unpack_tuple [of "Std_tuple us" us] unpack_many [of "map Lref us"] by (simp add: decay_def)
    moreover have "serializable (Lref t)" if "serdes_has_append t" for t
      using that by (cases t) (simp_all add: serdes_has_append_def serializable_def compiles_as_def command_overloads_def trait_defs)
    ultimately show ?thesis using that(2) by (auto simp: command_compiles_def list_all_iff)
  qed
  have single: "command_compiles [ret] \<longleftrightarrow> wire_overload ret \<noteq> None" if "\<forall>us. ret \<noteq> Std_tuple us"
    using that serializable_object(1) [OF r(1)] r(2) unpack_single [of ret] by (simp add: command_compiles_def)
  have "receivable ret \<and> ret \<noteq> Vec (Number TBool) \<longrightarrow> command_compiles [ret]"
    using single tup by (cases ret) auto
  moreover have "command_compiles [ret] \<and> \<not> receivable ret \<longrightarrow> is_std_complex_v ret \<or> is_std_tuple_v ret"
    using single r(2) by (cases ret) (auto simp: is_std_complex_v_def is_std_tuple_v_def)
  moreover have "recv_compiles ret ts \<and> ret_ty_of ts = Some rt \<longrightarrow> real_ret rt"
    using deserializable_real [of ts rt] by (auto simp: recv_compiles_def)
  ultimately show ?thesis using recv_compiles_receivable [OF assms] by blast
qed

theorem results_receivable_witness:
  "recv_compiles (Std_tuple [Number TU32, Number TFloat]) [Number TU32, Number TFloat] \<and>
   real_ret (Ret_tuple [TU32, TFloat]) \<and> \<not> (\<exists>ts. recv_compiles (Std_tuple [Number TU32]) ts)"
proof -
  let ?r = "Std_tuple [Number TU32, Number TFloat]"
  have r: "value_type ?r" "receivable ?r" by (simp_all add: value_type_def decay_def serdes_has_append_def)
  have "recv_compiles ?r [Number TU32, Number TFloat]"
    by (simp add: recv_compiles_def deserializable_many serdes_has_append_def)
  moreover have "value_type (Std_tuple [Number TU32])" "\<not> receivable (Std_tuple [Number TU32])" by (simp_all add: value_type_def decay_def)
  ultimately show ?thesis
    using results_receivable [OF r(1), of "[Number TU32, Number TFloat]" "Ret_tuple [TU32, TFloat]"]
      results_receivable [of "Std_tuple [Number TU32]"] by simp
qed

end
