(* ===== verification/Drivers_Manager.thy ===== *)
theory Drivers_Manager
  imports Commands
begin

text \<open>
  \<^verbatim>\<open>src/server/core/drivers_manager.hpp\<close> and \<^verbatim>\<open>drivers_manager.cpp\<close>: drivers are constructed when
  they are first needed, a driver whose constructor gets another driver starts it too, and commands
  are dispatched to the driver they name.

  Drivers are numbered from 0 here, driver \<open>k\<close> has the identifier \<open>k + 2\<close>; \<open>n\<close> is \<open>device_num - 2\<close>. The
  drivers of an instrument are generated code: \<open>deps k\<close>, the drivers that the constructor of driver
  \<open>k\<close> gets from the context, in order, is a parameter, as is what a driver does with a command. The
  mutex is recursive and held by \<open>alloc_driver\<close>, so allocations of different threads do not
  interleave. \<open>null_ref\<close> records that \<open>get\<close> dereferenced a driver that does not exist.
\<close>

section \<open>The container and the manager\<close>

record driver_container =
  c_started :: "bool list"
  c_starting :: "bool list"
  driver_tuple :: "bool list"

record driver_manager =
  container :: driver_container
  m_started :: "bool list"
  device_list :: "bool list"
  dm_exit_all :: bool
  null_ref :: bool
  built :: "nat list"

definition new_driver_container :: "nat \<Rightarrow> driver_container" where
  "new_driver_container n = \<lparr>c_started = replicate n False, c_starting = replicate n False,
     driver_tuple = replicate n False\<rparr>"

definition new_driver_manager :: "nat \<Rightarrow> driver_manager" where
  "new_driver_manager n = \<lparr>container = new_driver_container n, m_started = replicate n False,
     device_list = replicate n False, dm_exit_all = False, null_ref = False, built = []\<rparr>"

abbreviation set_container :: "(driver_container \<Rightarrow> driver_container) \<Rightarrow> driver_manager \<Rightarrow> driver_manager" where
  "set_container f s \<equiv> s\<lparr>container := f (container s)\<rparr>"

text \<open>\<open>DriverContainer::alloc\<close>; \<open>construct\<close> is the constructor of the driver, which may allocate others.\<close>

definition container_alloc ::
    "(driver_manager \<Rightarrow> driver_manager option) \<Rightarrow> nat \<Rightarrow> driver_manager \<Rightarrow> (int \<times> driver_manager) option" where
  "container_alloc construct k s =
     (if c_started (container s) ! k then Some (0, s)
      else if c_starting (container s) ! k then Some (-1, s)
      else do {
        s \<leftarrow> Some (set_container (\<lambda>c. c\<lparr>c_starting := (c_starting c)[k := True]\<rparr>) s);
        s \<leftarrow> construct s;
        s \<leftarrow> Some (set_container (\<lambda>c. c\<lparr>driver_tuple := (driver_tuple c)[k := True],
               c_starting := (c_starting c)[k := False], c_started := (c_started c)[k := True]\<rparr>)
               (s\<lparr>built := built s @ [k]\<rparr>));
        Some (0, s) })"

text \<open>
  \<open>DriverManager::alloc_driver\<close>, and the calls of \<open>DriverManager::get\<close> that a constructor makes. The
  nesting of constructors is bounded by the first argument; \<^term>\<open>None\<close> when the bound is too small.
\<close>

fun alloc_driver :: "(nat \<Rightarrow> nat list) \<Rightarrow> nat \<Rightarrow> nat \<Rightarrow> driver_manager \<Rightarrow> driver_manager option"
  and dm_gets :: "(nat \<Rightarrow> nat list) \<Rightarrow> nat \<Rightarrow> nat list \<Rightarrow> driver_manager \<Rightarrow> driver_manager option" where
  "alloc_driver deps 0 k s = None"
| "alloc_driver deps (Suc fuel) k s =
     (if m_started s ! k then Some s
      else do {
        (r, s) \<leftarrow> container_alloc (dm_gets deps fuel (deps k)) k s;
        if r < 0 then Some (s\<lparr>dm_exit_all := True\<rparr>)
        else Some (s\<lparr>device_list := (device_list s)[k := True], m_started := (m_started s)[k := True]\<rparr>) })"
| "dm_gets deps fuel [] s = Some s"
| "dm_gets deps fuel (d # ds) s = do {
     s \<leftarrow> (if \<not> m_started s ! d then alloc_driver deps fuel d s else Some s);
     dm_gets deps fuel ds (if driver_tuple (container s) ! d then s else s\<lparr>null_ref := True\<rparr>) }"

text \<open>\<open>start_impl\<close> over the identifiers that are left: the last one is not compared.\<close>

fun start_impl ::
    "(nat \<Rightarrow> nat list) \<Rightarrow> nat \<Rightarrow> nat list \<Rightarrow> nat \<Rightarrow> driver_manager \<Rightarrow> driver_manager option" where
  "start_impl deps fuel [] drv s = None"
| "start_impl deps fuel [dev0] drv s = alloc_driver deps fuel (dev0 - 2) s"
| "start_impl deps fuel (dev0 # drivers) drv s =
     (if drv = dev0 then alloc_driver deps fuel (dev0 - 2) s else start_impl deps fuel drivers drv s)"

definition make_index_sequence_in_range :: "nat \<Rightarrow> nat \<Rightarrow> nat list" where
  "make_index_sequence_in_range lo hi = map (\<lambda>i. lo + i) [0 ..< hi - lo]"

definition dm_start :: "(nat \<Rightarrow> nat list) \<Rightarrow> nat \<Rightarrow> nat \<Rightarrow> nat \<Rightarrow> driver_manager \<Rightarrow> driver_manager option" where
  "dm_start deps fuel n drv s = start_impl deps fuel (make_index_sequence_in_range 2 (n + 2)) drv s"

text \<open>\<open>ctx.init()\<close> opens the memory maps and the buses; \<open>kc\<close> is the driver \<open>Common\<close>, whose \<open>init\<close> is empty.\<close>

definition dm_init ::
    "(nat \<Rightarrow> nat list) \<Rightarrow> nat \<Rightarrow> nat \<Rightarrow> int \<Rightarrow> driver_manager \<Rightarrow> (int \<times> driver_manager) option" where
  "dm_init deps fuel kc ctx_init s =
     (if ctx_init < 0 then Some (-1, s) else do { s \<leftarrow> dm_gets deps fuel [kc] s; Some (0, s) })"

section \<open>Commands\<close>

text \<open>What the server (\<open>command_exec\<close>) and driver \<open>k\<close> (\<open>driver_exec\<close>) do with a command.\<close>

type_synonym 'w command_exec = "command \<Rightarrow> 'w \<Rightarrow> (int \<times> 'w) option"
type_synonym 'w driver_exec = "nat \<Rightarrow> 'w command_exec"

fun execute_driver_implementation ::
    "'w driver_exec \<Rightarrow> nat list \<Rightarrow> nat \<Rightarrow> command \<Rightarrow> 'w \<Rightarrow> (int \<times> 'w) option" where
  "execute_driver_implementation ex [] dev_type cmd w = None"
| "execute_driver_implementation ex [dev0] dev_type cmd w = ex (dev0 - 2) cmd w"
| "execute_driver_implementation ex (dev0 # drivers) dev_type cmd w =
     (if dev_type = dev0 then ex (dev0 - 2) cmd w
      else execute_driver_implementation ex drivers dev_type cmd w)"

text \<open>
  \<open>DriverManager::execute\<close>. The assertion on the driver is compiled out, and \<open>is_started\<close> is an array:
  a driver that does not exist is an access out of bounds. A device that could not be allocated is a
  null pointer, whose \<open>type\<close> is read.
\<close>

definition dm_execute :: "(nat \<Rightarrow> nat list) \<Rightarrow> nat \<Rightarrow> nat \<Rightarrow> 'w driver_exec \<Rightarrow> 'w command_exec \<Rightarrow>
    command \<Rightarrow> driver_manager \<Rightarrow> 'w \<Rightarrow> (int \<times> driver_manager \<times> 'w) option" where
  "dm_execute deps fuel n ex server_ex cmd s w =
     (let drv = driver cmd in
      if drv = 0 then Some (0, s, w)
      else if drv = 1 then do { (r, w) \<leftarrow> server_ex cmd w; Some (r, s, w) }
      else if drv - 2 \<ge> n then None
      else do {
        s \<leftarrow> (if \<not> m_started s ! (drv - 2) then dm_start deps fuel n drv s else Some s);
        (r, w) \<leftarrow> (if device_list s ! (drv - 2)
           then execute_driver_implementation ex (make_index_sequence_in_range 2 (n + 2)) drv cmd w else None);
        Some (r, s, w) })"

section \<open>The invariant\<close>

text \<open>
  \<open>S\<close> are the drivers whose constructors are running. The flags of the container and of the manager
  say the same, no driver was constructed twice, and a driver is not both running and constructed.
\<close>

definition dm_ok :: "nat \<Rightarrow> nat set \<Rightarrow> driver_manager \<Rightarrow> bool" where
  "dm_ok n S s \<longleftrightarrow> length (m_started s) = n \<and> length (device_list s) = n \<and>
     length (c_started (container s)) = n \<and> length (c_starting (container s)) = n \<and>
     length (driver_tuple (container s)) = n \<and> distinct (built s) \<and> set (built s) \<subseteq> {..<n} \<and>
     S \<inter> set (built s) = {} \<and>
     (\<forall>k < n. (m_started s ! k \<longleftrightarrow> k \<in> set (built s)) \<and> (device_list s ! k \<longleftrightarrow> k \<in> set (built s)) \<and>
       (c_started (container s) ! k \<longleftrightarrow> k \<in> set (built s)) \<and>
       (driver_tuple (container s) ! k \<longleftrightarrow> k \<in> set (built s)) \<and> (c_starting (container s) ! k \<longleftrightarrow> k \<in> S))"

text \<open>Each driver was constructed after the drivers its constructor gets.\<close>

definition dep_closed :: "(nat \<Rightarrow> nat list) \<Rightarrow> nat list \<Rightarrow> bool" where
  "dep_closed deps xs \<longleftrightarrow> (\<forall>i < length xs. set (deps (xs ! i)) \<subseteq> set (take i xs))"

definition dep_rel :: "(nat \<Rightarrow> nat list) \<Rightarrow> (nat \<times> nat) set" where
  "dep_rel deps = {(d, k). d \<in> set (deps k)}"

lemma dep_closed_snoc:
  "dep_closed deps (xs @ [k]) \<longleftrightarrow> dep_closed deps xs \<and> set (deps k) \<subseteq> set xs"
  unfolding dep_closed_def by (auto simp: less_Suc_eq nth_append)

lemma dm_ok_new: "dm_ok n {} (new_driver_manager n)"
  by (simp add: dm_ok_def new_driver_manager_def new_driver_container_def)

lemma dm_ok_starting:
  assumes "dm_ok n S s" and "k < n" and "k \<notin> S" and "k \<notin> set (built s)"
  shows "dm_ok n (insert k S) (set_container (\<lambda>c. c\<lparr>c_starting := (c_starting c)[k := True]\<rparr>) s)"
  using assms by (auto simp: dm_ok_def nth_list_update)

lemma dm_ok_started:
  assumes "dm_ok n (insert k S) s" and "k < n" and "k \<notin> S"
  shows "dm_ok n S ((set_container (\<lambda>c. c\<lparr>driver_tuple := (driver_tuple c)[k := True],
      c_starting := (c_starting c)[k := False], c_started := (c_started c)[k := True]\<rparr>)
      (s\<lparr>built := built s @ [k]\<rparr>))\<lparr>device_list := (device_list s)[k := True], m_started := (m_started s)[k := True]\<rparr>)"
  using assms by (auto simp: dm_ok_def nth_list_update)

text \<open>
  What an allocation promises: the invariant again, nothing is undone, and either the failure is
  recorded, which happens in a circular dependency only, or all of \<open>ks\<close> are constructed, in an order
  that respects the dependencies.
\<close>

definition alloc_post :: "(nat \<Rightarrow> nat list) \<Rightarrow> nat \<Rightarrow> nat set \<Rightarrow> nat set \<Rightarrow> driver_manager \<Rightarrow> driver_manager \<Rightarrow> bool" where
  "alloc_post deps n S ks s s' \<longleftrightarrow> dm_ok n S s' \<and> (\<exists>new. built s' = built s @ new) \<and>
     (dm_exit_all s \<longrightarrow> dm_exit_all s') \<and> (dm_exit_all s' \<longrightarrow> dm_exit_all s \<or> \<not> acyclic (dep_rel deps)) \<and>
     (\<not> dm_exit_all s' \<longrightarrow> ks \<subseteq> set (built s') \<and> null_ref s' = null_ref s \<and>
       (dep_closed deps (built s) \<longrightarrow> dep_closed deps (built s')))"

lemma alloc_post_refl: "dm_ok n S s \<Longrightarrow> ks \<subseteq> set (built s) \<Longrightarrow> alloc_post deps n S ks s s"
  by (auto simp: alloc_post_def)

lemma alloc_post_trans:
  "alloc_post deps n S ks s s1 \<Longrightarrow> alloc_post deps n S ks' s1 s2 \<Longrightarrow> alloc_post deps n S (ks \<union> ks') s s2"
  by (auto simp: alloc_post_def)

definition waiting :: "nat \<Rightarrow> nat set \<Rightarrow> driver_manager \<Rightarrow> nat" where
  "waiting n S s = card ({..<n} - S - set (built s))"

lemma waiting_mono: "\<exists>new. built s' = built s @ new \<Longrightarrow> waiting n S s' \<le> waiting n S s"
  unfolding waiting_def by (rule card_mono) auto

lemma waiting_insert:
  assumes "k < n" and "k \<notin> S" and "k \<notin> set (built s)" and "built s' = built s"
  shows "waiting n (insert k S) s' < waiting n S s"
  unfolding waiting_def by (rule psubset_card_mono) (use assms in auto)

text \<open>A constructor gets its drivers one after another.\<close>

lemma dm_gets_correct:
  assumes alloc: "\<And>S s k. dm_ok n S s \<Longrightarrow> k < n \<Longrightarrow> \<forall>x \<in> S. (k, x) \<in> (dep_rel deps)\<^sup>+ \<Longrightarrow> waiting n S s < fuel \<Longrightarrow>
      \<exists>s'. alloc_driver deps fuel k s = Some s' \<and> alloc_post deps n S {k} s s'"
  shows "dm_ok n S s \<Longrightarrow> set ds \<subseteq> {..<n} \<Longrightarrow> \<forall>d \<in> set ds. \<forall>x \<in> S. (d, x) \<in> (dep_rel deps)\<^sup>+ \<Longrightarrow>
    waiting n S s < fuel \<Longrightarrow> \<exists>s'. dm_gets deps fuel ds s = Some s' \<and> alloc_post deps n S (set ds) s s'"
proof (induction ds arbitrary: s)
  case Nil
  then show ?case by (simp add: alloc_post_refl)
next
  case (Cons d ds)
  have d: "d < n" using Cons.prems(2) by simp
  have "\<exists>s1. (if \<not> m_started s ! d then alloc_driver deps fuel d s else Some s) = Some s1 \<and> alloc_post deps n S {d} s s1"
  proof (cases "m_started s ! d")
    case True
    then have "d \<in> set (built s)" using Cons.prems(1) d by (simp add: dm_ok_def)
    then show ?thesis using True alloc_post_refl [OF Cons.prems(1)] by simp
  next
    case False
    then show ?thesis using alloc [OF Cons.prems(1) d _ Cons.prems(4)] Cons.prems(3) by simp
  qed
  then obtain s1 where 1: "(if \<not> m_started s ! d then alloc_driver deps fuel d s else Some s) = Some s1"
    "alloc_post deps n S {d} s s1" by blast
  let ?s2 = "if driver_tuple (container s1) ! d then s1 else s1\<lparr>null_ref := True\<rparr>"
  have ok1: "dm_ok n S s1" and new: "\<exists>new. built s1 = built s @ new" using 1(2) by (simp_all add: alloc_post_def)
  then have "driver_tuple (container s1) ! d \<longleftrightarrow> d \<in> set (built s1)" using d by (simp add: dm_ok_def)
  then have post2: "alloc_post deps n S {d} s ?s2"
    using 1(2) by (auto simp: alloc_post_def dm_ok_def)
  have ok2: "dm_ok n S ?s2" using post2 by (simp add: alloc_post_def)
  have "waiting n S ?s2 \<le> waiting n S s" by (rule waiting_mono) (use new in auto)
  then have "waiting n S ?s2 < fuel" using Cons.prems(4) by simp
  then obtain s3 where 3: "dm_gets deps fuel ds ?s2 = Some s3" "alloc_post deps n S (set ds) ?s2 s3"
    using Cons.IH [OF ok2] Cons.prems(2,3) by auto
  have "alloc_post deps n S (set (d # ds)) s s3" using alloc_post_trans [OF post2 3(2)] by simp
  then show ?case using 1(1) 3(1) by simp
qed

lemma alloc_driver_correct:
  assumes deps: "\<And>k. k < n \<Longrightarrow> set (deps k) \<subseteq> {..<n}"
  shows "dm_ok n S s \<Longrightarrow> k < n \<Longrightarrow> \<forall>x \<in> S. (k, x) \<in> (dep_rel deps)\<^sup>+ \<Longrightarrow> waiting n S s < fuel \<Longrightarrow>
    \<exists>s'. alloc_driver deps fuel k s = Some s' \<and> alloc_post deps n S {k} s s'"
proof (induction fuel arbitrary: S s k)
  case (Suc fuel)
  note ok = Suc.prems(1) and k = Suc.prems(2)
  have flags: "m_started s ! k \<longleftrightarrow> k \<in> set (built s)" "c_started (container s) ! k \<longleftrightarrow> k \<in> set (built s)"
    "c_starting (container s) ! k \<longleftrightarrow> k \<in> S" using ok k by (simp_all add: dm_ok_def)
  consider "k \<in> set (built s)" | "k \<notin> set (built s)" "k \<in> S" | "k \<notin> set (built s)" "k \<notin> S" by blast
  then show ?case
  proof cases
    case 1
    then show ?thesis using flags alloc_post_refl [OF ok] by simp
  next
    case 2
    then have "(k, k) \<in> (dep_rel deps)\<^sup>+" using Suc.prems(3) by blast
    then have "\<not> acyclic (dep_rel deps)" by (auto simp: acyclic_def)
    then have "alloc_post deps n S {k} s (s\<lparr>dm_exit_all := True\<rparr>)"
      using ok by (simp add: alloc_post_def dm_ok_def)
    then show ?thesis using 2 flags by (simp add: container_alloc_def)
  next
    case 3
    let ?s1 = "set_container (\<lambda>c. c\<lparr>c_starting := (c_starting c)[k := True]\<rparr>) s"
    have ok1: "dm_ok n (insert k S) ?s1" by (rule dm_ok_starting [OF ok k 3(2,1)])
    have w1: "waiting n (insert k S) ?s1 < fuel"
      using waiting_insert [OF k 3(2,1), of ?s1] Suc.prems(4) by simp
    have path: "\<forall>d \<in> set (deps k). \<forall>x \<in> insert k S. (d, x) \<in> (dep_rel deps)\<^sup>+"
    proof (intro ballI)
      fix d x assume d: "d \<in> set (deps k)" and x: "x \<in> insert k S"
      have dk: "(d, k) \<in> dep_rel deps" using d by (simp add: dep_rel_def)
      then show "(d, x) \<in> (dep_rel deps)\<^sup>+" using x Suc.prems(3) by (auto intro: trancl_into_trancl2)
    qed
    obtain s2 where 2: "dm_gets deps fuel (deps k) ?s1 = Some s2" "alloc_post deps n (insert k S) (set (deps k)) ?s1 s2"
      using dm_gets_correct [OF Suc.IH ok1 deps [OF k] path w1] by blast
    let ?s3 = "(set_container (\<lambda>c. c\<lparr>driver_tuple := (driver_tuple c)[k := True],
      c_starting := (c_starting c)[k := False], c_started := (c_started c)[k := True]\<rparr>)
      (s2\<lparr>built := built s2 @ [k]\<rparr>))\<lparr>device_list := (device_list s2)[k := True], m_started := (m_started s2)[k := True]\<rparr>"
    have "dm_ok n S ?s3" by (rule dm_ok_started) (use 2(2) k 3(2) in \<open>simp_all add: alloc_post_def\<close>)
    then have "alloc_post deps n S {k} s ?s3"
      using 2(2) by (auto simp: alloc_post_def dep_closed_snoc)
    moreover have "alloc_driver deps (Suc fuel) k s = Some ?s3"
      using 3 flags 2(1) by (simp add: container_alloc_def)
    ultimately show ?thesis by blast
  qed
qed simp

text \<open>In an order that respects the dependencies, nothing depends on itself.\<close>

lemma dep_closed_no_cycle:
  assumes "dep_closed deps xs" and "distinct xs" and "k \<in> set xs"
  shows "(k, k) \<notin> (dep_rel deps)\<^sup>+"
proof -
  have before: "\<exists>i < j. xs ! i = d" if "(d, xs ! j) \<in> (dep_rel deps)\<^sup>+" "j < length xs" for d j
    using that
  proof (induction d rule: converse_trancl_induct)
    case (base d)
    then have "d \<in> set (take j xs)" using assms(1) by (auto simp: dep_closed_def dep_rel_def)
    then show ?case using base(2) by (auto simp: in_set_conv_nth)
  next
    case (step d e)
    then obtain i where i: "i < j" "xs ! i = e" by blast
    then have "d \<in> set (deps (xs ! i))" "i < length xs" using step(1,4) by (auto simp: dep_rel_def)
    then have "d \<in> set (take i xs)" using assms(1) unfolding dep_closed_def by blast
    then show ?case using i(1) step.prems by (auto simp: in_set_conv_nth) (use less_trans in blast)
  qed
  obtain j where j: "j < length xs" "xs ! j = k" using assms(3) by (auto simp: in_set_conv_nth)
  show ?thesis
  proof
    assume "(k, k) \<in> (dep_rel deps)\<^sup>+"
    then obtain i where "i < j" "xs ! i = k" using before [of k j] j by auto
    then show False using j assms(2) by (auto simp: nth_eq_iff_index_eq)
  qed
qed

section \<open>Properties\<close>

text \<open>
  Allocating a driver always returns: nested constructors are at most as many as there are
  drivers. No driver is ever constructed twice. When the dependencies are acyclic, the driver runs afterwards, every
  driver was constructed after those it uses, and no constructor has been given a missing driver. When the
  driver depends on itself, the server is told to exit.
\<close>
lemma alloc_driver_dependencies:
  assumes deps: "\<And>k. k < n \<Longrightarrow> set (deps k) \<subseteq> {..<n}"
    and s: "dm_ok n {} s" "dep_closed deps (built s)" "\<not> dm_exit_all s" and k: "k < n"
  shows "\<exists>s'. alloc_driver deps (n + 1) k s = Some s' \<and> dm_ok n {} s' \<and> distinct (built s') \<and>
    (acyclic (dep_rel deps) \<longrightarrow> \<not> dm_exit_all s' \<and> m_started s' ! k \<and> device_list s' ! k \<and>
       dep_closed deps (built s') \<and> null_ref s' = null_ref s) \<and>
    ((k, k) \<in> (dep_rel deps)\<^sup>+ \<longrightarrow> dm_exit_all s')"
proof -
  have "waiting n {} s < n + 1"
    unfolding waiting_def using card_mono [of "{..<n}" "{..<n} - {} - set (built s)"] by auto
  then obtain s' where 1: "alloc_driver deps (n + 1) k s = Some s'" "alloc_post deps n {} {k} s s'"
    using alloc_driver_correct [of n deps "{}" s k "n + 1"] deps s(1) k by blast
  have ok: "dm_ok n {} s'" using 1(2) by (simp add: alloc_post_def)
  have fin: "k \<in> set (built s') \<and> null_ref s' = null_ref s \<and> dep_closed deps (built s')" if "\<not> dm_exit_all s'"
    using 1(2) s(2) that by (simp add: alloc_post_def)
  have "\<not> dm_exit_all s'" if "acyclic (dep_rel deps)" using 1(2) s(3) that by (auto simp: alloc_post_def)
  moreover have "dm_exit_all s'" if "(k, k) \<in> (dep_rel deps)\<^sup>+"
    using dep_closed_no_cycle [of deps "built s'" k] fin ok that by (auto simp: dm_ok_def)
  moreover have "m_started s' ! k \<and> device_list s' ! k" if "k \<in> set (built s')"
    using ok k that by (simp add: dm_ok_def)
  ultimately show ?thesis using 1(1) ok fin by (auto simp: dm_ok_def)
qed

text \<open>The drivers of Sesenta: \<open>Common\<close>, \<open>DmaS2MM\<close> and \<open>Sesenta\<close>, which gets the DMA driver.\<close>

definition sesenta_deps :: "nat \<Rightarrow> nat list" where
  "sesenta_deps k = (if k = 2 then [1] else [])"

lemma sesenta_acyclic: "acyclic (dep_rel sesenta_deps)"
proof -
  have "(a, b) \<in> (dep_rel sesenta_deps)\<^sup>+ \<Longrightarrow> a = 1 \<and> b = 2" for a b
    by (induction rule: trancl_induct) (auto simp: dep_rel_def sesenta_deps_def split: if_splits)
  then show ?thesis by (force simp: acyclic_def)
qed

lemma start_impl_in: "d \<in> set ds \<Longrightarrow> start_impl deps fuel ds d s = alloc_driver deps fuel (d - 2) s"
  by (induction deps fuel ds d s rule: start_impl.induct) auto

lemma execute_driver_implementation_in:
  "d \<in> set ds \<Longrightarrow> execute_driver_implementation ex ds d cmd w = ex (d - 2) cmd w"
  by (induction ex ds d cmd w rule: execute_driver_implementation.induct) auto

lemma index_range: "set (make_index_sequence_in_range lo hi) = {lo ..< hi}"
proof -
  have "x \<in> (\<lambda>i. lo + i) ` {0 ..< hi - lo}" if "lo \<le> x" "x < hi" for x
    by (rule image_eqI [of _ _ "x - lo"]) (use that in simp_all)
  then show ?thesis by (auto simp: make_index_sequence_in_range_def)
qed

lemma dm_execute_parts:
  assumes deps: "\<And>k. k < n \<Longrightarrow> set (deps k) \<subseteq> {..<n}" and acyc: "acyclic (dep_rel deps)"
    and s: "dm_ok n {} s" "dep_closed deps (built s)" "\<not> dm_exit_all s"
  shows "driver cmd = 0 \<Longrightarrow> dm_execute deps (n + 1) n ex server_ex cmd s w = Some (0, s, w)"
    and "driver cmd = 1 \<Longrightarrow> server_ex cmd w = Some (r, w') \<Longrightarrow>
      dm_execute deps (n + 1) n ex server_ex cmd s w = Some (r, s, w')"
    and "2 \<le> driver cmd \<Longrightarrow> driver cmd < n + 2 \<Longrightarrow> ex (driver cmd - 2) cmd w = Some (r, w') \<Longrightarrow>
      \<exists>s'. dm_execute deps (n + 1) n ex server_ex cmd s w = Some (r, s', w') \<and> m_started s' ! (driver cmd - 2) \<and> set (built s) \<subseteq> set (built s') \<and>
        dm_ok n {} s' \<and> dep_closed deps (built s') \<and> \<not> dm_exit_all s'"
    and "n + 2 \<le> driver cmd \<Longrightarrow> dm_execute deps (n + 1) n ex server_ex cmd s w = None"
proof -
  show "driver cmd = 0 \<Longrightarrow> dm_execute deps (n + 1) n ex server_ex cmd s w = Some (0, s, w)"
    "driver cmd = 1 \<Longrightarrow> server_ex cmd w = Some (r, w') \<Longrightarrow>
      dm_execute deps (n + 1) n ex server_ex cmd s w = Some (r, s, w')"
    by (simp_all add: dm_execute_def Let_def)
  show "dm_execute deps (n + 1) n ex server_ex cmd s w = None" if "n + 2 \<le> driver cmd"
  proof -
    have "driver cmd \<noteq> 0" "driver cmd \<noteq> 1" "n \<le> driver cmd - 2" using that by simp_all
    then show ?thesis by (simp add: dm_execute_def Let_def)
  qed
next
  assume d: "2 \<le> driver cmd" "driver cmd < n + 2" and ex: "ex (driver cmd - 2) cmd w = Some (r, w')"
  let ?k = "driver cmd - 2"
  have k: "?k < n" and mem: "driver cmd \<in> set (make_index_sequence_in_range 2 (n + 2))"
    using d by (auto simp: index_range)
  have w: "waiting n {} s < n + 1"
    unfolding waiting_def using card_mono [of "{..<n}" "{..<n} - {} - set (built s)"] by auto
  obtain s' where 1: "alloc_driver deps (n + 1) ?k s = Some s'" "alloc_post deps n {} {?k} s s'"
    using alloc_driver_correct [of n deps "{}" s ?k "n + 1"] deps s(1) k w by blast
  have noexit: "\<not> dm_exit_all s'" using 1(2) s(3) acyc by (auto simp: alloc_post_def)
  then have s': "?k \<in> set (built s')" "dep_closed deps (built s')" "dm_ok n {} s'" "set (built s) \<subseteq> set (built s')"
    using 1(2) s(2) by (auto simp: alloc_post_def)
  have run: "m_started s' ! ?k" "device_list s' ! ?k" using s' k by (simp_all add: dm_ok_def)
  have started: "(if \<not> m_started s ! ?k then dm_start deps (n + 1) n (driver cmd) s else Some s) = Some s'"
    using 1(1) start_impl_in [OF mem, of deps "n + 1" s] by (cases "m_started s ! ?k") (simp_all add: dm_start_def)
  have "dm_execute deps (n + 1) n ex server_ex cmd s w = Some (r, s', w')"
    unfolding dm_execute_def Let_def
    using d k started run execute_driver_implementation_in [OF mem, of ex cmd w] ex by simp
  then show "\<exists>s'. dm_execute deps (n + 1) n ex server_ex cmd s w = Some (r, s', w') \<and> m_started s' ! ?k \<and> set (built s) \<subseteq> set (built s') \<and>
      dm_ok n {} s' \<and> dep_closed deps (built s') \<and> \<not> dm_exit_all s'"
    using run s' noexit by blast
qed

text \<open>
  A command is executed by the driver it names, which is started first when it is not running;
  command 0 does nothing and driver 1 is the server. A driver that does not exist makes the manager read past
  its array.
\<close>
lemma dm_execute_dispatch:
  assumes deps: "\<And>k. k < n \<Longrightarrow> set (deps k) \<subseteq> {..<n}" and acyc: "acyclic (dep_rel deps)"
    and s: "dm_ok n {} s" "dep_closed deps (built s)" "\<not> dm_exit_all s"
  shows "(driver cmd = 0 \<longrightarrow> dm_execute deps (n + 1) n ex server_ex cmd s w = Some (0, s, w)) \<and>
    (driver cmd = 1 \<and> server_ex cmd w = Some (r, w') \<longrightarrow>
      dm_execute deps (n + 1) n ex server_ex cmd s w = Some (r, s, w')) \<and>
    (2 \<le> driver cmd \<and> driver cmd < n + 2 \<and> ex (driver cmd - 2) cmd w = Some (r, w') \<longrightarrow>
      (\<exists>s'. dm_execute deps (n + 1) n ex server_ex cmd s w = Some (r, s', w') \<and> m_started s' ! (driver cmd - 2) \<and> set (built s) \<subseteq> set (built s') \<and>
        dm_ok n {} s' \<and> dep_closed deps (built s') \<and> \<not> dm_exit_all s')) \<and>
    (n + 2 \<le> driver cmd \<longrightarrow> dm_execute deps (n + 1) n ex server_ex cmd s w = None)"
  using dm_execute_parts(1,2,4) [OF assms, where ex = ex and server_ex = server_ex and cmd = cmd and w = w]
    dm_execute_parts(3) [OF assms, where ex = ex and server_ex = server_ex and cmd = cmd and w = w and r = r and w' = w']
  by blast

end
