(* ===== verification/Dispatch.thy ===== *)
theory Dispatch
  imports Session Drivers_Manager
begin

text \<open>
  What a session thread does with a command: \<open>session->run()\<close> hands it to \<open>driver_manager.execute\<close>, which starts
  the driver it names when it is not running, or to the server itself
  (\<^verbatim>\<open>src/server/core/session.hpp\<close>, \<^verbatim>\<open>drivers_manager.cpp\<close>, \<^verbatim>\<open>server_commands.cpp\<close>).

  The state of a thread is the session, the world its socket calls act on, and the manager that it
  shares with the other threads. \<open>KOHERON_VERSION\<close> and the description of the drivers, which the build generates,
  are parameters.
\<close>

section \<open>The operations of the server\<close>

text \<open>
  \<open>session_manager.get_session(cmd.session_id)\<close> is the session of the thread that executes the command.
\<close>

definition get_version :: "'w writer \<Rightarrow> byte list \<Rightarrow> (session \<times> 'w) command_exec" where
  "get_version wr version cmd = (\<lambda>(s, w). abstract_send wr 1 0 [CString (version @ [0])] s w)"

definition get_cmds :: "'w writer \<Rightarrow> byte list \<Rightarrow> (session \<times> 'w) command_exec" where
  "get_cmds wr json cmd = (\<lambda>(s, w). abstract_send wr 1 1 [Container json] s w)"

definition server_execute :: "'w writer \<Rightarrow> byte list \<Rightarrow> byte list \<Rightarrow> (session \<times> 'w) command_exec" where
  "server_execute wr version json cmd w =
     (if operation cmd = 0 then get_version wr version cmd w
      else if operation cmd = 1 then get_cmds wr json cmd w
      else Some (- 1, w))"

section \<open>The executor of a session\<close>

type_synonym 'w shared = "'w \<times> driver_manager"

definition session_execute :: "(nat \<Rightarrow> nat list) \<Rightarrow> nat \<Rightarrow> (session \<times> 'w) driver_exec \<Rightarrow>
    (session \<times> 'w) command_exec \<Rightarrow> 'w shared executor" where
  "session_execute deps n ex server_ex cmd s = (\<lambda>(w, dm). do {
     (r, dm, s, w) \<leftarrow> dm_execute deps (n + 1) n ex server_ex cmd dm (s, w);
     Some (r, s, w, dm) })"

definition shared_read :: "'w reader \<Rightarrow> 'w shared reader" where
  "shared_read rd = (\<lambda>(w, dm) n. let (r, w) = rd w n in (r, w, dm))"

definition shared_write :: "'w writer \<Rightarrow> 'w shared writer" where
  "shared_write wr = (\<lambda>(w, dm) bs. let (r, w) = wr w bs in (r, w, dm))"

lemma shared_read_stream: "stream_source rd peer \<Longrightarrow> stream_source (shared_read rd) (\<lambda>(w, dm). peer w)"
  unfolding stream_source_def
proof (intro allI impI)
  fix wd :: "'a shared" and n :: nat
  assume src: "\<forall>w n. 0 < n \<longrightarrow> peer w \<noteq> [] \<longrightarrow>
      (\<exists>bs w'. rd w n = (RdBytes bs, w') \<and> bs \<noteq> [] \<and> length bs \<le> n \<and> peer w = bs @ peer w')"
    and n: "0 < n" and ne: "(case wd of (w, dm) \<Rightarrow> peer w) \<noteq> []"
  obtain w dm where wd: "wd = (w, dm)" by force
  obtain bs w' where "rd w n = (RdBytes bs, w')" "bs \<noteq> []" "length bs \<le> n" "peer w = bs @ peer w'"
    using src [rule_format, OF n, of w] ne wd by auto
  then show "\<exists>bs w'. shared_read rd wd n = (RdBytes bs, w') \<and> bs \<noteq> [] \<and> length bs \<le> n \<and>
      (case wd of (w, dm) \<Rightarrow> peer w) = bs @ (case w' of (w, dm) \<Rightarrow> peer w)"
    by (simp add: shared_read_def wd)
qed

text \<open>What the drivers of an instrument promise: they take their arguments from the session.\<close>

definition drivers_execute :: "nat \<Rightarrow> (session \<times> 'w) driver_exec \<Rightarrow> ('w \<Rightarrow> byte list) \<Rightarrow> ('w \<Rightarrow> call list) \<Rightarrow>
    call set \<Rightarrow> bool" where
  "drivers_execute n ex peer done calls \<longleftrightarrow> (\<forall>k < n. executes (\<lambda>_. True) (\<lambda>cmd s w. ex k cmd (s, w)) peer done
     {(d, p, args) \<in> calls. unat d = k + 2})"

text \<open>The manager is in order and has started the drivers of the commands executed so far.\<close>

definition serving_ok :: "(nat \<Rightarrow> nat list) \<Rightarrow> nat \<Rightarrow> ('w \<Rightarrow> call list) \<Rightarrow> 'w shared \<Rightarrow> bool" where
  "serving_ok deps n done = (\<lambda>(w, dm). dm_ok n {} dm \<and> dep_closed deps (built dm) \<and> \<not> dm_exit_all dm \<and>
     (\<forall>(d, p, args) \<in> set (done w). unat d - 2 \<in> set (built dm)))"

lemma session_execute_executes:
  assumes deps: "\<And>k. k < n \<Longrightarrow> set (deps k) \<subseteq> {..<n}" and acyc: "acyclic (dep_rel deps)"
    and drv: "drivers_execute n ex peer done calls"
    and calls: "\<And>d p args. (d, p, args) \<in> calls \<Longrightarrow> 2 \<le> unat d \<and> unat d < n + 2"
  shows "executes (serving_ok deps n done) (session_execute deps n ex server_ex) (\<lambda>(w, dm). peer w)
    (\<lambda>(w, dm). done w) calls"
  unfolding executes_def
proof (intro allI impI)
  fix cmd :: command and s :: session and wd d p args rest
  assume call: "(d, p, args) \<in> calls" "driver cmd = unat d" "operation cmd = int (unat p)"
    and inp: "(case wd of (w, dm) \<Rightarrow> peer w) = concat (map enc_arg args) @ rest" "status s" "serving_ok deps n done wd"
  obtain w dm where wd: "wd = (w, dm)" by force
  let ?k = "unat d - 2"
  have k: "?k < n" "unat d = ?k + 2" using calls [OF call(1)] by auto
  then have "executes (\<lambda>_. True) (\<lambda>cmd s w. ex ?k cmd (s, w)) peer done {(d', p, args) \<in> calls. unat d' = ?k + 2}"
    using drv unfolding drivers_execute_def by blast
  from this [unfolded executes_def, rule_format, of d p args cmd w rest s] call inp(1,2) k(2) wd
  obtain r s' w' where e: "ex ?k cmd (s, w) = Some (r, s', w')" "peer w' = rest"
      "done w' = done w @ [(d, p, args)]" "status s'" "sess_type s' = sess_type s" by auto
  have dm: "dm_ok n {} dm" "dep_closed deps (built dm)" "\<not> dm_exit_all dm"
      "\<forall>(d, p, args) \<in> set (done w). unat d - 2 \<in> set (built dm)"
    using inp(3) wd by (simp_all add: serving_ok_def)
  from dm_execute_parts(3) [where ex = ex, OF deps acyc dm(1-3)] obtain dm' where
    x: "dm_execute deps (n + 1) n ex server_ex cmd dm (s, w) = Some (r, dm', s', w')" "m_started dm' ! ?k"
      "set (built dm) \<subseteq> set (built dm')" "dm_ok n {} dm'" "dep_closed deps (built dm')" "\<not> dm_exit_all dm'"
    using call(2) calls [OF call(1)] e(1) by metis
  have "?k \<in> set (built dm')" using x(2,4) k(1) by (simp add: dm_ok_def)
  then have "serving_ok deps n done (w', dm')" using x(3-6) dm(4) e(3) by (auto simp: serving_ok_def)
  moreover have "session_execute deps n ex server_ex cmd s wd = Some (r, s', w', dm')"
    using x(1) by (simp add: session_execute_def wd)
  ultimately show "\<exists>r s' w'. session_execute deps n ex server_ex cmd s wd = Some (r, s', w') \<and>
      (case w' of (w, dm) \<Rightarrow> peer w) = rest \<and> serving_ok deps n done w' \<and>
      (case w' of (w, dm) \<Rightarrow> done w) = (case wd of (w, dm) \<Rightarrow> done w) @ [(d, p, args)] \<and> status s' \<and>
      sess_type s' = sess_type s"
    using e(2-5) wd by auto
qed

section \<open>Properties\<close>

text \<open>
  The answer to \<open>GET_VERSION\<close> is one write: the header of the server's command, the length of the version and
  its characters. An operation the server does not have is refused and nothing is written.
\<close>

lemma server_version_answer:
  assumes "sess_type s = TCP" and "length (scal_data (dynamic_serializer s)) = cap" and "driver cmd = 1"
    and "0 \<notin> set version" and "\<And>w bs. wr w bs = (int (length bs), w @ bs)"
  shows "operation cmd = 0 \<Longrightarrow> \<exists>r s'. session_execute deps n ex (server_execute wr version json) cmd s (w, dm)
      = Some (r, s', w @ enc_header 1 0 @ enc_container version, dm) \<and> status s' = status s"
    and "operation cmd = 1 \<Longrightarrow> \<exists>r s'. session_execute deps n ex (server_execute wr version json) cmd s (w, dm)
      = Some (r, s', w @ enc_header 1 1 @ enc_container json, dm) \<and> status s' = status s"
    and "operation cmd \<notin> {0, 1} \<Longrightarrow>
      session_execute deps n ex (server_execute wr version json) cmd s (w, dm) = Some (- 1, s, w, dm)"
proof -
  have sent: "\<exists>r s'. abstract_send wr d p [a] s w = Some (r, s', w @ enc_header d p @ enc_arg a) \<and> status s' = status s"
    if fit: "runs_fit cap 0 [a]" for d p a
  proof -
    obtain ser where "build_command d p (dynamic_serializer s) (send_buffer s) [a] = Some (ser, enc_header d p @ enc_arg a)"
      using build_command_eq [OF assms(2) fit, of d p "send_buffer s"] by auto
    moreover have "enc_header d p \<noteq> []" by (simp add: enc_header_def be16_def)
    ultimately show ?thesis
      using assms(1) by (simp add: abstract_send_def session_send_def session_write_def tcp_write_def assms(5) Let_def)
  qed
  have t: "takeWhile (\<lambda>c. c \<noteq> 0) (version @ [0]) = version" using assms(4) by (simp add: takeWhile_append)
  show "operation cmd = 0 \<Longrightarrow> \<exists>r s'. session_execute deps n ex (server_execute wr version json) cmd s (w, dm)
      = Some (r, s', w @ enc_header 1 0 @ enc_container version, dm) \<and> status s' = status s"
    using sent [of "CString (version @ [0])" 1 0] t assms(3)
    by (auto simp: session_execute_def dm_execute_def server_execute_def get_version_def)
  show "operation cmd = 1 \<Longrightarrow> \<exists>r s'. session_execute deps n ex (server_execute wr version json) cmd s (w, dm)
      = Some (r, s', w @ enc_header 1 1 @ enc_container json, dm) \<and> status s' = status s"
    using sent [of "Container json" 1 1] assms(3)
    by (auto simp: session_execute_def dm_execute_def server_execute_def get_cmds_def)
  show "operation cmd \<notin> {0, 1} \<Longrightarrow>
      session_execute deps n ex (server_execute wr version json) cmd s (w, dm) = Some (- 1, s, w, dm)"
    using assms(3) by (simp add: session_execute_def dm_execute_def server_execute_def)
qed

text \<open>
  C7: a TCP session over the drivers manager: every command of the client is executed exactly once, in order, by
  the driver it names; the drivers are started on demand, each once and after the drivers its constructor gets,
  and when the client closes the connection the session ends with 0 and every driver it used is running.
\<close>
theorem tcp_session_drives:
  assumes "\<And>k. k < n \<Longrightarrow> set (deps k) \<subseteq> {..<n}" and "acyclic (dep_rel deps)"
    and "stream_source rd peer" and "\<And>w n. peer w = [] \<Longrightarrow> 0 < n \<Longrightarrow> fst (rd w n) = RdBytes []"
    and "\<And>w n. done (snd (rd w n)) = done w" and "drivers_execute n ex peer done calls"
    and "\<And>d p args. (d, p, args) \<in> calls \<Longrightarrow> 2 \<le> unat d \<and> unat d < n + 2"
    and "command_ok fresh" and "buf_pos (header fresh) = HEADER_START"
    and "set cs \<subseteq> calls" and "peer w = concat (map enc_call cs)" and "done w = []"
    and "status s" and "sess_type s = TCP"
  shows "\<exists>s' w' dm. session_run (\<lambda>_. False) (shared_read rd) (shared_write wr)
      (session_execute deps n ex server_ex) fresh (w, new_driver_manager n) s = Some (0, s', w', dm) \<and>
    done w' = cs \<and> distinct (built dm) \<and> dep_closed deps (built dm) \<and> \<not> dm_exit_all dm \<and>
    (\<forall>(d, p, args) \<in> set cs. m_started dm ! (unat d - 2))"
proof -
  let ?run = "run_loop (\<lambda>_. False) (shared_read rd) (shared_write wr) (session_execute deps n ex server_ex) fresh
      (w, new_driver_manager n) s"
  have "\<exists>s' w'. ?run = Some (0, s', w') \<and> (case w' of (w, dm) \<Rightarrow> done w) =
      (case (w, new_driver_manager n) of (w, dm) \<Rightarrow> done w) @ cs \<and> serving_ok deps n done w'"
  proof (rule run_loop_tcp [where peer = "\<lambda>(w, dm). peer w" and calls = calls])
    show "stream_source (shared_read rd) (\<lambda>(w, dm). peer w)" by (rule shared_read_stream [OF assms(3)])
    show "executes (serving_ok deps n done) (session_execute deps n ex server_ex) (\<lambda>(w, dm). peer w)
        (\<lambda>(w, dm). done w) calls"
      by (rule session_execute_executes [OF assms(1,2,6,7)])
    show "serving_ok deps n done (w, new_driver_manager n)"
      using assms(12) dm_ok_new by (simp add: serving_ok_def dep_closed_def new_driver_manager_def)
  qed (use assms in \<open>auto simp: shared_read_def serving_ok_def split_beta\<close>)
  then obtain s' w' dm where run: "?run = Some (0, s', w', dm)" "done w' = cs" "serving_ok deps n done (w', dm)"
    using assms(12) by auto
  then have "\<forall>(d, p, args) \<in> set cs. m_started dm ! (unat d - 2)"
    using assms(7,10) by (fastforce simp: serving_ok_def dm_ok_def)
  moreover have "distinct (built dm)" "dep_closed deps (built dm)" "\<not> dm_exit_all dm"
    using run(3) by (simp_all add: serving_ok_def dm_ok_def)
  ultimately show ?thesis
    using run(1,2) assms(14) by (auto simp: session_run_def init_socket_def)
qed

theorem tcp_session_drives_witness:
  "\<exists>s' w' dm. session_run (\<lambda>_. False) (shared_read logged_read) (shared_write (\<lambda>w bs. (int (length bs), w)))
      (session_execute sesenta_deps 3 (\<lambda>k cmd (s, w). logging_exec [TScalar TU32] cmd s w) (\<lambda>cmd sw. Some (- 1, sw)))
      example_cmd (([enc_call (4, 1, [Scalar (U32 5)]), enc_call (2, 1, [Scalar (U32 6)])], []), new_driver_manager 3)
      \<lparr>sess_fd = 3, sess_id = 0, sess_type = TCP, websock = example_ws, send_buffer = [],
        dynamic_serializer = \<lparr>scal_data = replicate 1024 0, scal_size = 0\<rparr>, status = True\<rparr> = Some (0, s', w', dm) \<and>
    snd w' = [(4, 1, [Scalar (U32 5)]), (2, 1, [Scalar (U32 6)])] \<and> m_started dm ! 2 \<and> m_started dm ! 0"
proof -
  let ?calls = "{(d, p, args). (d = 2 \<or> d = 4) \<and> list_all2 (arg_matches (2 ^ 31 - 1)) [TScalar TU32] args \<and>
      length (concat (map enc_arg args)) < 2 ^ 31}"
  have drv: "drivers_execute 3 (\<lambda>k cmd (s, w). logging_exec [TScalar TU32] cmd s w) (\<lambda>w. concat (fst w)) snd ?calls"
    using logging_exec_executes [of "[TScalar TU32]"] unfolding drivers_execute_def executes_def by auto
  have deps: "set (sesenta_deps k) \<subseteq> {..<3}" for k by (auto simp: sesenta_deps_def)
  let ?cs = "[(4, 1, [Scalar (U32 5)]), (2, 1, [Scalar (U32 6)])] :: call list"
  let ?s = "\<lparr>sess_fd = 3, sess_id = 0, sess_type = TCP, websock = example_ws, send_buffer = [],
        dynamic_serializer = \<lparr>scal_data = replicate 1024 0, scal_size = 0\<rparr>, status = True\<rparr>"
  have "\<exists>s' w' dm. session_run (\<lambda>_. False) (shared_read logged_read) (shared_write (\<lambda>w bs. (int (length bs), w)))
      (session_execute sesenta_deps 3 (\<lambda>k cmd (s, w). logging_exec [TScalar TU32] cmd s w) (\<lambda>cmd sw. Some (- 1, sw)))
      example_cmd ((map enc_call ?cs, []), new_driver_manager 3) ?s = Some (0, s', w', dm) \<and>
    snd w' = ?cs \<and> distinct (built dm) \<and> dep_closed sesenta_deps (built dm) \<and> \<not> dm_exit_all dm \<and>
    (\<forall>(d, p, args) \<in> set ?cs. m_started dm ! (unat d - 2))"
    by (rule tcp_session_drives [OF deps sesenta_acyclic logged_read_stream _ _ drv])
      (auto simp: logged_read_eof logged_read_keeps example_cmd_def new_command_def command_ok_def)
  then show ?thesis by (simp, blast)
qed

end
