(* ===== verification/Memory_Map.thy ===== *)
theory Memory_Map
  imports Prelude
begin

text \<open>
  \<^verbatim>\<open>src/server/context/memory_map.hpp\<close>: a region of physical memory, opened with \<open>mmap\<close> of
  \<open>/dev/mem\<close>, and the register accesses the drivers make through it.

  The hardware behind the mapping is a parameter of type \<open>'w bus\<close>: a load and a store at a physical
  address, which may change the state of the hardware as they like. The template arguments of
  \<open>Memory<id>\<close> are a \<open>mem_region\<close>, the entry of \<open>mem::memory_array\<close>. An access is
  \<^term>\<open>None\<close> when it is not aligned or not inside the mapping; an instantiation that its
  \<open>static_assert\<close>s reject is \<^term>\<open>None\<close> too. \<open>T\<close> is the default \<open>uint32_t\<close>.
\<close>

section \<open>Regions\<close>

record mem_region =
  md_addr :: u32
  md_range :: u32
  md_prot :: u32
  md_nblocks :: u32

definition get_base_addr :: "mem_region \<Rightarrow> u32" where
  "get_base_addr d = md_addr d"

definition get_range :: "mem_region \<Rightarrow> u32" where
  "get_range d = md_range d"

definition get_protection :: "mem_region \<Rightarrow> u32" where
  "get_protection d = md_prot d"

definition get_n_blocks :: "mem_region \<Rightarrow> u32" where
  "get_n_blocks d = md_nblocks d"

definition PROT_READ :: u32 where "PROT_READ = 1"

definition PROT_WRITE :: u32 where "PROT_WRITE = 2"

definition is_writable :: "mem_region \<Rightarrow> bool" where
  "is_writable d \<longleftrightarrow> get_protection d AND PROT_WRITE = PROT_WRITE"

definition is_readable :: "mem_region \<Rightarrow> bool" where
  "is_readable d \<longleftrightarrow> get_protection d AND PROT_READ = PROT_READ"

definition get_total_size :: "mem_region \<Rightarrow> u32" where
  "get_total_size d = get_range d * get_n_blocks d"

definition get_mmap_offset :: "u32 \<Rightarrow> u32 \<Rightarrow> u32" where
  "get_mmap_offset phys_addr sz = phys_addr AND NOT (sz - 1)"

section \<open>The mapping\<close>

record memory =
  mapped_base :: u32
  base_address :: u32
  is_opened :: bool

definition new_memory :: memory where
  "new_memory = \<lparr>mapped_base = 0, base_address = 0, is_opened = False\<rparr>"

text \<open>\<open>mmap\<close> gets the size, the protection and the offset, and returns an address or \<open>(void *) -1\<close>.\<close>

type_synonym 'w mmap_call = "u32 \<Rightarrow> u32 \<Rightarrow> u32 \<Rightarrow> 'w \<Rightarrow> u32 \<times> 'w"

definition mem_open :: "'w mmap_call \<Rightarrow> mem_region \<Rightarrow> memory \<Rightarrow> 'w \<Rightarrow> memory \<times> 'w" where
  "mem_open mmap d m w = (
     let sz = get_total_size d;
         (p, w) = mmap sz (get_protection d) (get_mmap_offset (get_base_addr d) sz) w;
         m = m\<lparr>mapped_base := p\<rparr>
     in if p = - 1 then (m\<lparr>is_opened := False\<rparr>, w)
        else (m\<lparr>is_opened := True, base_address := p + (get_base_addr d AND (sz - 1))\<rparr>, w))"

definition opened :: "memory \<Rightarrow> bool" where
  "opened m = is_opened m"

definition mapped_size :: "mem_region \<Rightarrow> u32" where
  "mapped_size d = get_total_size d"

definition get_phys_addr :: "mem_region \<Rightarrow> u32" where
  "get_phys_addr d = get_base_addr d"

definition get_params :: "mem_region \<Rightarrow> memory \<Rightarrow> u32 \<times> bool \<times> u32 \<times> u32 \<times> u32" where
  "get_params d m = (base_address m, is_opened m, get_base_addr d, get_total_size d, get_protection d)"

section \<open>Accesses\<close>

record 'w bus =
  bus_load :: "u32 \<Rightarrow> 'w \<Rightarrow> u32 \<times> 'w"
  bus_store :: "u32 \<Rightarrow> u32 \<Rightarrow> 'w \<Rightarrow> 'w"

text \<open>The page tables: where a virtual address of the mapping lies in physical memory.\<close>

definition translate :: "mem_region \<Rightarrow> memory \<Rightarrow> u32 \<Rightarrow> u32 option" where
  "translate d m va =
     (if is_opened m \<and> unat va mod 4 = 0 \<and> unat (va - mapped_base m) + 4 \<le> unat (get_total_size d)
      then Some (get_mmap_offset (get_base_addr d) (get_total_size d) + (va - mapped_base m))
      else None)"

definition vload :: "'w bus \<Rightarrow> mem_region \<Rightarrow> memory \<Rightarrow> u32 \<Rightarrow> 'w \<Rightarrow> (u32 \<times> 'w) option" where
  "vload b d m va w = do { pa \<leftarrow> translate d m va; Some (bus_load b pa w) }"

definition vstore :: "'w bus \<Rightarrow> mem_region \<Rightarrow> memory \<Rightarrow> u32 \<Rightarrow> u32 \<Rightarrow> 'w \<Rightarrow> 'w option" where
  "vstore b d m va v w = do { pa \<leftarrow> translate d m va; Some (bus_store b pa v w) }"

subsection \<open>Write functions\<close>

definition write_reg :: "'w bus \<Rightarrow> mem_region \<Rightarrow> memory \<Rightarrow> u32 \<Rightarrow> u32 \<Rightarrow> 'w \<Rightarrow> 'w option" where
  "write_reg b d m offset v w =
     (if is_writable d then vstore b d m (base_address m + offset) v w else None)"

definition mem_write :: "'w bus \<Rightarrow> mem_region \<Rightarrow> memory \<Rightarrow> u32 \<Rightarrow> u32 \<Rightarrow> 'w \<Rightarrow> 'w option" where
  "mem_write b d m offset v w =
     (if offset < get_range d \<and> is_writable d then vstore b d m (base_address m + offset) v w else None)"

text \<open>The loop of \<open>set_ptr\<close> and \<open>set_reg_ptr\<close>; the caller owns \<open>data_ptr[0 .. length data - 1]\<close>.\<close>

definition store_words ::
    "'w bus \<Rightarrow> mem_region \<Rightarrow> memory \<Rightarrow> u32 \<Rightarrow> u32 list \<Rightarrow> u32 \<Rightarrow> 'w \<Rightarrow> 'w option" where
  "store_words b d m addr data buff_size w =
     for_loop 0 (unat buff_size) (\<lambda>i w. if i < length data
        then vstore b d m (addr + 4 * word_of_nat i) (data ! i) w else None) w"

definition set_ptr ::
    "'w bus \<Rightarrow> mem_region \<Rightarrow> memory \<Rightarrow> u32 \<Rightarrow> u32 list \<Rightarrow> u32 \<Rightarrow> u32 \<Rightarrow> 'w \<Rightarrow> 'w option" where
  "set_ptr b d m offset data buff_size block_idx w =
     (if offset < get_range d \<and> is_writable d
      then store_words b d m (base_address m + get_range d * block_idx + offset) data buff_size w
      else None)"

definition set_reg_ptr ::
    "'w bus \<Rightarrow> mem_region \<Rightarrow> memory \<Rightarrow> u32 \<Rightarrow> u32 list \<Rightarrow> u32 \<Rightarrow> 'w \<Rightarrow> 'w option" where
  "set_reg_ptr b d m offset data buff_size w =
     (if is_writable d then store_words b d m (base_address m + offset) data buff_size w else None)"

definition write_array ::
    "'w bus \<Rightarrow> mem_region \<Rightarrow> memory \<Rightarrow> u32 \<Rightarrow> u32 list \<Rightarrow> u32 \<Rightarrow> 'w \<Rightarrow> 'w option" where
  "write_array b d m offset arr block_idx w =
     (if unat offset + 4 * (length arr - 1) < unat (get_range d) \<and> is_writable d
      then set_ptr b d m offset arr (word_of_nat (length arr)) block_idx w else None)"

definition write_reg_array ::
    "'w bus \<Rightarrow> mem_region \<Rightarrow> memory \<Rightarrow> u32 \<Rightarrow> u32 list \<Rightarrow> 'w \<Rightarrow> 'w option" where
  "write_reg_array b d m offset arr w =
     (if is_writable d then set_reg_ptr b d m offset arr (word_of_nat (length arr)) w else None)"

text \<open>Every read-modify-write of the class.\<close>

definition modify ::
    "'w bus \<Rightarrow> mem_region \<Rightarrow> memory \<Rightarrow> u32 \<Rightarrow> (u32 \<Rightarrow> u32) \<Rightarrow> 'w \<Rightarrow> 'w option" where
  "modify b d m addr f w = do { (v, w) \<leftarrow> vload b d m addr w; vstore b d m addr (f v) w }"

definition write_reg_mask ::
    "'w bus \<Rightarrow> mem_region \<Rightarrow> memory \<Rightarrow> u32 \<Rightarrow> u32 \<Rightarrow> u32 \<Rightarrow> 'w \<Rightarrow> 'w option" where
  "write_reg_mask b d m offset msk v w =
     (if is_writable d
      then modify b d m (base_address m + offset) (\<lambda>old. (old AND NOT msk) OR (v AND msk)) w else None)"

definition write_mask ::
    "'w bus \<Rightarrow> mem_region \<Rightarrow> memory \<Rightarrow> u32 \<Rightarrow> u32 \<Rightarrow> u32 \<Rightarrow> 'w \<Rightarrow> 'w option" where
  "write_mask b d m offset msk v w =
     (if offset < get_range d \<and> is_writable d
      then modify b d m (base_address m + offset) (\<lambda>old. (old AND NOT msk) OR (v AND msk)) w else None)"

subsection \<open>Read functions\<close>

definition read_reg :: "'w bus \<Rightarrow> mem_region \<Rightarrow> memory \<Rightarrow> u32 \<Rightarrow> 'w \<Rightarrow> (u32 \<times> 'w) option" where
  "read_reg b d m offset w =
     (if is_readable d then vload b d m (base_address m + offset) w else None)"

definition mem_read :: "'w bus \<Rightarrow> mem_region \<Rightarrow> memory \<Rightarrow> u32 \<Rightarrow> 'w \<Rightarrow> (u32 \<times> 'w) option" where
  "mem_read b d m offset w =
     (if offset < get_range d \<and> is_readable d then vload b d m (base_address m + offset) w else None)"

text \<open>\<open>read<offset, uint64_t>\<close>: the two words of a double word, the low one first.\<close>

definition mem_read64 :: "'w bus \<Rightarrow> mem_region \<Rightarrow> memory \<Rightarrow> u32 \<Rightarrow> 'w \<Rightarrow> (u64 \<times> 'w) option" where
  "mem_read64 b d m offset w =
     (if offset < get_range d \<and> is_readable d then do {
        (lo, w) \<leftarrow> vload b d m (base_address m + offset) w;
        (hi, w) \<leftarrow> vload b d m (base_address m + offset + 4) w;
        Some (ucast lo + push_bit 32 (ucast hi), w) }
      else None)"

definition get_ptr :: "mem_region \<Rightarrow> memory \<Rightarrow> u32 \<Rightarrow> u32 \<Rightarrow> u32 option" where
  "get_ptr d m offset block_idx =
     (if offset < get_range d \<and> is_readable d
      then Some (base_address m + get_range d * block_idx + offset) else None)"

definition get_reg_ptr :: "mem_region \<Rightarrow> memory \<Rightarrow> u32 \<Rightarrow> u32 option" where
  "get_reg_ptr d m offset = (if is_readable d then Some (base_address m + offset) else None)"

text \<open>The \<open>n\<close> words behind a pointer to a \<open>std::array\<close>, read when the caller copies it.\<close>

fun load_words :: "'w bus \<Rightarrow> mem_region \<Rightarrow> memory \<Rightarrow> u32 \<Rightarrow> nat \<Rightarrow> 'w \<Rightarrow> (u32 list \<times> 'w) option" where
  "load_words b d m addr 0 w = Some ([], w)"
| "load_words b d m addr (Suc n) w = do {
     (v, w) \<leftarrow> vload b d m addr w;
     (vs, w) \<leftarrow> load_words b d m (addr + 4) n w;
     Some (v # vs, w) }"

definition read_array ::
    "'w bus \<Rightarrow> mem_region \<Rightarrow> memory \<Rightarrow> nat \<Rightarrow> u32 \<Rightarrow> u32 \<Rightarrow> 'w \<Rightarrow> (u32 list \<times> 'w) option" where
  "read_array b d m N offset block_idx w =
     (if unat offset + 4 * (N - 1) < unat (get_range d * get_n_blocks d) \<and> is_readable d
      then do { p \<leftarrow> get_ptr d m offset block_idx; load_words b d m p N w } else None)"

definition read_array_value_at_index ::
    "'w bus \<Rightarrow> mem_region \<Rightarrow> memory \<Rightarrow> nat \<Rightarrow> u32 \<Rightarrow> u32 \<Rightarrow> u32 \<Rightarrow> 'w \<Rightarrow> (u32 \<times> 'w) option" where
  "read_array_value_at_index b d m N offset index block_idx w =
     (if unat offset + 4 * (N - 1) < unat (get_range d * get_n_blocks d) \<and> is_readable d
      then do { p \<leftarrow> get_ptr d m offset block_idx; vload b d m (p + 4 * index) w } else None)"

definition read_first_array_value ::
    "'w bus \<Rightarrow> mem_region \<Rightarrow> memory \<Rightarrow> u32 \<Rightarrow> u32 \<Rightarrow> 'w \<Rightarrow> (u32 \<times> 'w) option" where
  "read_first_array_value b d m offset block_idx w =
     (if offset < get_range d \<and> 4 \<le> get_range d * get_n_blocks d \<and> is_readable d
      then do { p \<leftarrow> get_ptr d m offset block_idx; vload b d m p w } else None)"

definition read_reg_array ::
    "'w bus \<Rightarrow> mem_region \<Rightarrow> memory \<Rightarrow> nat \<Rightarrow> u32 \<Rightarrow> 'w \<Rightarrow> (u32 list \<times> 'w) option" where
  "read_reg_array b d m N offset w =
     (if is_readable d then do { p \<leftarrow> get_reg_ptr d m offset; load_words b d m p N w } else None)"

subsection \<open>Bit manipulation\<close>

text \<open>\<open>1U << index\<close>, undefined from 32 on.\<close>

definition bit_at :: "u32 \<Rightarrow> u32 option" where
  "bit_at index = (if index < 32 then Some (push_bit (unat index) 1) else None)"

definition set_bit_reg :: "'w bus \<Rightarrow> mem_region \<Rightarrow> memory \<Rightarrow> u32 \<Rightarrow> u32 \<Rightarrow> 'w \<Rightarrow> 'w option" where
  "set_bit_reg b d m offset index w =
     (if is_writable d
      then do { k \<leftarrow> bit_at index; modify b d m (base_address m + offset) (\<lambda>v. v OR k) w } else None)"

definition mem_set_bit :: "'w bus \<Rightarrow> mem_region \<Rightarrow> memory \<Rightarrow> u32 \<Rightarrow> u32 \<Rightarrow> 'w \<Rightarrow> 'w option" where
  "mem_set_bit b d m offset index w =
     (if offset < get_range d \<and> is_writable d
      then do { k \<leftarrow> bit_at index; modify b d m (base_address m + offset) (\<lambda>v. v OR k) w } else None)"

definition clear_bit_reg :: "'w bus \<Rightarrow> mem_region \<Rightarrow> memory \<Rightarrow> u32 \<Rightarrow> u32 \<Rightarrow> 'w \<Rightarrow> 'w option" where
  "clear_bit_reg b d m offset index w =
     (if is_writable d
      then do { k \<leftarrow> bit_at index; modify b d m (base_address m + offset) (\<lambda>v. v AND NOT k) w } else None)"

definition mem_clear_bit :: "'w bus \<Rightarrow> mem_region \<Rightarrow> memory \<Rightarrow> u32 \<Rightarrow> u32 \<Rightarrow> 'w \<Rightarrow> 'w option" where
  "mem_clear_bit b d m offset index w =
     (if offset < get_range d \<and> is_writable d
      then do { k \<leftarrow> bit_at index; modify b d m (base_address m + offset) (\<lambda>v. v AND NOT k) w } else None)"

definition toggle_bit_reg :: "'w bus \<Rightarrow> mem_region \<Rightarrow> memory \<Rightarrow> u32 \<Rightarrow> u32 \<Rightarrow> 'w \<Rightarrow> 'w option" where
  "toggle_bit_reg b d m offset index w =
     (if is_writable d
      then do { k \<leftarrow> bit_at index; modify b d m (base_address m + offset) (\<lambda>v. v XOR k) w } else None)"

definition mem_toggle_bit :: "'w bus \<Rightarrow> mem_region \<Rightarrow> memory \<Rightarrow> u32 \<Rightarrow> u32 \<Rightarrow> 'w \<Rightarrow> 'w option" where
  "mem_toggle_bit b d m offset index w =
     (if offset < get_range d \<and> is_writable d
      then do { k \<leftarrow> bit_at index; modify b d m (base_address m + offset) (\<lambda>v. v XOR k) w } else None)"

definition mem_write_bit :: "'w bus \<Rightarrow> mem_region \<Rightarrow> memory \<Rightarrow> u32 \<Rightarrow> u32 \<Rightarrow> bool \<Rightarrow> 'w \<Rightarrow> 'w option" where
  "mem_write_bit b d m offset index v w =
     (if offset < get_range d \<and> is_writable d
      then (if v then mem_set_bit b d m offset index w else mem_clear_bit b d m offset index w) else None)"

definition write_bit_reg :: "'w bus \<Rightarrow> mem_region \<Rightarrow> memory \<Rightarrow> u32 \<Rightarrow> u32 \<Rightarrow> bool \<Rightarrow> 'w \<Rightarrow> 'w option" where
  "write_bit_reg b d m offset index v w =
     (if is_writable d
      then (if v then set_bit_reg b d m offset index w else clear_bit_reg b d m offset index w) else None)"

definition mem_read_bit :: "'w bus \<Rightarrow> mem_region \<Rightarrow> memory \<Rightarrow> u32 \<Rightarrow> u32 \<Rightarrow> 'w \<Rightarrow> (bool \<times> 'w) option" where
  "mem_read_bit b d m offset index w =
     (if offset < get_range d \<and> is_readable d then do {
        k \<leftarrow> bit_at index; (v, w) \<leftarrow> vload b d m (base_address m + offset) w; Some (v AND k \<noteq> 0, w) }
      else None)"

definition read_bit_reg :: "'w bus \<Rightarrow> mem_region \<Rightarrow> memory \<Rightarrow> u32 \<Rightarrow> u32 \<Rightarrow> 'w \<Rightarrow> (bool \<times> 'w) option" where
  "read_bit_reg b d m offset index w =
     (if is_readable d then do {
        k \<leftarrow> bit_at index; (v, w) \<leftarrow> vload b d m (base_address m + offset) w; Some (v AND k \<noteq> 0, w) }
      else None)"

section \<open>Where a register is\<close>

text \<open>What is known of a mapping that was opened: \<open>k\<close> is the logarithm of its size.\<close>

definition mapped :: "mem_region \<Rightarrow> memory \<Rightarrow> nat \<Rightarrow> bool" where
  "mapped d m k \<longleftrightarrow> is_opened m \<and> k < 32 \<and> get_total_size d = 2 ^ k \<and>
     unat (mapped_base m) mod 4 = 0 \<and> unat (get_base_addr d) mod 4 = 0 \<and>
     base_address m = mapped_base m + (get_base_addr d AND (get_total_size d - 1))"

text \<open>\<open>mmap\<close> returns page-aligned addresses.\<close>

definition page_aligned :: "'w mmap_call \<Rightarrow> bool" where
  "page_aligned mmap \<longleftrightarrow> (\<forall>sz pr off w. fst (mmap sz pr off w) \<noteq> - 1 \<longrightarrow>
     unat (fst (mmap sz pr off w)) mod 4096 = 0)"

lemma mem_open_mapped:
  assumes "page_aligned mmap" and "mem_open mmap d m0 w = (m, w')" and "is_opened m"
    and "get_total_size d = 2 ^ k" and "k < 32" and "unat (get_base_addr d) mod 4 = 0"
  shows "mapped d m k"
proof -
  let ?r = "mmap (get_total_size d) (get_protection d) (get_mmap_offset (get_base_addr d) (get_total_size d)) w"
  have ne: "fst ?r \<noteq> - 1" using assms(2,3) by (auto simp: mem_open_def Let_def split: prod.splits if_splits)
  then have m: "m = m0\<lparr>mapped_base := fst ?r, is_opened := True,
      base_address := fst ?r + (get_base_addr d AND (get_total_size d - 1))\<rparr>"
    using assms(2) by (auto simp: mem_open_def Let_def split: prod.splits if_splits)
  have "unat (fst ?r) mod 4096 mod 4 = 0"
    using assms(1) ne unfolding page_aligned_def by simp
  then have "unat (fst ?r) mod 4 = 0" by (simp add: mod_mod_cancel)
  then show ?thesis using assms by (simp add: mapped_def m)
qed

lemma mod4_plus: "unat (x + y :: u32) mod 4 = (unat x mod 4 + unat y mod 4) mod 4"
  by (simp add: unat_word_ariths mod_mod_cancel mod_simps)

lemma mmap_offset_plus: "get_mmap_offset a s + (a AND (s - 1)) = a"
proof -
  have "get_mmap_offset a s + (a AND (s - 1)) = get_mmap_offset a s OR (a AND (s - 1))"
    by (rule disjunctive_add) (auto simp: bit_simps get_mmap_offset_def)
  also have "\<dots> = a"
    by (rule bit_word_eqI) (auto simp: bit_simps get_mmap_offset_def)
  finally show ?thesis .
qed

lemma unat_pow2: "k < 32 \<Longrightarrow> unat (2 ^ k :: u32) = 2 ^ k"
  by transfer (simp add: take_bit_int_eq_self_iff nat_power_eq power_strict_increasing)

lemma and_pow2: "k < 32 \<Longrightarrow> unat (a AND (2 ^ k - 1) :: u32) = unat a mod 2 ^ k"
proof -
  assume "k < 32"
  then have "uint (take_bit k a) = uint a mod 2 ^ k"
    by transfer (simp add: take_bit_eq_mod [symmetric] min_def)
  then have "int (unat (take_bit k a)) = int (unat a mod 2 ^ k)"
    by (simp only: uint_nat zmod_int of_nat_power of_nat_numeral)
  then have "unat (take_bit k a) = unat a mod 2 ^ k" by (simp only: of_nat_eq_iff)
  then show ?thesis by (simp flip: mask_eq_exp_minus_1 take_bit_eq_mask)
qed

lemma translate_mapped:
  assumes "mapped d m k" and "unat offset < 2 ^ k"
  shows "translate d m (base_address m + offset) =
    (if unat offset mod 4 = 0 \<and> unat (get_base_addr d) mod 2 ^ k + unat offset + 4 \<le> 2 ^ k
     then Some (get_base_addr d + offset) else None)"
proof -
  let ?lo = "get_base_addr d AND (get_total_size d - 1)"
  have k: "k < 32" "get_total_size d = 2 ^ k" and op: "is_opened m"
    and al: "unat (mapped_base m) mod 4 = 0" "unat (get_base_addr d) mod 4 = 0"
    and ba: "base_address m = mapped_base m + ?lo"
    using assms(1) by (simp_all add: mapped_def)
  have sz: "unat (get_total_size d) = 2 ^ k" using k by (simp add: unat_pow2)
  have lo: "unat ?lo = unat (get_base_addr d) mod 2 ^ k" using k by (simp add: and_pow2)
  have "(2::nat) ^ k \<le> 2 ^ 31" by (rule power_increasing) (use k in simp_all)
  moreover have "unat ?lo < 2 ^ k" by (simp add: lo)
  ultimately have "unat ?lo + unat offset < 2 ^ 31 + 2 ^ 31" using assms(2) by linarith
  then have sum: "unat (?lo + offset) = unat (get_base_addr d) mod 2 ^ k + unat offset"
    using lo by (simp add: unat_add_lem [THEN iffD1])
  have dvd: "4 \<le> (2::nat) ^ k \<Longrightarrow> (4::nat) dvd 2 ^ k"
  proof -
    assume "4 \<le> (2::nat) ^ k"
    then have "2 \<le> k" by (cases "k = 0 \<or> k = 1") (auto simp: numeral_2_eq_2)
    then show ?thesis using le_imp_power_dvd [of 2 k "2::nat"] by simp
  qed
  have lo4: "4 \<le> (2::nat) ^ k \<Longrightarrow> unat ?lo mod 4 = 0"
    using al(2) by (simp add: lo mod_mod_cancel dvd)
  have va: "mapped_base m + ?lo + offset - mapped_base m = ?lo + offset" by simp
  have al4: "unat (mapped_base m + ?lo + offset) mod 4 = (unat ?lo mod 4 + unat offset mod 4) mod 4"
    using al(1) by (simp add: mod4_plus mod_simps)
  have "get_mmap_offset (get_base_addr d) (get_total_size d) + (?lo + offset) = get_base_addr d + offset"
    using mmap_offset_plus [of "get_base_addr d" "get_total_size d"] by (simp add: add.assoc [symmetric])
  then show ?thesis
    unfolding translate_def ba va al4 sum sz using op lo4 by auto
qed

text \<open>The registers an access can reach: word offsets that leave room for the word.\<close>

definition in_map :: "mem_region \<Rightarrow> nat \<Rightarrow> u32 \<Rightarrow> bool" where
  "in_map d k offset \<longleftrightarrow>
     unat offset mod 4 = 0 \<and> unat (get_base_addr d) mod 2 ^ k + unat offset + 4 \<le> 2 ^ k"

lemma translate_in_map:
  "mapped d m k \<Longrightarrow> in_map d k offset \<Longrightarrow>
    translate d m (base_address m + offset) = Some (get_base_addr d + offset)"
  using translate_mapped [of d m k offset] by (simp add: in_map_def)

lemma unat_word_index:
  assumes "unat q + 4 * n \<le> 2 ^ k" and "k < 32" and "j < n"
  shows "unat (q + 4 * word_of_nat j :: u32) = unat q + 4 * j"
proof -
  have "(2::nat) ^ k \<le> 2 ^ 31" by (rule power_increasing) (use assms(2) in simp_all)
  then have lt: "unat q + 4 * j < 2 ^ LENGTH(32)" using assms(1,3) by simp
  have "q + 4 * word_of_nat j = (word_of_nat (unat q + 4 * j) :: u32)" by simp
  then show ?thesis using lt by (simp only: unat_of_nat mod_less)
qed

lemma in_map_index:
  assumes "unat (get_base_addr d) mod 2 ^ k + (unat q + 4 * n) \<le> 2 ^ k" and "k < 32" and "j < n"
    and "unat q mod 4 = 0"
  shows "in_map d k (q + 4 * word_of_nat j)"
proof -
  have "unat (q + 4 * word_of_nat j) = unat q + 4 * j"
    by (rule unat_word_index [where n = n and k = k]) (use assms in simp_all)
  then show ?thesis using assms by (simp add: in_map_def mod_add_eq [symmetric])
qed

section \<open>Registers that keep their value\<close>

text \<open>
  The contract of plain storage, which RAM, block RAM and the control registers of the FPGA fulfil:
  a load returns the word last stored and changes nothing. It is promised for the addresses
  \<open>R\<close> only, the rest of the bus may do as it likes.
\<close>

locale storage =
  fixes b :: "'w bus" and peek :: "'w \<Rightarrow> u32 \<Rightarrow> u32" and R :: "u32 set"
  assumes bus_load_storage: "a \<in> R \<Longrightarrow> bus_load b a w = (peek w a, w)"
    and bus_store_storage: "a \<in> R \<Longrightarrow> a' \<in> R \<Longrightarrow>
      peek (bus_store b a v w) a' = (if a' = a then v else peek w a')"
begin

lemma vload_storage:
  "translate d m va = Some a \<Longrightarrow> a \<in> R \<Longrightarrow> vload b d m va w = Some (peek w a, w)"
  by (simp add: vload_def bus_load_storage)

lemma modify_storage:
  "translate d m va = Some a \<Longrightarrow> a \<in> R \<Longrightarrow>
    modify b d m va f w = Some (bus_store b a (f (peek w a)) w)"
  by (simp add: modify_def vload_storage vstore_def)

lemma read_bit_storage:
  assumes "translate d m (base_address m + offset) = Some a" and "a \<in> R" and "is_readable d" and "j < 32"
  shows "read_bit_reg b d m offset j w = Some (bit (peek w a) (unat j), w)"
proof -
  have "(v AND push_bit (unat j) 1 \<noteq> 0) = bit v (unat j)" for v :: u32
    by (simp add: bit_iff_and_push_bit_not_eq_0)
  then show ?thesis using assms by (simp add: read_bit_reg_def bit_at_def vload_storage)
qed

lemma modify_bit_storage:
  assumes "translate d m (base_address m + offset) = Some a" and "a \<in> R" and "is_readable d" and "j < 32"
    and "\<And>v. bit (f v) (unat j) = g (bit v (unat j))"
  shows "\<exists>w'. modify b d m (base_address m + offset) f w = Some w' \<and>
    read_bit_reg b d m offset j w' = Some (g (bit (peek w a) (unat j)), w') \<and>
    (\<forall>a' \<in> R. a' \<noteq> a \<longrightarrow> peek w' a' = peek w a')"
  using assms by (simp add: modify_storage read_bit_storage bus_store_storage)

lemma store_words_storage:
  assumes tr: "\<And>j. j < n \<Longrightarrow> translate d m (addr + 4 * word_of_nat j) = Some (pa j)"
    and R: "\<And>j. j < n \<Longrightarrow> pa j \<in> R" and inj: "inj_on pa {..<n}"
    and n: "unat buff_size = n" "n \<le> length data"
  shows "\<exists>w'. store_words b d m addr data buff_size w = Some w' \<and>
    (\<forall>j < n. peek w' (pa j) = data ! j) \<and> (\<forall>a \<in> R. a \<notin> pa ` {..<n} \<longrightarrow> peek w' a = peek w a)"
proof -
  let ?I = "\<lambda>i w'. (\<forall>j < i. peek w' (pa j) = data ! j) \<and>
      (\<forall>a \<in> R. a \<notin> pa ` {..<i} \<longrightarrow> peek w' a = peek w a)"
  have "\<exists>w'. for_loop 0 n (\<lambda>i w. if i < length data
      then vstore b d m (addr + 4 * word_of_nat i) (data ! i) w else None) w = Some w' \<and> ?I n w'"
  proof (rule for_loop_inv [where I = ?I])
    fix i w1 assume i: "i < n" and I: "?I i w1"
    have ne: "pa j \<noteq> pa i" if "j < i" for j using that i inj by (auto simp: inj_on_def)
    have "?I (Suc i) (bus_store b (pa i) (data ! i) w1)"
      using I R i ne by (auto simp: bus_store_storage less_Suc_eq)
    then show "\<exists>s'. (if i < length data then vstore b d m (addr + 4 * word_of_nat i) (data ! i) w1 else None)
        = Some s' \<and> ?I (Suc i) s'"
      using i n tr by (simp add: vstore_def)
  qed simp_all
  then show ?thesis using n by (simp add: store_words_def)
qed

lemma load_words_storage:
  assumes "\<And>j. j < n \<Longrightarrow> translate d m (addr + 4 * word_of_nat j) = Some (pa j)"
    and "\<And>j. j < n \<Longrightarrow> pa j \<in> R"
  shows "load_words b d m addr n w = Some (map (\<lambda>j. peek w (pa j)) [0..<n], w)"
  using assms
proof (induction n arbitrary: addr pa)
  case (Suc n)
  have 0: "translate d m addr = Some (pa 0)" using Suc.prems(1) [of 0] by simp
  have "load_words b d m (addr + 4) n w = Some (map (\<lambda>j. peek w (pa (Suc j))) [0..<n], w)"
  proof (rule Suc.IH)
    fix j assume "j < n"
    then show "translate d m (addr + 4 + 4 * word_of_nat j) = Some (pa (Suc j))"
      using Suc.prems(1) [of "Suc j"] by (simp add: distrib_left add.assoc)
  qed (use Suc.prems(2) in simp)
  moreover have "[0..<Suc n] = 0 # map Suc [0..<n]" by (simp add: upt_conv_Cons map_Suc_upt del: upt_Suc)
  ultimately show ?case
    using 0 Suc.prems(2) by (simp add: vload_storage del: upt_Suc)
qed simp

end

text \<open>Plain memory is such a storage, at every address.\<close>

definition ram_bus :: "(u32 \<Rightarrow> u32) bus" where
  "ram_bus = \<lparr>bus_load = (\<lambda>a w. (w a, w)), bus_store = (\<lambda>a v w. w(a := v))\<rparr>"

interpretation ram: storage ram_bus "\<lambda>w. w" UNIV
  by unfold_locales (simp_all add: ram_bus_def)

section \<open>Properties\<close>

lemma compile_time_variants:
  assumes "offset < get_range d"
  shows "mem_set_bit b d m offset i w = set_bit_reg b d m offset i w"
    and "mem_clear_bit b d m offset i w = clear_bit_reg b d m offset i w"
    and "mem_toggle_bit b d m offset i w = toggle_bit_reg b d m offset i w"
    and "mem_read_bit b d m offset i w = read_bit_reg b d m offset i w"
    and "mem_write_bit b d m offset i v w = write_bit_reg b d m offset i v w"
    and "mem_write b d m offset x w = write_reg b d m offset x w"
    and "mem_read b d m offset w = read_reg b d m offset w"
    and "write_mask b d m offset x y w = write_reg_mask b d m offset x y w"
  using assms
  by (simp_all add: mem_set_bit_def set_bit_reg_def mem_clear_bit_def clear_bit_reg_def mem_toggle_bit_def
      toggle_bit_reg_def mem_read_bit_def read_bit_reg_def mem_write_bit_def write_bit_reg_def
      mem_write_def write_reg_def mem_read_def read_reg_def write_mask_def write_reg_mask_def)

text \<open>
  C29: after a successful \<open>open\<close> of a region whose size is a power of two, the register at
  \<open>offset\<close> is the physical word \<open>phys_addr + offset\<close>, although \<open>mmap\<close> gets the address rounded down
  to a multiple of the size; the registers past \<open>size - phys_addr mod size\<close> are outside the mapping.
\<close>
theorem register_address:
  assumes "page_aligned mmap" and "mem_open mmap d m0 w = (m, w')" and "is_opened m"
    and "get_total_size d = 2 ^ k" and "k < 32" and "unat (get_base_addr d) mod 4 = 0"
    and "unat offset < 2 ^ k"
  shows "translate d m (base_address m + offset) =
    (if unat offset mod 4 = 0 \<and> unat (get_base_addr d) mod 2 ^ k + unat offset + 4 \<le> 2 ^ k
     then Some (get_base_addr d + offset) else None)"
  using mem_open_mapped [OF assms(1-6)] assms(7) by (rule translate_mapped)

definition sample_region :: mem_region where
  "sample_region = \<lparr>md_addr = 0x40000000, md_range = 0x1000, md_prot = PROT_READ OR PROT_WRITE, md_nblocks = 1\<rparr>"

definition sample_mmap :: "unit mmap_call" where
  "sample_mmap sz pr off w = (0x76f00000, w)"

definition sample_map :: memory where
  "sample_map = fst (mem_open sample_mmap sample_region new_memory ())"

lemmas sample_eval = sample_map_def sample_region_def sample_mmap_def mem_open_def new_memory_def
  get_base_addr_def get_total_size_def get_range_def get_n_blocks_def get_protection_def
  PROT_READ_def PROT_WRITE_def is_writable_def is_readable_def

lemma sample_mapped: "mapped sample_region sample_map 12"
  by (simp add: mapped_def sample_eval)

theorem register_address_witness:
  "translate sample_region sample_map (base_address sample_map + 0x1c) = Some 0x4000001c"
  using register_address [of sample_mmap sample_region new_memory "()" sample_map "()" 12 "0x1c"]
  by (simp add: page_aligned_def sample_eval)

text \<open>
  The outcome \<open>r\<close> of an operation on the register at \<open>offset\<close>: it returns, \<open>read_bit\<close> then gives
  \<open>v\<close> for bit \<open>j\<close>, and no other register has changed.
\<close>

definition leaves_bit :: "'w bus \<Rightarrow> ('w \<Rightarrow> u32 \<Rightarrow> u32) \<Rightarrow> u32 set \<Rightarrow> mem_region \<Rightarrow> memory \<Rightarrow> u32 \<Rightarrow> u32 \<Rightarrow>
    'w \<Rightarrow> 'w option \<Rightarrow> bool \<Rightarrow> bool" where
  "leaves_bit b peek R d m offset j w r v \<longleftrightarrow> (\<exists>w'. r = Some w' \<and>
     read_bit_reg b d m offset j w' = Some (v, w') \<and>
     (\<forall>a \<in> R. a \<noteq> get_base_addr d + offset \<longrightarrow> peek w' a = peek w a))"

lemma bit_operations_parts:
  assumes "storage b peek R" and "mapped d m k" and "in_map d k offset"
    and "is_writable d" and "is_readable d" and "get_base_addr d + offset \<in> R" and "i < 32" and "j < 32"
    and "old = peek w (get_base_addr d + offset)"
  shows "leaves_bit b peek R d m offset j w (set_bit_reg b d m offset i w) (j = i \<or> bit old (unat j))"
    and "leaves_bit b peek R d m offset j w (clear_bit_reg b d m offset i w) (j \<noteq> i \<and> bit old (unat j))"
    and "leaves_bit b peek R d m offset j w (toggle_bit_reg b d m offset i w) ((j = i) \<noteq> bit old (unat j))"
    and "leaves_bit b peek R d m offset j w (write_bit_reg b d m offset i v w)
           (if j = i then v else bit old (unat j))"
    and "leaves_bit b peek R d m offset j w (write_reg_mask b d m offset msk x w)
           (bit (if bit msk (unat j) then x else old) (unat j))"
proof -
  note tr = translate_in_map [OF assms(2,3)]
  note mb = storage.modify_bit_storage [OF assms(1) tr assms(6,5,8), of _ _ w,
      folded assms(9) leaves_bit_def [of b peek R d m offset j w]]
  have j: "unat j < 32" using assms(8) by (simp add: word_less_nat_alt)
  have k: "bit (push_bit (unat i) (1 :: u32)) (unat j) = (j = i)"
    using j by (auto simp: bit_simps word_unat_eq_iff)
  show s: "leaves_bit b peek R d m offset j w (set_bit_reg b d m offset i w) (j = i \<or> bit old (unat j))"
    using mb [of "\<lambda>v. v OR push_bit (unat i) 1" "\<lambda>v. j = i \<or> v"] assms(4,7) k
    by (auto simp: set_bit_reg_def bit_at_def bit_or_iff)
  show c: "leaves_bit b peek R d m offset j w (clear_bit_reg b d m offset i w) (j \<noteq> i \<and> bit old (unat j))"
    using mb [of "\<lambda>v. v AND NOT (push_bit (unat i) 1)" "\<lambda>v. j \<noteq> i \<and> v"] assms(4,7) k j
    by (auto simp: clear_bit_reg_def bit_at_def bit_and_iff bit_not_iff)
  show "leaves_bit b peek R d m offset j w (toggle_bit_reg b d m offset i w) ((j = i) \<noteq> bit old (unat j))"
    using mb [of "\<lambda>v. v XOR push_bit (unat i) 1" "\<lambda>v. (j = i) \<noteq> v"] assms(4,7) k
    by (auto simp: toggle_bit_reg_def bit_at_def bit_xor_iff)
  show "leaves_bit b peek R d m offset j w (write_bit_reg b d m offset i v w)
      (if j = i then v else bit old (unat j))"
    using s c assms(4) by (cases v; cases "j = i") (simp_all add: write_bit_reg_def)
  show "leaves_bit b peek R d m offset j w (write_reg_mask b d m offset msk x w)
      (bit (if bit msk (unat j) then x else old) (unat j))"
    using mb [of "\<lambda>old. (old AND NOT msk) OR (x AND msk)"
        "\<lambda>v. if bit msk (unat j) then bit x (unat j) else v"] assms(4) j
    by (cases "bit msk (unat j)") (simp_all add: write_reg_mask_def bit_or_iff bit_and_iff bit_not_iff)
qed

text \<open>
  C30: on registers that keep their value, \<open>set_bit\<close>, \<open>clear_bit\<close>, \<open>toggle_bit\<close>,
  \<open>write_bit\<close> and \<open>write_mask\<close> change exactly the bits they name, as \<open>read_bit\<close> sees them, and no
  other register.
\<close>
theorem bit_operations:
  assumes "storage b peek R" and "mapped d m k" and "in_map d k offset"
    and "is_writable d" and "is_readable d" and "get_base_addr d + offset \<in> R" and "i < 32" and "j < 32"
    and "old = peek w (get_base_addr d + offset)"
  shows "leaves_bit b peek R d m offset j w (set_bit_reg b d m offset i w) (j = i \<or> bit old (unat j)) \<and>
    leaves_bit b peek R d m offset j w (clear_bit_reg b d m offset i w) (j \<noteq> i \<and> bit old (unat j)) \<and>
    leaves_bit b peek R d m offset j w (toggle_bit_reg b d m offset i w) ((j = i) \<noteq> bit old (unat j)) \<and>
    leaves_bit b peek R d m offset j w (write_bit_reg b d m offset i v w) (if j = i then v else bit old (unat j)) \<and>
    leaves_bit b peek R d m offset j w (write_reg_mask b d m offset msk x w)
      (bit (if bit msk (unat j) then x else old) (unat j))"
  by (intro conjI bit_operations_parts [OF assms])

theorem bit_operations_witness:
  "leaves_bit ram_bus (\<lambda>w. w) UNIV sample_region sample_map 0x1c 5 (\<lambda>a. 9)
     (set_bit_reg ram_bus sample_region sample_map 0x1c 5 (\<lambda>a. 9)) True"
  using bit_operations [of ram_bus "\<lambda>w. w" UNIV sample_region sample_map 12 "0x1c" 5 5 9 "\<lambda>a. 9" True 0 0,
      OF ram.storage_axioms sample_mapped]
  by (simp add: in_map_def sample_eval)

lemma block_room:
  assumes "k < 32" and "block_idx < get_n_blocks d" and "unat (get_range d) * unat (get_n_blocks d) = 2 ^ k"
    and "unat (get_range d) mod 4 = 0" and "unat offset mod 4 = 0"
    and "unat offset + 4 * n \<le> unat (get_range d)"
  defines "q \<equiv> get_range d * block_idx + offset"
  shows "unat q + 4 * n \<le> 2 ^ k" and "unat q mod 4 = 0" and "unat (get_range d) \<le> 2 ^ k" and "n < 2 ^ 31"
proof -
  have "unat block_idx + 1 \<le> unat (get_n_blocks d)" using assms(2) by (simp add: word_less_nat_alt)
  then have "unat (get_range d) * (unat block_idx + 1) \<le> unat (get_range d) * unat (get_n_blocks d)"
    by (rule mult_le_mono2)
  then have bnd: "unat (get_range d) * unat block_idx + unat (get_range d) \<le> 2 ^ k"
    using assms(3) by simp
  have p31: "(2::nat) ^ k \<le> 2 ^ 31" by (rule power_increasing) (use assms(1) in simp_all)
  have "q = word_of_nat (unat (get_range d) * unat block_idx + unat offset)" by (simp add: q_def)
  moreover have "unat (get_range d) * unat block_idx + unat offset < 2 ^ LENGTH(32)"
    using bnd p31 assms(6) by simp
  ultimately have q: "unat q = unat (get_range d) * unat block_idx + unat offset"
    by (simp only: unat_of_nat mod_less)
  show "unat q + 4 * n \<le> 2 ^ k" using bnd assms(6) q by simp
  have "4 dvd unat (get_range d) * unat block_idx + unat offset"
    using assms(4,5) by (simp add: mod_eq_0_iff_dvd)
  then show "unat q mod 4 = 0" by (simp add: q mod_eq_0_iff_dvd)
  show "unat (get_range d) \<le> 2 ^ k" using bnd by simp
  then have "4 * n \<le> 2 ^ 31" using p31 assms(6) by linarith
  then show "n < 2 ^ 31" by simp
qed

lemma inj_word_index:
  assumes "unat q + 4 * n \<le> 2 ^ k" and "k < 32"
  shows "inj_on (\<lambda>j. start + q + 4 * word_of_nat j :: u32) {..<n}"
proof (rule inj_onI)
  fix i j assume ij: "i \<in> {..<n}" "j \<in> {..<n}" "start + q + 4 * word_of_nat i = start + q + 4 * word_of_nat j"
  then have "start + (q + 4 * word_of_nat i) = start + (q + 4 * word_of_nat j)"
    by (simp only: add.assoc)
  then have "q + 4 * word_of_nat i = q + 4 * word_of_nat j" by (simp only: add_left_cancel)
  then have "unat (q + 4 * word_of_nat i) = unat (q + 4 * word_of_nat j)" by (rule arg_cong)
  then have "unat q + 4 * i = unat q + 4 * j"
    using ij(1,2) unat_word_index [OF assms, of i] unat_word_index [OF assms, of j] by (simp only: lessThan_iff)
  then show "i = j" by simp
qed

text \<open>A block that is filled and read back.\<close>

lemma set_ptr_read_array:
  assumes st: "storage b peek R" and mp: "mapped d m k" and rw: "is_writable d" "is_readable d"
    and al: "unat (get_base_addr d) mod 2 ^ k = 0" "unat (get_range d) mod 4 = 0" "unat offset mod 4 = 0"
    and blk: "block_idx < get_n_blocks d" "unat (get_range d) * unat (get_n_blocks d) = 2 ^ k"
    and fits: "arr \<noteq> []" "unat offset + 4 * length arr \<le> unat (get_range d)"
    and start: "start = get_base_addr d + get_range d * block_idx + offset"
    and R: "\<And>j. j < length arr \<Longrightarrow> start + 4 * word_of_nat j \<in> R"
  shows "\<exists>w'. set_ptr b d m offset arr (word_of_nat (length arr)) block_idx w = Some w' \<and>
    read_array b d m (length arr) offset block_idx w' = Some (arr, w') \<and>
    (\<forall>j < length arr. peek w' (start + 4 * word_of_nat j) = arr ! j) \<and>
    (\<forall>a \<in> R. a \<notin> (\<lambda>j. start + 4 * word_of_nat j) ` {..<length arr} \<longrightarrow> peek w' a = peek w a)"
proof -
  let ?n = "length arr" and ?q = "get_range d * block_idx + offset"
  let ?pa = "\<lambda>j. start + 4 * word_of_nat j" and ?va = "base_address m + get_range d * block_idx + offset"
  have k: "k < 32" using mp by (simp add: mapped_def)
  note room = block_room [OF k blk al(2,3) fits(2)]
  have tr: "translate d m (?va + 4 * word_of_nat j) = Some (?pa j)" if "j < ?n" for j
  proof -
    have "in_map d k (?q + 4 * word_of_nat j)"
      by (rule in_map_index [where n = ?n]) (use room that k al(1) in simp_all)
    from translate_in_map [OF mp this] show ?thesis by (simp add: start add.assoc)
  qed
  have inj: "inj_on ?pa {..<?n}"
    using inj_word_index [OF room(1) k, of "get_base_addr d"] by (simp only: start add.assoc)
  have "?n < 2 ^ LENGTH(32)" using room(4) by simp
  then have n: "unat (word_of_nat ?n :: u32) = ?n" by (simp only: unat_of_nat mod_less)
  obtain w' where w': "store_words b d m ?va arr (word_of_nat ?n) w = Some w'"
    "\<forall>j < ?n. peek w' (?pa j) = arr ! j" "\<forall>a \<in> R. a \<notin> ?pa ` {..<?n} \<longrightarrow> peek w' a = peek w a"
    using storage.store_words_storage [OF st tr R inj n order_refl, of w] by blast
  have "map (\<lambda>j. peek w' (?pa j)) [0..<?n] = arr"
    by (rule nth_equalityI) (use w'(2) in simp_all)
  then have ld: "load_words b d m ?va ?n w' = Some (arr, w')"
    using storage.load_words_storage [OF st tr R, where w = w'] by simp
  have lt: "unat offset + 4 * (?n - 1) < unat (get_range d)"
    using fits by (cases arr) simp_all
  then have lto: "offset < get_range d" by (simp add: word_less_nat_alt)
  have tot: "unat (get_range d * get_n_blocks d) = 2 ^ k"
    using mp k by (simp add: mapped_def get_total_size_def unat_pow2)
  show ?thesis
    using w' ld lt lto rw tot room(3) by (simp add: set_ptr_def read_array_def get_ptr_def)
qed

text \<open>
  C31: \<open>write_array\<close> followed by \<open>read_array\<close> of the same block returns the array, when the region is
  aligned to its size and the array fits in the block; no word outside the array has changed.
\<close>
theorem array_round_trip:
  assumes st: "storage b peek R" and mp: "mapped d m k" and rw: "is_writable d" "is_readable d"
    and al: "unat (get_base_addr d) mod 2 ^ k = 0" "unat (get_range d) mod 4 = 0" "unat offset mod 4 = 0"
    and blk: "block_idx < get_n_blocks d" "unat (get_range d) * unat (get_n_blocks d) = 2 ^ k"
    and fits: "arr \<noteq> []" "unat offset + 4 * length arr \<le> unat (get_range d)"
    and start: "start = get_base_addr d + get_range d * block_idx + offset"
    and R: "\<And>j. j < length arr \<Longrightarrow> start + 4 * word_of_nat j \<in> R"
  shows "\<exists>w'. write_array b d m offset arr block_idx w = Some w' \<and>
    read_array b d m (length arr) offset block_idx w' = Some (arr, w') \<and>
    (\<forall>a \<in> R. a \<notin> (\<lambda>j. start + 4 * word_of_nat j) ` {..<length arr} \<longrightarrow> peek w' a = peek w a)"
proof -
  have "unat offset + 4 * (length arr - 1) < unat (get_range d)"
    using fits by (cases arr) simp_all
  then show ?thesis
    using set_ptr_read_array [OF st mp rw al blk fits start R, of w] rw by (auto simp: write_array_def)
qed

theorem array_round_trip_witness:
  "\<exists>w'. write_array ram_bus sample_region sample_map 8 [1, 2, 3] 0 (\<lambda>a. 0) = Some w' \<and>
     read_array ram_bus sample_region sample_map 3 8 0 w' = Some ([1, 2, 3], w')"
  using array_round_trip [of ram_bus "\<lambda>w. w" UNIV sample_region sample_map 12 8 0 "[1, 2, 3]" "0x40000008" "\<lambda>a. 0",
      OF ram.storage_axioms sample_mapped]
  by (auto simp: sample_eval numeral_3_eq_3)

end
