(* ===== verification/Memory_Manager.thy ===== *)
theory Memory_Manager
  imports Memory_Map
begin

text \<open>
  \<^verbatim>\<open>src/server/context/memory_manager.hpp\<close>: the tuple of the memory maps of an instrument and
  how they are opened. \<open>mem::memory_array\<close>, which the build generates, is the parameter
  \<open>regions\<close>; \<open>open("/dev/mem")\<close> and \<open>mmap\<close> are parameters too.
\<close>

section \<open>The manager\<close>

record memory_manager =
  mm_fd :: int
  failed_maps :: "nat list"
  mem_maps :: "memory list"

definition new_memory_manager :: "nat \<Rightarrow> memory_manager" where
  "new_memory_manager N = \<lparr>mm_fd = -1, failed_maps = [], mem_maps = replicate N new_memory\<rparr>"

text \<open>A map as the drivers hold it: the template arguments and the object.\<close>

type_synonym handle = "mem_region \<times> memory"

definition mm_get :: "mem_region list \<Rightarrow> memory_manager \<Rightarrow> nat \<Rightarrow> handle" where
  "mm_get regions mm k = (regions ! k, mem_maps mm ! k)"

abbreviation via :: "'w bus \<Rightarrow> handle \<Rightarrow> ('w bus \<Rightarrow> mem_region \<Rightarrow> memory \<Rightarrow> 'r) \<Rightarrow> 'r" where
  "via b h f \<equiv> f b (fst h) (snd h)"

definition open_memory_map ::
    "'w mmap_call \<Rightarrow> mem_region list \<Rightarrow> nat \<Rightarrow> memory_manager \<Rightarrow> 'w \<Rightarrow> memory_manager \<times> 'w" where
  "open_memory_map mmap regions k mm w = (
     let (m, w) = mem_open mmap (regions ! k) (mem_maps mm ! k) w;
         mm = mm\<lparr>mem_maps := (mem_maps mm)[k := m]\<rparr>
     in if \<not> opened (mem_maps mm ! k) then (mm\<lparr>failed_maps := failed_maps mm @ [k]\<rparr>, w) else (mm, w))"

fun open_maps ::
    "'w mmap_call \<Rightarrow> mem_region list \<Rightarrow> nat \<Rightarrow> memory_manager \<Rightarrow> 'w \<Rightarrow> memory_manager \<times> 'w" where
  "open_maps mmap regions 0 mm w = (mm, w)"
| "open_maps mmap regions (Suc k) mm w = (
     let (mm, w) = open_memory_map mmap regions k mm w in open_maps mmap regions k mm w)"

definition mm_open :: "('w \<Rightarrow> int \<times> 'w) \<Rightarrow> 'w mmap_call \<Rightarrow> mem_region list \<Rightarrow>
    memory_manager \<Rightarrow> 'w \<Rightarrow> int \<times> memory_manager \<times> 'w" where
  "mm_open open_dev mmap regions mm w = (
     let (fd, w) = open_dev w; mm = mm\<lparr>mm_fd := fd\<rparr>
     in if fd = -1 then (-1, mm, w)
        else let (mm, w) = open_maps mmap regions (length regions) mm w
          in if failed_maps mm \<noteq> [] then (-1, mm, w) else (mm_fd mm, mm, w))"

section \<open>Opening\<close>

lemma open_memory_map_opened:
  assumes "open_memory_map mmap regions k mm w = (mm', w')" and "k < length (mem_maps mm)"
  shows "length (mem_maps mm') = length (mem_maps mm)" and "mm_fd mm' = mm_fd mm"
    and "\<And>j. j \<noteq> k \<Longrightarrow> mem_maps mm' ! j = mem_maps mm ! j"
    and "mem_maps mm' ! k = fst (mem_open mmap (regions ! k) (mem_maps mm ! k) w)"
    and "failed_maps mm' = failed_maps mm @ (if opened (mem_maps mm' ! k) then [] else [k])"
  using assms by (auto simp: open_memory_map_def Let_def split: prod.splits if_splits)

text \<open>
  \<open>open_maps<n>\<close> opens the maps from the last one to the first one and records those that fail.
\<close>

lemma open_maps_opened:
  assumes "open_maps mmap regions n mm w = (mm', w')" and "n \<le> length (mem_maps mm)"
  shows "length (mem_maps mm') = length (mem_maps mm) \<and> mm_fd mm' = mm_fd mm \<and>
    (\<forall>j \<ge> n. mem_maps mm' ! j = mem_maps mm ! j) \<and>
    (\<forall>j < n. \<exists>w0. mem_maps mm' ! j = fst (mem_open mmap (regions ! j) (mem_maps mm ! j) w0)) \<and>
    failed_maps mm' = failed_maps mm @ filter (\<lambda>j. \<not> opened (mem_maps mm' ! j)) (rev [0..<n])"
  using assms
proof (induction n arbitrary: mm w)
  case (Suc k)
  obtain mm1 w1 where 1: "open_memory_map mmap regions k mm w = (mm1, w1)" by force
  note step = open_memory_map_opened [OF 1]
  have len: "k < length (mem_maps mm)" using Suc.prems(2) by simp
  have "open_maps mmap regions k mm1 w1 = (mm', w')" using Suc.prems(1) 1 by simp
  from Suc.IH [OF this] len step(1) have IH:
    "length (mem_maps mm') = length (mem_maps mm1)" "mm_fd mm' = mm_fd mm1"
    "\<forall>j \<ge> k. mem_maps mm' ! j = mem_maps mm1 ! j"
    "\<forall>j < k. \<exists>w0. mem_maps mm' ! j = fst (mem_open mmap (regions ! j) (mem_maps mm1 ! j) w0)"
    "failed_maps mm' = failed_maps mm1 @ filter (\<lambda>j. \<not> opened (mem_maps mm' ! j)) (rev [0..<k])"
    by simp_all
  have k: "mem_maps mm' ! k = mem_maps mm1 ! k" using IH(3) by simp
  have "\<exists>w0. mem_maps mm' ! j = fst (mem_open mmap (regions ! j) (mem_maps mm ! j) w0)" if "j < Suc k" for j
  proof (cases "j = k")
    case True
    then show ?thesis using step(4) k len by auto
  next
    case False
    then show ?thesis using that IH(4) [rule_format, of j] step(3) [of j] len by simp
  qed
  moreover have "mem_maps mm' ! j = mem_maps mm ! j" if "Suc k \<le> j" for j
    using that IH(3) step(3) len by simp
  moreover have "failed_maps mm' = failed_maps mm @ filter (\<lambda>j. \<not> opened (mem_maps mm' ! j)) (rev [0..<Suc k])"
    using step(5) len k IH(5) by simp
  ultimately show ?case using IH(1,2) step(1,2) len by simp
qed simp

section \<open>Handles of the drivers\<close>

text \<open>A map the way the instruments configure it: open, at least a page, aligned to its size.\<close>

definition handle_ok :: "handle \<Rightarrow> bool" where
  "handle_ok h \<longleftrightarrow> is_readable (fst h) \<and> is_writable (fst h) \<and> 4096 \<le> unat (get_range (fst h)) \<and>
     (\<exists>k. mapped (fst h) (snd h) k \<and> unat (get_base_addr (fst h)) mod 2 ^ k = 0 \<and>
       unat (get_range (fst h)) \<le> 2 ^ k)"

abbreviation reg_addr :: "handle \<Rightarrow> u32 \<Rightarrow> u32" where
  "reg_addr h offset \<equiv> get_base_addr (fst h) + offset"

lemma handle_translate:
  assumes "handle_ok h" and "unat offset mod 4 = 0" and "unat offset + 4 \<le> unat (get_range (fst h))"
  shows "translate (fst h) (snd h) (base_address (snd h) + offset) = Some (reg_addr h offset)"
proof -
  obtain k where k: "mapped (fst h) (snd h) k" "unat (get_base_addr (fst h)) mod 2 ^ k = 0"
    "unat (get_range (fst h)) \<le> 2 ^ k"
    using assms(1) by (auto simp: handle_ok_def)
  have "in_map (fst h) k offset" using assms(2,3) k by (simp add: in_map_def)
  then show ?thesis by (rule translate_in_map [OF k(1)])
qed

text \<open>The registers of the first page, which every map has.\<close>

definition page_reg :: "u32 \<Rightarrow> bool" where
  "page_reg offset \<longleftrightarrow> unat offset mod 4 = 0 \<and> unat offset < 4096"

lemma page_reg_translate:
  assumes "handle_ok h" and "page_reg offset"
  shows "translate (fst h) (snd h) (base_address (snd h) + offset) = Some (reg_addr h offset)"
    and "offset < get_range (fst h)"
proof -
  obtain t where "unat offset = 4 * t" using assms(2) by (auto simp: page_reg_def mod_eq_0_iff_dvd)
  then have "unat offset + 4 \<le> 4096" using assms(2) by (simp add: page_reg_def)
  then have "unat offset + 4 \<le> unat (get_range (fst h))" using assms(1) by (simp add: handle_ok_def)
  then show "translate (fst h) (snd h) (base_address (snd h) + offset) = Some (reg_addr h offset)"
    "offset < get_range (fst h)"
    using handle_translate assms by (auto simp: page_reg_def word_less_nat_alt)
qed

lemma handle_rw: "handle_ok h \<Longrightarrow> is_readable (fst h) \<and> is_writable (fst h)"
  by (simp add: handle_ok_def)

text \<open>What each access of a register of the first page does on the bus.\<close>

named_theorems reg_simps \<open>accesses of a register as loads and stores of the bus\<close>

lemma vload_reg: "handle_ok h \<Longrightarrow> page_reg offset \<Longrightarrow>
    via b h vload (base_address (snd h) + offset) w = Some (bus_load b (reg_addr h offset) w)"
  by (simp add: vload_def page_reg_translate)

lemma modify_reg: "handle_ok h \<Longrightarrow> page_reg offset \<Longrightarrow>
    via b h modify (base_address (snd h) + offset) f w =
      Some (bus_store b (reg_addr h offset) (f (fst (bus_load b (reg_addr h offset) w)))
        (snd (bus_load b (reg_addr h offset) w)))"
  by (simp add: modify_def vload_reg vstore_def page_reg_translate split: prod.splits)

lemma write_reg_bus [reg_simps]: "handle_ok h \<Longrightarrow> page_reg offset \<Longrightarrow>
    via b h write_reg offset v w = Some (bus_store b (reg_addr h offset) v w)"
  by (simp add: write_reg_def handle_rw vstore_def page_reg_translate)

lemma mem_write_bus [reg_simps]: "handle_ok h \<Longrightarrow> page_reg offset \<Longrightarrow>
    via b h mem_write offset v w = Some (bus_store b (reg_addr h offset) v w)"
  by (simp add: mem_write_def handle_rw vstore_def page_reg_translate)

lemma read_reg_bus [reg_simps]: "handle_ok h \<Longrightarrow> page_reg offset \<Longrightarrow>
    via b h read_reg offset w = Some (bus_load b (reg_addr h offset) w)"
  by (simp add: read_reg_def handle_rw vload_reg)

lemma mem_read_bus [reg_simps]: "handle_ok h \<Longrightarrow> page_reg offset \<Longrightarrow>
    via b h mem_read offset w = Some (bus_load b (reg_addr h offset) w)"
  by (simp add: mem_read_def handle_rw vload_reg page_reg_translate)

lemma mem_set_bit_bus [reg_simps]: "handle_ok h \<Longrightarrow> page_reg offset \<Longrightarrow> i < 32 \<Longrightarrow>
    via b h mem_set_bit offset i w =
      Some (bus_store b (reg_addr h offset) (fst (bus_load b (reg_addr h offset) w) OR push_bit (unat i) 1)
        (snd (bus_load b (reg_addr h offset) w)))"
  by (simp add: mem_set_bit_def handle_rw bit_at_def modify_reg page_reg_translate)

lemma mem_clear_bit_bus [reg_simps]: "handle_ok h \<Longrightarrow> page_reg offset \<Longrightarrow> i < 32 \<Longrightarrow>
    via b h mem_clear_bit offset i w =
      Some (bus_store b (reg_addr h offset) (fst (bus_load b (reg_addr h offset) w) AND NOT (push_bit (unat i) 1))
        (snd (bus_load b (reg_addr h offset) w)))"
  by (simp add: mem_clear_bit_def handle_rw bit_at_def modify_reg page_reg_translate)

lemma write_mask_bus [reg_simps]: "handle_ok h \<Longrightarrow> page_reg offset \<Longrightarrow>
    via b h write_mask offset msk v w =
      Some (bus_store b (reg_addr h offset) ((fst (bus_load b (reg_addr h offset) w) AND NOT msk) OR (v AND msk))
        (snd (bus_load b (reg_addr h offset) w)))"
  by (simp add: write_mask_def handle_rw modify_reg page_reg_translate)

section \<open>Traces of bus accesses\<close>

text \<open>
  Any hardware, with the list of the accesses and delays it has seen: what a driver does is stated on
  this list, for every behaviour of the device behind it.
\<close>

datatype event = Load u32 u32 | Store u32 u32 | Sleep nat

type_synonym 'w traced = "event list \<times> 'w"

definition traced :: "'w bus \<Rightarrow> 'w traced bus" where
  "traced b = \<lparr>
     bus_load = (\<lambda>a (tr, w). let (v, w) = bus_load b a w in (v, tr @ [Load a v], w)),
     bus_store = (\<lambda>a v (tr, w). (tr @ [Store a v], bus_store b a v w))\<rparr>"

definition traced_sleep :: "(nat \<Rightarrow> 'w \<Rightarrow> 'w) \<Rightarrow> nat \<Rightarrow> 'w traced \<Rightarrow> 'w traced" where
  "traced_sleep sleep n = (\<lambda>(tr, w). (tr @ [Sleep n], sleep n w))"

fun stores :: "event list \<Rightarrow> (u32 \<times> u32) list" where
  "stores [] = []"
| "stores (Store a v # tr) = (a, v) # stores tr"
| "stores (_ # tr) = stores tr"

fun slept :: "event list \<Rightarrow> nat" where
  "slept [] = 0"
| "slept (Sleep n # tr) = n + slept tr"
| "slept (_ # tr) = slept tr"

lemma stores_append [simp]: "stores (tr @ tr') = stores tr @ stores tr'"
  by (induction tr rule: stores.induct) simp_all

lemma slept_append [simp]: "slept (tr @ tr') = slept tr + slept tr'"
  by (induction tr rule: slept.induct) simp_all

lemma traced_load:
  "handle_ok h \<Longrightarrow> page_reg offset \<Longrightarrow>
    \<exists>v w'. via (traced b) h vload (base_address (snd h) + offset) (tr, w)
      = Some (v, tr @ [Load (reg_addr h offset) v], w')"
  by (auto simp: vload_def page_reg_translate traced_def split: prod.splits)

lemma traced_store:
  "handle_ok h \<Longrightarrow> page_reg offset \<Longrightarrow>
    \<exists>w'. via (traced b) h vstore (base_address (snd h) + offset) v (tr, w)
      = Some (tr @ [Store (reg_addr h offset) v], w')"
  by (auto simp: vstore_def page_reg_translate traced_def)

text \<open>What the accesses of the class are on the trace.\<close>

lemma traced_write:
  "handle_ok h \<Longrightarrow> page_reg offset \<Longrightarrow>
    \<exists>w'. via (traced b) h mem_write offset v (tr, w) = Some (tr @ [Store (reg_addr h offset) v], w')"
  using traced_store [of h offset b v tr w] page_reg_translate(2) handle_rw by (simp add: mem_write_def)

lemma traced_write_reg:
  "handle_ok h \<Longrightarrow> page_reg offset \<Longrightarrow>
    \<exists>w'. via (traced b) h write_reg offset v (tr, w) = Some (tr @ [Store (reg_addr h offset) v], w')"
  using traced_store [of h offset b v tr w] handle_rw by (simp add: write_reg_def)

lemma traced_read_reg:
  "handle_ok h \<Longrightarrow> page_reg offset \<Longrightarrow>
    \<exists>v w'. via (traced b) h read_reg offset (tr, w) = Some (v, tr @ [Load (reg_addr h offset) v], w')"
  using traced_load [of h offset b tr w] handle_rw by (simp add: read_reg_def)

lemma traced_read_bit:
  assumes "handle_ok h" and "page_reg offset" and "i < 32"
  shows "\<exists>v w'. via (traced b) h mem_read_bit offset i (tr, w)
      = Some (bit v (unat i), tr @ [Load (reg_addr h offset) v], w')"
proof -
  obtain v w' where "via (traced b) h vload (base_address (snd h) + offset) (tr, w)
      = Some (v, tr @ [Load (reg_addr h offset) v], w')"
    using traced_load [OF assms(1,2), of b tr w] by blast
  moreover have "(v AND push_bit (unat i) 1 \<noteq> 0) = bit v (unat i)"
    by (simp add: bit_iff_and_push_bit_not_eq_0)
  ultimately show ?thesis
    using assms page_reg_translate(2) [OF assms(1,2)] handle_rw
    by (auto simp: mem_read_bit_def bit_at_def)
qed

lemma traced_modify:
  assumes "handle_ok h" and "page_reg offset"
  shows "\<exists>v w'. via (traced b) h modify (base_address (snd h) + offset) f (tr, w)
      = Some (tr @ [Load (reg_addr h offset) v, Store (reg_addr h offset) (f v)], w')"
proof -
  obtain v w1 where ld: "via (traced b) h vload (base_address (snd h) + offset) (tr, w)
      = Some (v, tr @ [Load (reg_addr h offset) v], w1)"
    using traced_load [OF assms, of b tr w] by blast
  obtain w' where "via (traced b) h vstore (base_address (snd h) + offset) (f v)
      (tr @ [Load (reg_addr h offset) v], w1)
      = Some ((tr @ [Load (reg_addr h offset) v]) @ [Store (reg_addr h offset) (f v)], w')"
    using traced_store [OF assms, of b "f v" _ w1] by blast
  with ld show ?thesis by (simp add: modify_def)
qed

lemma traced_set_bit:
  assumes "handle_ok h" and "page_reg offset" and "i < 32"
  shows "\<exists>v w'. via (traced b) h mem_set_bit offset i (tr, w) = Some (tr @
      [Load (reg_addr h offset) v, Store (reg_addr h offset) (v OR push_bit (unat i) 1)], w')"
  using traced_modify [OF assms(1,2), of b _ tr w] page_reg_translate(2) [OF assms(1,2)] handle_rw assms
  by (auto simp: mem_set_bit_def bit_at_def)

lemma traced_clear_bit:
  assumes "handle_ok h" and "page_reg offset" and "i < 32"
  shows "\<exists>v w'. via (traced b) h mem_clear_bit offset i (tr, w) = Some (tr @
      [Load (reg_addr h offset) v, Store (reg_addr h offset) (v AND NOT (push_bit (unat i) 1))], w')"
  using traced_modify [OF assms(1,2), of b _ tr w] page_reg_translate(2) [OF assms(1,2)] handle_rw assms
  by (auto simp: mem_clear_bit_def bit_at_def)

lemma memory_manager_open_parts:
  assumes "page_aligned mmap" and "\<And>w. fst (open_dev w) \<ge> -1" and "N = length regions"
    and "mm_open open_dev mmap regions (new_memory_manager N) w = (r, mm, w')"
  shows "r = -1 \<or> r \<ge> 0"
    and "r \<ge> 0 \<longleftrightarrow> mm_fd mm \<noteq> -1 \<and> (\<forall>j < N. is_opened (mem_maps mm ! j))"
    and "mm_fd mm \<noteq> -1 \<Longrightarrow> set (failed_maps mm) = {j. j < N \<and> \<not> is_opened (mem_maps mm ! j)}"
    and "r \<ge> 0 \<Longrightarrow> j < N \<Longrightarrow> mm_get regions mm j = (d, m) \<Longrightarrow> get_total_size d = 2 ^ k \<Longrightarrow> k < 32 \<Longrightarrow>
      2 \<le> k \<Longrightarrow> unat (get_base_addr d) mod 2 ^ k = 0 \<Longrightarrow> unat offset mod 4 = 0 \<Longrightarrow> unat offset < 2 ^ k \<Longrightarrow>
      translate d m (base_address m + offset) = Some (get_base_addr d + offset)"
proof -
  obtain fd w1 where dev: "open_dev w = (fd, w1)" by force
  have fd: "fd \<ge> -1" using assms(2) [of w] dev by simp
  let ?mm0 = "(new_memory_manager N)\<lparr>mm_fd := fd\<rparr>"
  obtain mm1 w2 where om: "open_maps mmap regions N ?mm0 w1 = (mm1, w2)" by force
  have len: "N \<le> length (mem_maps ?mm0)" and clean: "failed_maps ?mm0 = []"
    by (simp_all add: new_memory_manager_def)
  note opened = open_maps_opened [OF om len, unfolded clean]
  have res: "(r, mm) = (if fd = -1 then (-1, ?mm0) else (if failed_maps mm1 \<noteq> [] then -1 else mm_fd mm1, mm1))"
    using assms(3,4) dev om by (auto simp: mm_open_def Let_def split: if_splits)
  have failed: "set (failed_maps mm1) = {j. j < N \<and> \<not> is_opened (mem_maps mm1 ! j)}"
    using opened by (auto simp: opened_def)
  then have none: "failed_maps mm1 = [] \<longleftrightarrow> (\<forall>j < N. is_opened (mem_maps mm1 ! j))"
    by (metis (mono_tags, lifting) empty_Collect_eq set_empty)
  have mfd: "mm_fd mm1 = fd" using opened by simp
  show "r = -1 \<or> r \<ge> 0" using res fd mfd by (auto split: if_splits)
  show iff: "r \<ge> 0 \<longleftrightarrow> mm_fd mm \<noteq> -1 \<and> (\<forall>j < N. is_opened (mem_maps mm ! j))"
    using res fd none mfd by (auto split: if_splits)
  show "mm_fd mm \<noteq> -1 \<Longrightarrow> set (failed_maps mm) = {j. j < N \<and> \<not> is_opened (mem_maps mm ! j)}"
    using res failed by (auto split: if_splits)
  assume hyp: "r \<ge> 0" "j < N" "mm_get regions mm j = (d, m)" "get_total_size d = 2 ^ k" "k < 32" "2 \<le> k"
    "unat (get_base_addr d) mod 2 ^ k = 0" "unat offset mod 4 = 0" "unat offset < 2 ^ k"
  have mm: "mm = mm1" using hyp(1) res by (auto split: if_splits)
  obtain w3 where "m = fst (mem_open mmap d (mem_maps ?mm0 ! j) w3)"
    using opened hyp(2,3) mm by (auto simp: mm_get_def)
  then obtain w4 where mo: "mem_open mmap d (mem_maps ?mm0 ! j) w3 = (m, w4)"
    by (metis prod.collapse)
  have dvd: "(4::nat) dvd 2 ^ k" using hyp(6) le_imp_power_dvd [of 2 k "2::nat"] by simp
  then have al: "unat (get_base_addr d) mod 4 = 0"
    using hyp(7) by (metis dvd_trans mod_eq_0_iff_dvd)
  have "is_opened m" using iff hyp(1-3) by (auto simp: mm_get_def)
  then have mp: "mapped d m k" by (rule mem_open_mapped [OF assms(1) mo _ hyp(4,5) al])
  have "unat offset + 4 \<le> 2 ^ k"
  proof -
    obtain t where t: "unat offset = 4 * t" using hyp(8) by (auto simp: mod_eq_0_iff_dvd)
    obtain u where u: "(2::nat) ^ k = 4 * u" using dvd by auto
    show ?thesis using t u hyp(9) by simp
  qed
  then have "in_map d k offset" using hyp(7,8) by (simp add: in_map_def)
  then show "translate d m (base_address m + offset) = Some (get_base_addr d + offset)"
    by (rule translate_in_map [OF mp])
qed

text \<open>
  \<open>MemoryManager::open\<close> returns the descriptor of \<open>/dev/mem\<close> exactly when the device and every
  memory map could be opened, and then every word offset of a region that is aligned to its size
  reaches the register the instrument has there; otherwise it returns -1 and \<open>failed_maps\<close> lists the
  maps that failed.
\<close>
lemma memory_manager_open:
  assumes "page_aligned mmap" and "\<And>w. fst (open_dev w) \<ge> -1" and "N = length regions"
    and "mm_open open_dev mmap regions (new_memory_manager N) w = (r, mm, w')"
  shows "(r = -1 \<or> r \<ge> 0) \<and>
    (r \<ge> 0 \<longleftrightarrow> mm_fd mm \<noteq> -1 \<and> (\<forall>j < N. is_opened (mem_maps mm ! j))) \<and>
    (mm_fd mm \<noteq> -1 \<longrightarrow> set (failed_maps mm) = {j. j < N \<and> \<not> is_opened (mem_maps mm ! j)}) \<and>
    (r \<ge> 0 \<and> j < N \<and> mm_get regions mm j = (d, m) \<and> get_total_size d = 2 ^ k \<and> k < 32 \<and> 2 \<le> k \<and>
      unat (get_base_addr d) mod 2 ^ k = 0 \<and> unat offset mod 4 = 0 \<and> unat offset < 2 ^ k \<longrightarrow>
      translate d m (base_address m + offset) = Some (get_base_addr d + offset))"
  by (intro conjI impI; (elim conjE)?;
    rule memory_manager_open_parts [where open_dev = open_dev, OF assms]; assumption)

end
