(* ===== verification/Dma_S2MM.thy ===== *)
theory Dma_S2MM
  imports Memory_Manager
begin

text \<open>
  \<^verbatim>\<open>src/server/drivers/dma-s2mm.hpp\<close>: the driver of the two AXI DMA engines. The engines are
  the hardware behind the bus, a parameter; \<open>sleep\<close> lets a number of milliseconds pass in it. A
  function that logs errors returns which of its waits logged one.
\<close>

section \<open>The driver\<close>

record dma_s2mm =
  dma :: handle
  dma1 :: handle

definition s2mm_dmacr :: u32 where "s2mm_dmacr = 0x30"

definition s2mm_dmasr :: u32 where "s2mm_dmasr = 0x34"

definition s2mm_da :: u32 where "s2mm_da = 0x48"

definition s2mm_length :: u32 where "s2mm_length = 0x58"

definition max_sleeps_cnt :: nat where "max_sleeps_cnt = 4"

definition halted :: "'w bus \<Rightarrow> dma_s2mm \<Rightarrow> 'w \<Rightarrow> (bool \<times> 'w) option" where
  "halted b drv w = via b (dma drv) mem_read_bit s2mm_dmasr 0 w"

definition halted1 :: "'w bus \<Rightarrow> dma_s2mm \<Rightarrow> 'w \<Rightarrow> (bool \<times> 'w) option" where
  "halted1 b drv w = via b (dma1 drv) mem_read_bit s2mm_dmasr 0 w"

definition idle :: "'w bus \<Rightarrow> dma_s2mm \<Rightarrow> 'w \<Rightarrow> (bool \<times> 'w) option" where
  "idle b drv w = via b (dma drv) mem_read_bit s2mm_dmasr 1 w"

definition idle1 :: "'w bus \<Rightarrow> dma_s2mm \<Rightarrow> 'w \<Rightarrow> (bool \<times> 'w) option" where
  "idle1 b drv w = via b (dma1 drv) mem_read_bit s2mm_dmasr 1 w"

text \<open>
  The four waits: \<open>while (test) { sleep; cnt++; if (cnt > max_sleeps_cnt) { log; break; } }\<close>. The
  result is the counter, which two waits share, and whether the wait was given up.
\<close>

function poll :: "('w \<Rightarrow> (bool \<times> 'w) option) \<Rightarrow> ('w \<Rightarrow> 'w) \<Rightarrow> nat \<Rightarrow> 'w \<Rightarrow> (nat \<times> bool \<times> 'w) option" where
  "poll test nap cnt w = do {
     (busy, w) \<leftarrow> test w;
     if \<not> busy then Some (cnt, False, w)
     else if cnt + 1 > max_sleeps_cnt then Some (cnt + 1, True, nap w)
     else poll test nap (cnt + 1) (nap w) }"
  by pat_completeness auto
termination
  by (relation "measure (\<lambda>(test, nap, cnt, w). max_sleeps_cnt - cnt)") auto

declare poll.simps [simp del]

definition dma_reset :: "'w bus \<Rightarrow> (nat \<Rightarrow> 'w \<Rightarrow> 'w) \<Rightarrow> dma_s2mm \<Rightarrow> 'w \<Rightarrow> ((bool \<times> bool) \<times> 'w) option" where
  "dma_reset b sleep drv w = do {
     w \<leftarrow> via b (dma drv) mem_set_bit s2mm_dmacr 2 w;
     w \<leftarrow> via b (dma1 drv) mem_set_bit s2mm_dmacr 2 w;
     (cnt, e, w) \<leftarrow> poll (via b (dma drv) mem_read_bit s2mm_dmacr 2) (sleep 1) 0 w;
     (cnt, e1, w) \<leftarrow> poll (via b (dma1 drv) mem_read_bit s2mm_dmacr 2) (sleep 1) cnt w;
     Some ((e, e1), w) }"

definition dma_start :: "'w bus \<Rightarrow> (nat \<Rightarrow> 'w \<Rightarrow> 'w) \<Rightarrow> dma_s2mm \<Rightarrow> 'w \<Rightarrow> ((bool \<times> bool) \<times> 'w) option" where
  "dma_start b sleep drv w = do {
     w \<leftarrow> via b (dma drv) mem_set_bit s2mm_dmacr 0 w;
     w \<leftarrow> via b (dma1 drv) mem_set_bit s2mm_dmacr 0 w;
     (cnt, e, w) \<leftarrow> poll (halted b drv) (sleep 1) 0 w;
     (cnt, e1, w) \<leftarrow> poll (halted1 b drv) (sleep 1) cnt w;
     Some ((e, e1), w) }"

definition set_destination_address :: "'w bus \<Rightarrow> dma_s2mm \<Rightarrow> u32 \<Rightarrow> u32 \<Rightarrow> 'w \<Rightarrow> 'w option" where
  "set_destination_address b drv address address2 w = do {
     w \<leftarrow> via b (dma drv) mem_write s2mm_da address w;
     via b (dma1 drv) mem_write s2mm_da address2 w }"

definition set_length :: "'w bus \<Rightarrow> dma_s2mm \<Rightarrow> u32 \<Rightarrow> 'w \<Rightarrow> 'w option" where
  "set_length b drv len w = do {
     w \<leftarrow> via b (dma drv) mem_write s2mm_length len w;
     via b (dma1 drv) mem_write s2mm_length len w }"

definition setup_transfer :: "'w bus \<Rightarrow> (nat \<Rightarrow> 'w \<Rightarrow> 'w) \<Rightarrow> dma_s2mm \<Rightarrow> u32 \<Rightarrow> u32 \<Rightarrow> u32 \<Rightarrow> 'w \<Rightarrow>
    ((bool \<times> bool) \<times> (bool \<times> bool) \<times> 'w) option" where
  "setup_transfer b sleep drv dest_addr dest_addr2 len w = do {
     (e, w) \<leftarrow> dma_reset b sleep drv w;
     (e', w) \<leftarrow> dma_start b sleep drv w;
     w \<leftarrow> set_destination_address b drv dest_addr dest_addr2 w;
     w \<leftarrow> set_length b drv len w;
     Some (e, e', w) }"

text \<open>
  The loop of \<open>wait_for_transfer\<close> over the remaining milliseconds, \<open>uint32_t(3000 * t)\<close> at the start.
  The four status bits are printed; they are arguments of two calls of \<open>print\<close>, whose order C++ does
  not fix, and are read here from left to right.
\<close>

function wait_for_transfer :: "'w bus \<Rightarrow> (nat \<Rightarrow> 'w \<Rightarrow> 'w) \<Rightarrow> dma_s2mm \<Rightarrow> int \<Rightarrow> 'w \<Rightarrow> 'w option" where
  "wait_for_transfer b sleep drv left w =
     (if left > 0 then do {
        (_, w) \<leftarrow> halted b drv (sleep 500 w);
        (_, w) \<leftarrow> idle b drv w;
        (_, w) \<leftarrow> halted1 b drv w;
        (_, w) \<leftarrow> idle1 b drv w;
        wait_for_transfer b sleep drv (left - 500) w }
      else Some w)"
  by pat_completeness auto
termination
  by (relation "measure (\<lambda>(b, sleep, drv, left, w). nat left)") auto

declare wait_for_transfer.simps [simp del]

section \<open>The waits\<close>

lemma page_regs [simp]:
  "page_reg s2mm_dmacr" "page_reg s2mm_dmasr" "page_reg s2mm_da" "page_reg s2mm_length"
  by (simp_all add: page_reg_def s2mm_dmacr_def s2mm_dmasr_def s2mm_da_def s2mm_length_def)

text \<open>The trace has a load of the register in which the bit is clear.\<close>

definition seen_clear :: "event list \<Rightarrow> handle \<Rightarrow> u32 \<Rightarrow> u32 \<Rightarrow> bool" where
  "seen_clear tr h offset i \<longleftrightarrow>
     list_ex (\<lambda>ev. case ev of Load a v \<Rightarrow> a = reg_addr h offset \<and> \<not> bit v (unat i) | _ \<Rightarrow> False) tr"

lemma seen_clear_append: "seen_clear (tr @ tr') h offset i \<longleftrightarrow> seen_clear tr h offset i \<or> seen_clear tr' h offset i"
  by (simp add: seen_clear_def)

text \<open>
  A wait on a bit of a register ends for every behaviour of the device: it only loads and sleeps, one
  millisecond for each step of the counter, and gives up unless it has seen the bit clear.
\<close>

lemma poll_bit:
  assumes "handle_ok h" and "page_reg offset" and "i < 32"
  shows "\<exists>cnt' e tr' w'.
    poll (via (traced b) h mem_read_bit offset i) (traced_sleep sleep 1) cnt (tr, w)
      = Some (cnt', e, tr @ tr', w') \<and>
    cnt \<le> cnt' \<and> cnt' \<le> max cnt max_sleeps_cnt + 1 \<and> stores tr' = [] \<and> slept tr' = cnt' - cnt \<and>
    (e \<or> seen_clear tr' h offset i)"
proof (induction "max_sleeps_cnt - cnt" arbitrary: cnt tr w rule: less_induct)
  case less
  obtain v w1 where rd: "via (traced b) h mem_read_bit offset i (tr, w)
      = Some (bit v (unat i), tr @ [Load (reg_addr h offset) v], w1)"
    using traced_read_bit [OF assms, of b tr w] by blast
  let ?tr1 = "tr @ [Load (reg_addr h offset) v]"
  consider "\<not> bit v (unat i)" | "bit v (unat i)" "cnt + 1 > max_sleeps_cnt"
    | "bit v (unat i)" "cnt + 1 \<le> max_sleeps_cnt" by linarith
  then show ?case
  proof cases
    case 1
    then have "poll (via (traced b) h mem_read_bit offset i) (traced_sleep sleep 1) cnt (tr, w)
      = Some (cnt, False, tr @ [Load (reg_addr h offset) v], w1)"
      by (simp add: poll.simps [of _ _ cnt] rd)
    moreover have "seen_clear [Load (reg_addr h offset) v] h offset i" using 1 by (simp add: seen_clear_def)
    ultimately show ?thesis by fastforce
  next
    case 2
    then have "poll (via (traced b) h mem_read_bit offset i) (traced_sleep sleep 1) cnt (tr, w)
      = Some (cnt + 1, True, tr @ [Load (reg_addr h offset) v, Sleep 1], sleep 1 w1)"
      by (simp add: poll.simps [of _ _ cnt] rd traced_sleep_def)
    then show ?thesis by fastforce
  next
    case 3
    have "max_sleeps_cnt - (cnt + 1) < max_sleeps_cnt - cnt" using 3 by simp
    from less [OF this, of "?tr1 @ [Sleep 1]" "sleep 1 w1"] obtain cnt' e tr' w' where IH:
      "poll (via (traced b) h mem_read_bit offset i) (traced_sleep sleep 1) (cnt + 1) (?tr1 @ [Sleep 1], sleep 1 w1)
        = Some (cnt', e, (?tr1 @ [Sleep 1]) @ tr', w')"
      "cnt + 1 \<le> cnt'" "cnt' \<le> max (cnt + 1) max_sleeps_cnt + 1" "stores tr' = []" "slept tr' = cnt' - (cnt + 1)"
      "e \<or> seen_clear tr' h offset i" by blast
    have "poll (via (traced b) h mem_read_bit offset i) (traced_sleep sleep 1) cnt (tr, w)
        = Some (cnt', e, tr @ ([Load (reg_addr h offset) v, Sleep 1] @ tr'), w')"
      using 3 IH(1) by (simp add: poll.simps [of _ _ cnt] rd traced_sleep_def)
    moreover have "slept ([Load (reg_addr h offset) v, Sleep 1] @ tr') = cnt' - cnt"
      using IH(2,5) by simp
    moreover have "stores ([Load (reg_addr h offset) v, Sleep 1] @ tr') = []" using IH(4) by simp
    moreover have "cnt' \<le> max cnt max_sleeps_cnt + 1" using IH(3) 3(2) by simp
    moreover have "e \<or> seen_clear ([Load (reg_addr h offset) v, Sleep 1] @ tr') h offset i"
      using IH(6) unfolding seen_clear_append by blast
    ultimately show ?thesis using IH(2) by (metis Suc_eq_plus1 Suc_leD)
  qed
qed

text \<open>Both engines get a bit of the control register set, then both are waited for.\<close>

lemma command_and_wait:
  assumes h: "handle_ok h" "handle_ok h1" and r: "page_reg cr" "page_reg sr" and i: "i < 32" "j < 32"
  shows "\<exists>e e1 v v1 tr' w'.
    do { w \<leftarrow> via (traced b) h mem_set_bit cr i (tr, w);
      w \<leftarrow> via (traced b) h1 mem_set_bit cr i w;
      (cnt, e, w) \<leftarrow> poll (via (traced b) h mem_read_bit sr j) (traced_sleep sleep 1) 0 w;
      (cnt, e1, w) \<leftarrow> poll (via (traced b) h1 mem_read_bit sr j) (traced_sleep sleep 1) cnt w;
      Some ((e, e1), w) } = Some ((e, e1), tr @ tr', w') \<and>
    stores tr' = [(reg_addr h cr, v OR push_bit (unat i) 1), (reg_addr h1 cr, v1 OR push_bit (unat i) 1)] \<and>
    slept tr' \<le> max_sleeps_cnt + 2 \<and> (e \<or> seen_clear tr' h sr j) \<and> (e1 \<or> seen_clear tr' h1 sr j)"
proof -
  obtain v w1 where 1: "via (traced b) h mem_set_bit cr i (tr, w) = Some (tr @
      [Load (reg_addr h cr) v, Store (reg_addr h cr) (v OR push_bit (unat i) 1)], w1)"
    using traced_set_bit [OF h(1) r(1) i(1), of b tr w] by blast
  let ?t1 = "[Load (reg_addr h cr) v, Store (reg_addr h cr) (v OR push_bit (unat i) 1)]"
  obtain v1 w2 where 2: "via (traced b) h1 mem_set_bit cr i (tr @ ?t1, w1) = Some ((tr @ ?t1) @
      [Load (reg_addr h1 cr) v1, Store (reg_addr h1 cr) (v1 OR push_bit (unat i) 1)], w2)"
    using traced_set_bit [OF h(2) r(1) i(1), of b "tr @ ?t1" w1] by blast
  let ?t2 = "[Load (reg_addr h1 cr) v1, Store (reg_addr h1 cr) (v1 OR push_bit (unat i) 1)]"
  obtain c e t3 w3 where 3: "poll (via (traced b) h mem_read_bit sr j) (traced_sleep sleep 1) 0 ((tr @ ?t1) @ ?t2, w2)
      = Some (c, e, ((tr @ ?t1) @ ?t2) @ t3, w3)" "c \<le> max 0 max_sleeps_cnt + 1" "stores t3 = []" "slept t3 = c - 0"
      "e \<or> seen_clear t3 h sr j"
    using poll_bit [OF h(1) r(2) i(2), of b sleep 0 "(tr @ ?t1) @ ?t2" w2] by blast
  obtain c1 e1 t4 w4 where 4: "poll (via (traced b) h1 mem_read_bit sr j) (traced_sleep sleep 1) c (((tr @ ?t1) @ ?t2) @ t3, w3)
      = Some (c1, e1, (((tr @ ?t1) @ ?t2) @ t3) @ t4, w4)" "c1 \<le> max c max_sleeps_cnt + 1" "stores t4 = []"
      "slept t4 = c1 - c" "e1 \<or> seen_clear t4 h1 sr j"
    using poll_bit [OF h(2) r(2) i(2), of b sleep c "((tr @ ?t1) @ ?t2) @ t3" w3] by blast
  have "slept (?t1 @ ?t2 @ t3 @ t4) \<le> max_sleeps_cnt + 2" using 3(2,4) 4(2,4) by simp
  moreover have "stores (?t1 @ ?t2 @ t3 @ t4) =
      [(reg_addr h cr, v OR push_bit (unat i) 1), (reg_addr h1 cr, v1 OR push_bit (unat i) 1)]"
    using 3(3) 4(3) by simp
  moreover have "(e \<or> seen_clear (?t1 @ ?t2 @ t3 @ t4) h sr j) \<and> (e1 \<or> seen_clear (?t1 @ ?t2 @ t3 @ t4) h1 sr j)"
    using 3(5) 4(5) unfolding seen_clear_append by blast
  moreover have "do { w \<leftarrow> via (traced b) h mem_set_bit cr i (tr, w);
      w \<leftarrow> via (traced b) h1 mem_set_bit cr i w;
      (cnt, e, w) \<leftarrow> poll (via (traced b) h mem_read_bit sr j) (traced_sleep sleep 1) 0 w;
      (cnt, e1, w) \<leftarrow> poll (via (traced b) h1 mem_read_bit sr j) (traced_sleep sleep 1) cnt w;
      Some ((e, e1), w) } = Some ((e, e1), tr @ (?t1 @ ?t2 @ t3 @ t4), w4)"
    using 1 2 3(1) 4(1) by simp
  ultimately show ?thesis by blast
qed

lemmas dma_reset_trace = command_and_wait [where cr = s2mm_dmacr and sr = s2mm_dmacr and i = 2 and j = 2,
    OF _ _ page_regs(1) page_regs(1)]

lemmas dma_start_trace = command_and_wait [where cr = s2mm_dmacr and sr = s2mm_dmasr and i = 0 and j = 0,
    OF _ _ page_regs(1) page_regs(2)]

lemma dma_program_trace:
  assumes "handle_ok (dma drv)" and "handle_ok (dma1 drv)"
  shows "\<exists>tr' w'. do { w \<leftarrow> set_destination_address (traced b) drv da da1 (tr, w); set_length (traced b) drv len w }
      = Some (tr @ tr', w') \<and> slept tr' = 0 \<and>
    stores tr' = [(reg_addr (dma drv) s2mm_da, da), (reg_addr (dma1 drv) s2mm_da, da1),
      (reg_addr (dma drv) s2mm_length, len), (reg_addr (dma1 drv) s2mm_length, len)]"
proof -
  obtain w1 where 1: "via (traced b) (dma drv) mem_write s2mm_da da (tr, w)
      = Some (tr @ [Store (reg_addr (dma drv) s2mm_da) da], w1)"
    using traced_write [OF assms(1) page_regs(3), of b da tr w] by blast
  obtain w2 where 2: "via (traced b) (dma1 drv) mem_write s2mm_da da1 (tr @ [Store (reg_addr (dma drv) s2mm_da) da], w1)
      = Some ((tr @ [Store (reg_addr (dma drv) s2mm_da) da]) @ [Store (reg_addr (dma1 drv) s2mm_da) da1], w2)"
    using traced_write [OF assms(2) page_regs(3), of b da1 _ w1] by blast
  let ?t = "[Store (reg_addr (dma drv) s2mm_da) da, Store (reg_addr (dma1 drv) s2mm_da) da1]"
  obtain w3 where 3: "via (traced b) (dma drv) mem_write s2mm_length len (tr @ ?t, w2)
      = Some ((tr @ ?t) @ [Store (reg_addr (dma drv) s2mm_length) len], w3)"
    using traced_write [OF assms(1) page_regs(4), of b len _ w2] by blast
  obtain w4 where 4: "via (traced b) (dma1 drv) mem_write s2mm_length len
        ((tr @ ?t) @ [Store (reg_addr (dma drv) s2mm_length) len], w3)
      = Some (((tr @ ?t) @ [Store (reg_addr (dma drv) s2mm_length) len]) @ [Store (reg_addr (dma1 drv) s2mm_length) len], w4)"
    using traced_write [OF assms(2) page_regs(4), of b len _ w3] by blast
  show ?thesis
    by (rule exI [of _ "?t @ [Store (reg_addr (dma drv) s2mm_length) len, Store (reg_addr (dma1 drv) s2mm_length) len]"],
        rule exI [of _ w4])
      (use 1 2 3 4 in \<open>simp add: set_destination_address_def set_length_def\<close>)
qed

lemma setup_transfer_trace:
  assumes "handle_ok (dma drv)" and "handle_ok (dma1 drv)"
  shows "\<exists>e e1 f f1 v v1 u u1 t w'.
    setup_transfer (traced b) (traced_sleep sleep) drv da da1 len (tr, w) = Some ((e, e1), (f, f1), tr @ t, w') \<and>
    stores t = [
      (reg_addr (dma drv) s2mm_dmacr, v OR 4), (reg_addr (dma1 drv) s2mm_dmacr, v1 OR 4),
      (reg_addr (dma drv) s2mm_dmacr, u OR 1), (reg_addr (dma1 drv) s2mm_dmacr, u1 OR 1),
      (reg_addr (dma drv) s2mm_da, da), (reg_addr (dma1 drv) s2mm_da, da1),
      (reg_addr (dma drv) s2mm_length, len), (reg_addr (dma1 drv) s2mm_length, len)] \<and>
    slept t \<le> 12 \<and>
    (e \<or> seen_clear t (dma drv) s2mm_dmacr 2) \<and> (e1 \<or> seen_clear t (dma1 drv) s2mm_dmacr 2) \<and>
    (f \<or> seen_clear t (dma drv) s2mm_dmasr 0) \<and> (f1 \<or> seen_clear t (dma1 drv) s2mm_dmasr 0)"
proof -
  have lt: "(0::u32) < 32" "(2::u32) < 32" by simp_all
  obtain e e1 v v1 t1 w1 where 1:
    "dma_reset (traced b) (traced_sleep sleep) drv (tr, w) = Some ((e, e1), tr @ t1, w1)"
    "stores t1 = [(reg_addr (dma drv) s2mm_dmacr, v OR 4), (reg_addr (dma1 drv) s2mm_dmacr, v1 OR 4)]"
    "slept t1 \<le> 6" "e \<or> seen_clear t1 (dma drv) s2mm_dmacr 2" "e1 \<or> seen_clear t1 (dma1 drv) s2mm_dmacr 2"
    using dma_reset_trace [OF assms lt(2) lt(2), of b tr w sleep]
    unfolding dma_reset_def by (auto simp: max_sleeps_cnt_def)
  obtain f f1 u u1 t2 w2 where 2:
    "dma_start (traced b) (traced_sleep sleep) drv (tr @ t1, w1) = Some ((f, f1), (tr @ t1) @ t2, w2)"
    "stores t2 = [(reg_addr (dma drv) s2mm_dmacr, u OR 1), (reg_addr (dma1 drv) s2mm_dmacr, u1 OR 1)]"
    "slept t2 \<le> 6" "f \<or> seen_clear t2 (dma drv) s2mm_dmasr 0" "f1 \<or> seen_clear t2 (dma1 drv) s2mm_dmasr 0"
    using dma_start_trace [OF assms lt(1) lt(1), of b "tr @ t1" w1 sleep]
    unfolding dma_start_def halted_def [abs_def] halted1_def [abs_def] by (auto simp: max_sleeps_cnt_def)
  obtain t3 w3 where 3:
    "do { w \<leftarrow> set_destination_address (traced b) drv da da1 ((tr @ t1) @ t2, w2); set_length (traced b) drv len w }
      = Some (((tr @ t1) @ t2) @ t3, w3)" "slept t3 = 0"
    "stores t3 = [(reg_addr (dma drv) s2mm_da, da), (reg_addr (dma1 drv) s2mm_da, da1),
      (reg_addr (dma drv) s2mm_length, len), (reg_addr (dma1 drv) s2mm_length, len)]"
    using dma_program_trace [OF assms, of b da da1 "(tr @ t1) @ t2" w2 len] by blast
  have run: "setup_transfer (traced b) (traced_sleep sleep) drv da da1 len (tr, w)
      = Some ((e, e1), (f, f1), tr @ (t1 @ t2 @ t3), w3)"
    using 1(1) 2(1) 3(1)
    by (cases "set_destination_address (traced b) drv da da1 ((tr @ t1) @ t2, w2)") (simp_all add: setup_transfer_def)
  have sl: "slept (t1 @ t2 @ t3) \<le> 12" using 1(3) 2(3) 3(2) by simp
  show ?thesis
    by (intro exI conjI, rule run) (use 1(2,4,5) 2(2,4,5) 3(3) sl in \<open>auto simp: seen_clear_append\<close>)
qed

lemma traced_status:
  assumes "handle_ok (dma drv)" and "handle_ok (dma1 drv)"
  shows "\<exists>r t w'. halted (traced b) drv (tr, w) = Some (r, tr @ t, w') \<and> stores t = [] \<and> slept t = 0"
    and "\<exists>r t w'. halted1 (traced b) drv (tr, w) = Some (r, tr @ t, w') \<and> stores t = [] \<and> slept t = 0"
    and "\<exists>r t w'. idle (traced b) drv (tr, w) = Some (r, tr @ t, w') \<and> stores t = [] \<and> slept t = 0"
    and "\<exists>r t w'. idle1 (traced b) drv (tr, w) = Some (r, tr @ t, w') \<and> stores t = [] \<and> slept t = 0"
  unfolding halted_def halted1_def idle_def idle1_def
  using traced_read_bit [OF assms(1) page_regs(2), of 0 b tr w] traced_read_bit [OF assms(2) page_regs(2), of 0 b tr w]
    traced_read_bit [OF assms(1) page_regs(2), of 1 b tr w] traced_read_bit [OF assms(2) page_regs(2), of 1 b tr w]
  by fastforce+

lemma wait_for_transfer_round:
  assumes "handle_ok (dma drv)" and "handle_ok (dma1 drv)" and "left > 0"
  shows "\<exists>t w'. stores t = [] \<and> slept t = 500 \<and>
    wait_for_transfer (traced b) (traced_sleep sleep) drv left (tr, w)
      = wait_for_transfer (traced b) (traced_sleep sleep) drv (left - 500) (tr @ t, w')"
proof -
  let ?tr0 = "tr @ [Sleep 500]"
  note st = traced_status [OF assms(1,2), of b]
  obtain r1 t1 w1 where 1: "halted (traced b) drv (?tr0, sleep 500 w) = Some (r1, ?tr0 @ t1, w1)"
    "stores t1 = []" "slept t1 = 0" using st(1) by blast
  obtain r2 t2 w2 where 2: "idle (traced b) drv (?tr0 @ t1, w1) = Some (r2, (?tr0 @ t1) @ t2, w2)"
    "stores t2 = []" "slept t2 = 0" using st(3) by blast
  obtain r3 t3 w3 where 3: "halted1 (traced b) drv ((?tr0 @ t1) @ t2, w2) = Some (r3, ((?tr0 @ t1) @ t2) @ t3, w3)"
    "stores t3 = []" "slept t3 = 0" using st(2) by blast
  obtain r4 t4 w4 where 4: "idle1 (traced b) drv (((?tr0 @ t1) @ t2) @ t3, w3)
      = Some (r4, (((?tr0 @ t1) @ t2) @ t3) @ t4, w4)"
    "stores t4 = []" "slept t4 = 0" using st(4) by blast
  have "wait_for_transfer (traced b) (traced_sleep sleep) drv left (tr, w)
      = wait_for_transfer (traced b) (traced_sleep sleep) drv (left - 500) (tr @ ([Sleep 500] @ t1 @ t2 @ t3 @ t4), w4)"
    using assms(3) 1(1) 2(1) 3(1) 4(1) by (simp add: wait_for_transfer.simps [of _ _ _ left] traced_sleep_def)
  moreover have "stores ([Sleep 500] @ t1 @ t2 @ t3 @ t4) = []" using 1(2) 2(2) 3(2) 4(2) by simp
  moreover have "slept ([Sleep 500] @ t1 @ t2 @ t3 @ t4) = 500" using 1(3) 2(3) 3(3) 4(3) by simp
  ultimately show ?thesis by blast
qed

lemma rounds_up: "left > 0 \<Longrightarrow> (nat left + 499) div 500 = Suc ((nat (left - 500) + 499) div 500)" for left :: int
proof (cases "left > 500")
  case True
  then have "nat left = nat (left - 500) + 500" by simp
  then show ?thesis by simp
next
  case False
  assume "left > 0"
  then have "nat left > 0" "nat left \<le> 500" "nat (left - 500) = 0" using False by simp_all
  then have "(nat left + 499) div 500 = 1" by linarith
  then show ?thesis using \<open>nat (left - 500) = 0\<close> by simp
qed

lemma wait_for_transfer_trace:
  assumes "handle_ok (dma drv)" and "handle_ok (dma1 drv)"
  shows "\<exists>t w'. wait_for_transfer (traced b) (traced_sleep sleep) drv left (tr, w) = Some (tr @ t, w') \<and>
    stores t = [] \<and> slept t = 500 * ((nat left + 499) div 500)"
proof (induction "nat left" arbitrary: left tr w rule: less_induct)
  case less
  show ?case
  proof (cases "left > 0")
    case False
    then show ?thesis by (simp add: wait_for_transfer.simps)
  next
    case True
    obtain t w' where 1: "stores t = []" "slept t = 500"
      "wait_for_transfer (traced b) (traced_sleep sleep) drv left (tr, w)
        = wait_for_transfer (traced b) (traced_sleep sleep) drv (left - 500) (tr @ t, w')"
      using wait_for_transfer_round [OF assms True, of b sleep tr w] by blast
    have "nat (left - 500) < nat left" using True by simp
    from less [OF this, of "tr @ t" w'] obtain t' w'' where 2: "stores t' = []"
      "slept t' = 500 * ((nat (left - 500) + 499) div 500)"
      "wait_for_transfer (traced b) (traced_sleep sleep) drv (left - 500) (tr @ t, w') = Some ((tr @ t) @ t', w'')"
      by blast
    show ?thesis
      by (rule exI [of _ "t @ t'"], rule exI [of _ w'']) (use 1 2 rounds_up [OF True] in simp)
  qed
qed

section \<open>Properties\<close>

text \<open>
  C33: whatever the two engines do, \<open>setup_transfer\<close> returns after at most 12 milliseconds of waiting.
  It writes the registers in the order the engines need: reset, run, destination address, and last
  the length, which starts a transfer; no other register is written. A wait that logged no error
  has seen the reset bit, respectively the halted bit, of its engine clear.
\<close>
theorem setup_transfer_sequence:
  assumes "handle_ok (dma drv)" and "handle_ok (dma1 drv)"
  shows "\<exists>e e1 f f1 v v1 u u1 tr w'.
    setup_transfer (traced b) (traced_sleep sleep) drv da da1 len ([], w) = Some ((e, e1), (f, f1), tr, w') \<and>
    stores tr = [
      (reg_addr (dma drv) s2mm_dmacr, v OR 4), (reg_addr (dma1 drv) s2mm_dmacr, v1 OR 4),
      (reg_addr (dma drv) s2mm_dmacr, u OR 1), (reg_addr (dma1 drv) s2mm_dmacr, u1 OR 1),
      (reg_addr (dma drv) s2mm_da, da), (reg_addr (dma1 drv) s2mm_da, da1),
      (reg_addr (dma drv) s2mm_length, len), (reg_addr (dma1 drv) s2mm_length, len)] \<and>
    slept tr \<le> 12 \<and>
    (e \<or> seen_clear tr (dma drv) s2mm_dmacr 2) \<and> (e1 \<or> seen_clear tr (dma1 drv) s2mm_dmacr 2) \<and>
    (f \<or> seen_clear tr (dma drv) s2mm_dmasr 0) \<and> (f1 \<or> seen_clear tr (dma1 drv) s2mm_dmasr 0)"
  using setup_transfer_trace [OF assms, of b sleep da da1 len "[]" w] by (simp only: append_Nil)

definition sample_handle :: handle where
  "sample_handle = (sample_region, sample_map)"

lemma sample_handle_ok: "handle_ok sample_handle"
  unfolding handle_ok_def sample_handle_def fst_conv snd_conv
  using sample_mapped by (intro conjI exI [of _ 12]) (simp_all, simp_all add: sample_eval)

theorem setup_transfer_sequence_witness:
  "\<exists>e f tr w'. setup_transfer (traced ram_bus) (traced_sleep (\<lambda>n w. w))
       \<lparr>dma = sample_handle, dma1 = sample_handle\<rparr> 0x1e000000 0x1f000000 1280 ([], \<lambda>a. 0) = Some (e, f, tr, w') \<and>
     length (stores tr) = 8 \<and> slept tr \<le> 12"
  using setup_transfer_sequence [of "\<lparr>dma = sample_handle, dma1 = sample_handle\<rparr>" ram_bus "\<lambda>n w. w"
      "0x1e000000" "0x1f000000" 1280 "\<lambda>a. 0"] sample_handle_ok
  by fastforce

end
