(* ===== verification/Sesenta.thy ===== *)
theory Sesenta
  imports Dma_S2MM
begin

text \<open>
  \<^verbatim>\<open>src/projects/sesenta/sesenta.hpp\<close>: the driver of the microphone array. It starts the DMA
  transfers, reads the samples back from memory, selects microphones and LEDs, and looks for the
  direction of the loudest sound.

  The FPGA is the hardware behind the bus; \<open>sleep\<close> and \<open>usleep\<close> let milliseconds and microseconds
  pass in it. Messages are left out. \<open>double\<close> arithmetic is a record of operations, \<open>'d fpu\<close>, so that
  nothing is assumed about rounding; the laws the code needs are those of the locale \<open>fpu_laws\<close>.
  The registers and memory maps are those the configuration of the project gives.
\<close>

section \<open>The configuration\<close>

definition region :: "u32 \<Rightarrow> u32 \<Rightarrow> mem_region" where
  "region addr rng = \<lparr>md_addr = addr, md_range = rng, md_prot = PROT_READ OR PROT_WRITE, md_nblocks = 1\<rparr>"

definition sesenta_memory :: "mem_region list" where
  "sesenta_memory = [
     region 0x40000000 0x1000, region 0x50000000 0x1000,
     region 0x1E000000 0x1000000, region 0x1F000000 0x1000000,
     region 0x40400000 0x10000, region 0x40480000 0x10000,
     region 0xF8008000 0x1000, region 0xF800F000 0x2000,
     region 0x40040000 0x2000, region 0x40060000 0x2000, region 0x40080000 0x2000, region 0x40100000 0x2000]"

definition mem_control :: nat where "mem_control = 0"
definition mem_status :: nat where "mem_status = 1"
definition mem_ram :: nat where "mem_ram = 2"
definition mem_ram2 :: nat where "mem_ram2 = 3"
definition mem_dma :: nat where "mem_dma = 4"
definition mem_dma1 :: nat where "mem_dma1 = 5"
definition mem_axi_hp1 :: nat where "mem_axi_hp1 = 7"
definition mem_mic0 :: nat where "mem_mic0 = 8"
definition mem_mic1 :: nat where "mem_mic1 = 9"
definition mem_mic2 :: nat where "mem_mic2 = 10"
definition mem_mic3 :: nat where "mem_mic3 = 11"

definition ram_addr :: u32 where "ram_addr = md_addr (sesenta_memory ! mem_ram)"

definition ram2_addr :: u32 where "ram2_addr = md_addr (sesenta_memory ! mem_ram2)"

text \<open>Control registers are numbered from 0, status registers from 2, four bytes each.\<close>

definition reg_dma_gate :: u32 where "reg_dma_gate = 4"
definition reg_dma_gate1 :: u32 where "reg_dma_gate1 = 8"
definition reg_n_samples :: u32 where "reg_n_samples = 12"
definition reg_mic_select :: u32 where "reg_mic_select = 16"
definition reg_led_select :: u32 where "reg_led_select = 20"
definition reg_start_capture :: u32 where "reg_start_capture = 24"
definition reg_done_capture :: u32 where "reg_done_capture = 12"

definition mic_size :: nat where
  "mic_size = unat (md_range (sesenta_memory ! mem_mic0)) div 4"

section \<open>The driver\<close>

record sesenta =
  dma_drv :: dma_s2mm
  ctl :: handle
  sts :: handle
  ram :: handle
  ram2 :: handle
  mic0_br :: handle
  mic1_br :: handle
  mic2_br :: handle
  mic3_br :: handle

definition new_sesenta :: "memory_manager \<Rightarrow> sesenta" where
  "new_sesenta mm = (let get = mm_get sesenta_memory mm in \<lparr>
     dma_drv = \<lparr>dma = get mem_dma, dma1 = get mem_dma1\<rparr>,
     ctl = get mem_control, sts = get mem_status, ram = get mem_ram, ram2 = get mem_ram2,
     mic0_br = get mem_mic0, mic1_br = get mem_mic1, mic2_br = get mem_mic2, mic3_br = get mem_mic3\<rparr>)"

definition dma_on :: "'w bus \<Rightarrow> sesenta \<Rightarrow> 'w \<Rightarrow> 'w option" where
  "dma_on b drv w = via b (ctl drv) mem_set_bit reg_dma_gate 0 w"

definition dma_off :: "'w bus \<Rightarrow> sesenta \<Rightarrow> 'w \<Rightarrow> 'w option" where
  "dma_off b drv w = via b (ctl drv) mem_clear_bit reg_dma_gate 0 w"

definition dma1_on :: "'w bus \<Rightarrow> sesenta \<Rightarrow> 'w \<Rightarrow> 'w option" where
  "dma1_on b drv w = via b (ctl drv) mem_set_bit reg_dma_gate1 0 w"

definition dma1_off :: "'w bus \<Rightarrow> sesenta \<Rightarrow> 'w \<Rightarrow> 'w option" where
  "dma1_off b drv w = via b (ctl drv) mem_clear_bit reg_dma_gate1 0 w"

definition set_nsamples :: "'w bus \<Rightarrow> sesenta \<Rightarrow> u32 \<Rightarrow> 'w \<Rightarrow> 'w option" where
  "set_nsamples b drv samples w = via b (ctl drv) write_reg reg_n_samples samples w"

definition get_nsamples :: "'w bus \<Rightarrow> sesenta \<Rightarrow> 'w \<Rightarrow> (u32 \<times> 'w) option" where
  "get_nsamples b drv w = via b (ctl drv) read_reg reg_n_samples w"

definition read_offset :: u32 where "read_offset = 5"

text \<open>
  \<open>ms npoints\<close> is \<open>uint32_t(3000 * float(npoints / 3072.0))\<close>, the milliseconds that
  \<open>wait_for_transfer\<close> computes from its argument.
\<close>

definition start_dma_transfer ::
    "'w bus \<Rightarrow> (nat \<Rightarrow> 'w \<Rightarrow> 'w) \<Rightarrow> (u32 \<Rightarrow> nat) \<Rightarrow> sesenta \<Rightarrow> u32 \<Rightarrow> 'w \<Rightarrow> 'w option" where
  "start_dma_transfer b sleep ms drv samples w = do {
     w \<leftarrow> set_nsamples b drv (samples + read_offset) w;
     (npoints, w) \<leftarrow> get_nsamples b drv w;
     (_, _, w) \<leftarrow> setup_transfer b sleep (dma_drv drv) ram_addr ram2_addr (256 * npoints) w;
     w \<leftarrow> dma_on b drv w;
     w \<leftarrow> dma1_on b drv w;
     wait_for_transfer b sleep (dma_drv drv) (int (ms npoints)) w }"

definition split_mic_value :: "u32 \<Rightarrow> u16 \<times> u16" where
  "split_mic_value mic_value = (ucast (mic_value AND 0xFFFF), ucast (drop_bit 16 mic_value AND 0xFFFF))"

text \<open>Both halves of a word, sign-extended: \<open>static_cast<int32_t>(static_cast<int16_t>(...))\<close>.\<close>

definition mic_pair :: "u32 \<Rightarrow> u32 list" where
  "mic_pair mic = (let (mic1, mic2) = split_mic_value mic in [scast mic1, scast mic2])"

text \<open>\<open>(int)samples + 1\<close>, the bound of the sample loops; the addition overflows at the largest \<open>int\<close>.\<close>

definition sample_bound :: "u32 \<Rightarrow> nat option" where
  "sample_bound samples = (if sint samples + 1 < 2 ^ 31 then Some (nat (sint samples + 1)) else None)"

text \<open>
  The loops over one memory: \<open>for (i = 1; i < samples + 1; i++)\<close>, and in it the loop over the words
  \<open>mic_idx + i * num_mics\<close> of a sample. \<open>push\<close> is what the body appends to \<open>data_ret\<close>.
\<close>

definition mics_loop :: "'w bus \<Rightarrow> handle \<Rightarrow> nat \<Rightarrow> nat \<Rightarrow> (u32 \<Rightarrow> u32 list) \<Rightarrow> u32 \<Rightarrow>
    u32 list \<times> 'w \<Rightarrow> (u32 list \<times> 'w) option" where
  "mics_loop b h num_mics total_mics push samples s = do {
     n \<leftarrow> sample_bound samples;
     for_loop 1 n (\<lambda>i s. for_loop 0 total_mics (\<lambda>mic_idx (data_ret, w). do {
         (mic, w) \<leftarrow> via b h read_array_value_at_index 1 0 (word_of_nat (mic_idx + i * num_mics)) 0 w;
         Some (data_ret @ push mic, w) }) s) s }"

definition read_mics6 :: "'w bus \<Rightarrow> sesenta \<Rightarrow> u32 \<Rightarrow> 'w \<Rightarrow> (u32 list \<times> 'w) option" where
  "read_mics6 b drv samples w = do {
     s \<leftarrow> mics_loop b (ram drv) 8 2 mic_pair samples ([], w);
     mics_loop b (ram2 drv) 8 2 mic_pair samples s }"

definition get_mics6 ::
    "'w bus \<Rightarrow> (nat \<Rightarrow> 'w \<Rightarrow> 'w) \<Rightarrow> (u32 \<Rightarrow> nat) \<Rightarrow> sesenta \<Rightarrow> u32 \<Rightarrow> 'w \<Rightarrow> (u32 list \<times> 'w) option" where
  "get_mics6 b sleep ms drv samples w = do {
     w \<leftarrow> start_dma_transfer b sleep ms drv samples w;
     w \<leftarrow> dma_off b drv w;
     w \<leftarrow> dma1_off b drv w;
     s \<leftarrow> mics_loop b (ram drv) 8 2 mic_pair samples ([], w);
     mics_loop b (ram2 drv) 8 2 mic_pair samples s }"

definition get_mics4 ::
    "'w bus \<Rightarrow> (nat \<Rightarrow> 'w \<Rightarrow> 'w) \<Rightarrow> (u32 \<Rightarrow> nat) \<Rightarrow> sesenta \<Rightarrow> u32 \<Rightarrow> 'w \<Rightarrow> (u32 list \<times> 'w) option" where
  "get_mics4 b sleep ms drv samples w = do {
     w \<leftarrow> start_dma_transfer b sleep ms drv samples w;
     w \<leftarrow> dma_off b drv w;
     w \<leftarrow> dma1_off b drv w;
     mics_loop b (ram drv) 8 4 (\<lambda>mic. [mic]) samples ([], w) }"

definition get_mics ::
    "'w bus \<Rightarrow> (nat \<Rightarrow> 'w \<Rightarrow> 'w) \<Rightarrow> (u32 \<Rightarrow> nat) \<Rightarrow> sesenta \<Rightarrow> u32 \<Rightarrow> 'w \<Rightarrow> (u32 list \<times> 'w) option" where
  "get_mics b sleep ms drv samples w = do {
     w \<leftarrow> start_dma_transfer b sleep ms drv samples w;
     w \<leftarrow> dma_off b drv w;
     w \<leftarrow> dma1_off b drv w;
     s \<leftarrow> mics_loop b (ram drv) 16 16 mic_pair samples ([], w);
     mics_loop b (ram2 drv) 16 16 mic_pair samples s }"

definition get_mics_ith ::
    "'w bus \<Rightarrow> (nat \<Rightarrow> 'w \<Rightarrow> 'w) \<Rightarrow> (u32 \<Rightarrow> nat) \<Rightarrow> sesenta \<Rightarrow> u32 \<Rightarrow> u32 \<Rightarrow> 'w \<Rightarrow> (u32 list \<times> 'w) option" where
  "get_mics_ith b sleep ms drv samples mic_idx w = do {
     w \<leftarrow> start_dma_transfer b sleep ms drv samples w;
     w \<leftarrow> dma_off b drv w;
     w \<leftarrow> dma1_off b drv w;
     n \<leftarrow> sample_bound samples;
     for_loop 1 n (\<lambda>i (data_ret, w). do {
       (mic, w) \<leftarrow> via b (ram drv) read_array_value_at_index 1 0 (mic_idx + word_of_nat (i * 8)) 0 w;
       (mic2, w) \<leftarrow> via b (ram2 drv) read_array_value_at_index 1 0 (mic_idx + word_of_nat (i * 8)) 0 w;
       Some (data_ret @ mic_pair mic @ mic_pair mic2, w) }) ([], w) }"

definition get_mic_ith :: "'w bus \<Rightarrow> sesenta \<Rightarrow> u32 \<Rightarrow> 'w \<Rightarrow> (u32 list \<times> 'w) option" where
  "get_mic_ith b drv mic_idx w =
     (if mic_idx = 0 then via b (mic0_br drv) read_array mic_size 0 0 w
      else if mic_idx = 1 then via b (mic1_br drv) read_array mic_size 0 0 w
      else if mic_idx = 2 then via b (mic2_br drv) read_array mic_size 0 0 w
      else if mic_idx = 3 then via b (mic3_br drv) read_array mic_size 0 0 w
      else Some (replicate mic_size 0, w))"

text \<open>\<open>while (!(sts.read_reg(reg::done_capture) & 0x1));\<close> has no bound: \<^term>\<open>None\<close> when it does not end.\<close>

partial_function (option) wait_done :: "'w bus \<Rightarrow> sesenta \<Rightarrow> 'w \<Rightarrow> 'w option" where
  "wait_done b drv w = do {
     (v, w) \<leftarrow> via b (sts drv) read_reg reg_done_capture w;
     if v AND 1 \<noteq> 0 then Some w else wait_done b drv w }"

definition set_mic_sel :: "'w bus \<Rightarrow> (nat \<Rightarrow> 'w \<Rightarrow> 'w) \<Rightarrow> sesenta \<Rightarrow> u32 \<Rightarrow> 'w \<Rightarrow> 'w option" where
  "set_mic_sel b usleep drv sel w = do {
     w \<leftarrow> via b (ctl drv) write_reg reg_mic_select sel w;
     w \<leftarrow> via b (ctl drv) mem_set_bit reg_start_capture 0 w;
     w \<leftarrow> via b (ctl drv) mem_clear_bit reg_start_capture 0 (usleep 1 w);
     wait_done b drv w }"

definition get_mics_bram ::
    "'w bus \<Rightarrow> (nat \<Rightarrow> 'w \<Rightarrow> 'w) \<Rightarrow> sesenta \<Rightarrow> u32 \<Rightarrow> 'w \<Rightarrow> (u32 list \<times> 'w) option" where
  "get_mics_bram b usleep drv dir w =
     for_loop 0 4 (\<lambda>mic (data_ret, w). do {
       w \<leftarrow> set_mic_sel b usleep drv dir w;
       (mic_data, w) \<leftarrow> get_mic_ith b drv (word_of_nat mic) w;
       Some (data_ret @ mic_data, w) }) ([], w)"

definition set_led_sel :: "'w bus \<Rightarrow> sesenta \<Rightarrow> u32 \<Rightarrow> 'w \<Rightarrow> 'w option" where
  "set_led_sel b drv sel w = via b (ctl drv) write_reg reg_led_select sel w"

definition get_mic_size :: u32 where
  "get_mic_size = word_of_nat mic_size"

section \<open>Beamforming\<close>

record 'd fpu =
  f_zero :: 'd
  f_add :: "'d \<Rightarrow> 'd \<Rightarrow> 'd"
  f_mul :: "'d \<Rightarrow> 'd \<Rightarrow> 'd"
  f_less :: "'d \<Rightarrow> 'd \<Rightarrow> bool"
  f_of_u32 :: "u32 \<Rightarrow> 'd"

definition M_DATA_TO_MIC :: "u32 list" where
  "M_DATA_TO_MIC = [14, 8, 2, 20]"

text \<open>The loops over the samples: a microphone added to the signal, and the power of the signal.\<close>

definition add_signal :: "'d fpu \<Rightarrow> 'd list \<Rightarrow> u32 list \<Rightarrow> 'd list" where
  "add_signal F signal mic_data = map2 (\<lambda>s x. f_add F s (f_of_u32 F x)) signal mic_data"

definition signal_power :: "'d fpu \<Rightarrow> 'd list \<Rightarrow> 'd" where
  "signal_power F signal = foldl (\<lambda>power s. f_add F power (f_mul F s s)) (f_zero F) signal"

definition beam_power ::
    "'d fpu \<Rightarrow> 'w bus \<Rightarrow> (nat \<Rightarrow> 'w \<Rightarrow> 'w) \<Rightarrow> sesenta \<Rightarrow> nat \<Rightarrow> 'w \<Rightarrow> ('d \<times> 'w) option" where
  "beam_power F b usleep drv dir w = do {
     w \<leftarrow> set_mic_sel b usleep drv (word_of_nat dir) w;
     (signal, w) \<leftarrow> for_loop 0 4 (\<lambda>mic (signal, w). do {
       (mic_data, w) \<leftarrow> get_mic_ith b drv (word_of_nat mic) w;
       Some (add_signal F signal mic_data, w) }) (replicate mic_size (f_zero F), w);
     Some (signal_power F signal, w) }"

definition max_direction :: "'d fpu \<Rightarrow> 'd list \<Rightarrow> nat" where
  "max_direction F powers = fst (foldl (\<lambda>(best, power) dir.
     if f_less F power (powers ! dir) then (dir, powers ! dir) else (best, power))
     (0, f_zero F) [0..<length powers])"

text \<open>One round of the loop of \<open>beamf_thread\<close>.\<close>

definition beamf_round ::
    "'d fpu \<Rightarrow> 'w bus \<Rightarrow> (nat \<Rightarrow> 'w \<Rightarrow> 'w) \<Rightarrow> sesenta \<Rightarrow> 'w \<Rightarrow> 'w option" where
  "beamf_round F b usleep drv w = do {
     (powers, w) \<leftarrow> for_loop 0 4 (\<lambda>dir (powers, w). do {
       (power, w) \<leftarrow> beam_power F b usleep drv dir w;
       Some (powers @ [power], w) }) ([], w);
     set_led_sel b drv (M_DATA_TO_MIC ! max_direction F powers) w }"

text \<open>
  The flag \<open>beamforming_started\<close> and the threads. \<open>start_beamforming\<close> reads the flag; the thread it
  creates sets it, later. The destructor clears it and joins a thread that was detached.
\<close>

record beamforming =
  beamforming_started :: bool
  pending :: nat
  running :: nat

definition start_beamforming :: "beamforming \<Rightarrow> beamforming" where
  "start_beamforming s = (if \<not> beamforming_started s then s\<lparr>pending := pending s + 1\<rparr> else s)"

inductive beam_step :: "beamforming \<Rightarrow> beamforming \<Rightarrow> bool" where
  start: "beam_step s (start_beamforming s)"
| thread_begins: "pending s > 0 \<Longrightarrow>
    beam_step s (s\<lparr>beamforming_started := True, pending := pending s - 1, running := running s + 1\<rparr>)"
| thread_ends: "\<not> beamforming_started s \<Longrightarrow> running s > 0 \<Longrightarrow> beam_step s (s\<lparr>running := running s - 1\<rparr>)"

section \<open>Reading the samples\<close>

text \<open>
  What the memory holds: the words of the samples \<open>1 .. n - 1\<close>, \<open>total\<close> of the \<open>num\<close> words of each.
\<close>

definition samples_of :: "(u32 \<Rightarrow> u32) \<Rightarrow> u32 \<Rightarrow> nat \<Rightarrow> nat \<Rightarrow> (u32 \<Rightarrow> u32 list) \<Rightarrow> nat \<Rightarrow> u32 list" where
  "samples_of mem start num total_mics push n =
     concat (map (\<lambda>i. concat (map (\<lambda>j. push (mem (start + 4 * word_of_nat (j + i * num)))) [0..<total_mics])) [1..<n])"

text \<open>The first \<open>n\<close> words of the map are storage.\<close>

definition storage_words :: "u32 set \<Rightarrow> handle \<Rightarrow> nat \<Rightarrow> bool" where
  "storage_words R h n \<longleftrightarrow> 4 * n \<le> unat (get_range (fst h)) \<and>
     (\<forall>k < n. get_base_addr (fst h) + 4 * word_of_nat k \<in> R)"

lemma word_at_storage:
  assumes st: "storage b peek R" and h: "handle_ok h" and R: "storage_words R h n" and k: "k < n"
  shows "via b h read_array_value_at_index 1 0 (word_of_nat k) 0 w
    = Some (peek w (get_base_addr (fst h) + 4 * word_of_nat k), w)"
proof -
  let ?q = "4 * word_of_nat k :: u32"
  have rng: "4096 \<le> unat (get_range (fst h))" using h by (simp add: handle_ok_def)
  have lt: "4 * k < unat (get_range (fst h))" using R k by (simp add: storage_words_def)
  then have lt32: "4 * k < 2 ^ LENGTH(32)" using unsigned_less [of "get_range (fst h)"] less_trans by blast
  have "?q = word_of_nat (4 * k)" by simp
  then have q: "unat ?q = 4 * k" using lt32 by (simp only: unat_of_nat mod_less)
  have "unat ?q + 4 \<le> unat (get_range (fst h))" using R k q by (simp add: storage_words_def)
  then have tr: "translate (fst h) (snd h) (base_address (snd h) + ?q) = Some (get_base_addr (fst h) + ?q)"
    using handle_translate [OF h, of ?q] q by simp
  have inR: "get_base_addr (fst h) + ?q \<in> R" using R k by (simp add: storage_words_def)
  obtain kk where kk: "mapped (fst h) (snd h) kk" "unat (get_range (fst h)) \<le> 2 ^ kk"
    using h by (auto simp: handle_ok_def)
  then have "unat (get_range (fst h) * get_n_blocks (fst h)) = 2 ^ kk"
    by (simp add: mapped_def get_total_size_def unat_pow2)
  then have "0 < unat (get_range (fst h) * get_n_blocks (fst h))" by simp
  moreover have "0 < get_range (fst h)" using rng by (simp add: word_less_nat_alt)
  ultimately show ?thesis
    using storage.vload_storage [OF st tr inR, of w] handle_rw [OF h]
    by (simp add: read_array_value_at_index_def get_ptr_def)
qed

lemma mics_loop_storage:
  assumes st: "storage b peek R" and h: "handle_ok h" and n: "sample_bound samples = Some n"
    and R: "storage_words R h (n * num)" and tot: "total_mics \<le> num"
  shows "mics_loop b h num total_mics push samples (d0, w)
    = Some (d0 @ samples_of (peek w) (get_base_addr (fst h)) num total_mics push n, w)"
proof -
  let ?cell = "\<lambda>i j. push (peek w (get_base_addr (fst h) + 4 * word_of_nat (j + i * num)))"
  let ?row = "\<lambda>i m. concat (map (?cell i) [0..<m])"
  let ?body = "\<lambda>i mic_idx (data_ret, w). do {
         (mic, w) \<leftarrow> via b h read_array_value_at_index 1 0 (word_of_nat (mic_idx + i * num)) 0 w;
         Some (data_ret @ push mic, w) }"
  have row: "for_loop 0 total_mics (?body i) (d, w) = Some (d @ ?row i total_mics, w)" if i: "i < n" for i d
  proof -
    let ?I = "\<lambda>m s. s = (d @ ?row i m, w)"
    have "\<exists>s'. for_loop 0 total_mics (?body i) (d, w) = Some s' \<and> ?I total_mics s'"
    proof (rule for_loop_inv [where I = ?I])
      fix m s assume m: "m < total_mics" and s: "s = (d @ ?row i m, w)"
      have "Suc i * num \<le> n * num" using i by (intro mult_le_mono1) simp
      then have "m + i * num < n * num" using m tot by simp
      from word_at_storage [OF st h R this, of w]
      show "\<exists>s'. ?body i m s = Some s' \<and> s' = (d @ ?row i (Suc m), w)"
        using s by simp
    qed simp_all
    then show ?thesis by simp
  qed
  have "for_loop 1 n (\<lambda>i s. for_loop 0 total_mics (?body i) s) (d0, w)
      = Some (d0 @ samples_of (peek w) (get_base_addr (fst h)) num total_mics push n, w)"
  proof (cases "n = 0")
    case True
    then show ?thesis by (simp add: samples_of_def)
  next
    case False
    let ?J = "\<lambda>i s. s = (d0 @ concat (map (\<lambda>i. ?row i total_mics) [1..<i]), w)"
    have "\<exists>s'. for_loop 1 n (\<lambda>i s. for_loop 0 total_mics (?body i) s) (d0, w) = Some s' \<and> ?J n s'"
      by (rule for_loop_inv [where I = ?J]) (use False row in simp_all)
    then show ?thesis by (simp add: samples_of_def)
  qed
  then show ?thesis by (simp add: mics_loop_def n)
qed

lemma get_mics_layout_parts:
  assumes st: "storage b peek R" and h: "handle_ok (ram drv)" "handle_ok (ram2 drv)"
    and n: "sample_bound samples = Some n"
    and R: "storage_words R (ram drv) (n * 16)" "storage_words R (ram2 drv) (n * 16)"
  defines "r \<equiv> get_base_addr (fst (ram drv))" and "r2 \<equiv> get_base_addr (fst (ram2 drv))"
  shows "read_mics6 b drv samples w
      = Some (samples_of (peek w) r 8 2 mic_pair n @ samples_of (peek w) r2 8 2 mic_pair n, w)"
    and "get_mics6 b sleep ms drv samples w = do {
      w \<leftarrow> start_dma_transfer b sleep ms drv samples w; w \<leftarrow> dma_off b drv w; w \<leftarrow> dma1_off b drv w;
      Some (samples_of (peek w) r 8 2 mic_pair n @ samples_of (peek w) r2 8 2 mic_pair n, w) }"
    and "get_mics b sleep ms drv samples w = do {
      w \<leftarrow> start_dma_transfer b sleep ms drv samples w; w \<leftarrow> dma_off b drv w; w \<leftarrow> dma1_off b drv w;
      Some (samples_of (peek w) r 16 16 mic_pair n @ samples_of (peek w) r2 16 16 mic_pair n, w) }"
    and "get_mics4 b sleep ms drv samples w = do {
      w \<leftarrow> start_dma_transfer b sleep ms drv samples w; w \<leftarrow> dma_off b drv w; w \<leftarrow> dma1_off b drv w;
      Some (samples_of (peek w) r 8 4 (\<lambda>mic. [mic]) n, w) }"
proof -
  have R8: "storage_words R (ram drv) (n * 8)" "storage_words R (ram2 drv) (n * 8)"
    using R by (simp_all add: storage_words_def)
  note loops = mics_loop_storage [OF st h(1) n R8(1)] mics_loop_storage [OF st h(2) n R8(2)]
    mics_loop_storage [OF st h(1) n R(1)] mics_loop_storage [OF st h(2) n R(2)]
  show "read_mics6 b drv samples w
      = Some (samples_of (peek w) r 8 2 mic_pair n @ samples_of (peek w) r2 8 2 mic_pair n, w)"
    by (simp add: read_mics6_def loops r_def r2_def)
  show "get_mics6 b sleep ms drv samples w = do {
      w \<leftarrow> start_dma_transfer b sleep ms drv samples w; w \<leftarrow> dma_off b drv w; w \<leftarrow> dma1_off b drv w;
      Some (samples_of (peek w) r 8 2 mic_pair n @ samples_of (peek w) r2 8 2 mic_pair n, w) }"
    by (simp add: get_mics6_def loops r_def r2_def)
  show "get_mics b sleep ms drv samples w = do {
      w \<leftarrow> start_dma_transfer b sleep ms drv samples w; w \<leftarrow> dma_off b drv w; w \<leftarrow> dma1_off b drv w;
      Some (samples_of (peek w) r 16 16 mic_pair n @ samples_of (peek w) r2 16 16 mic_pair n, w) }"
    by (simp add: get_mics_def loops r_def r2_def)
  show "get_mics4 b sleep ms drv samples w = do {
      w \<leftarrow> start_dma_transfer b sleep ms drv samples w; w \<leftarrow> dma_off b drv w; w \<leftarrow> dma1_off b drv w;
      Some (samples_of (peek w) r 8 4 (\<lambda>mic. [mic]) n, w) }"
    by (simp add: get_mics4_def loops r_def)
qed

text \<open>
  C34: the microphone readers return, for each of the samples after the first, the words of the sample
  in order, first those of one memory and then those of the other, each word split into its two
  sign-extended halves; \<open>get_mics4\<close> returns whole words. They do this on the memory the transfer has
  left, after closing both gates.
\<close>
theorem get_mics_layout:
  assumes st: "storage b peek R" and h: "handle_ok (ram drv)" "handle_ok (ram2 drv)"
    and n: "sample_bound samples = Some n"
    and R: "storage_words R (ram drv) (n * 16)" "storage_words R (ram2 drv) (n * 16)"
  defines "r \<equiv> get_base_addr (fst (ram drv))" and "r2 \<equiv> get_base_addr (fst (ram2 drv))"
  shows "read_mics6 b drv samples w
      = Some (samples_of (peek w) r 8 2 mic_pair n @ samples_of (peek w) r2 8 2 mic_pair n, w) \<and>
    get_mics6 b sleep ms drv samples w = do {
      w \<leftarrow> start_dma_transfer b sleep ms drv samples w; w \<leftarrow> dma_off b drv w; w \<leftarrow> dma1_off b drv w;
      Some (samples_of (peek w) r 8 2 mic_pair n @ samples_of (peek w) r2 8 2 mic_pair n, w) } \<and>
    get_mics b sleep ms drv samples w = do {
      w \<leftarrow> start_dma_transfer b sleep ms drv samples w; w \<leftarrow> dma_off b drv w; w \<leftarrow> dma1_off b drv w;
      Some (samples_of (peek w) r 16 16 mic_pair n @ samples_of (peek w) r2 16 16 mic_pair n, w) } \<and>
    get_mics4 b sleep ms drv samples w = do {
      w \<leftarrow> start_dma_transfer b sleep ms drv samples w; w \<leftarrow> dma_off b drv w; w \<leftarrow> dma1_off b drv w;
      Some (samples_of (peek w) r 8 4 (\<lambda>mic. [mic]) n, w) }"
  unfolding r_def r2_def by (intro conjI get_mics_layout_parts [OF st h n R])

text \<open>A driver whose maps are all the same page, for the examples.\<close>

definition sample_sesenta :: sesenta where
  "sample_sesenta = \<lparr>dma_drv = \<lparr>dma = sample_handle, dma1 = sample_handle\<rparr>, ctl = sample_handle, sts = sample_handle,
     ram = sample_handle, ram2 = sample_handle, mic0_br = sample_handle, mic1_br = sample_handle,
     mic2_br = sample_handle, mic3_br = sample_handle\<rparr>"

theorem get_mics_layout_witness:
  "read_mics6 ram_bus sample_sesenta 1 (\<lambda>a. if a = 0x40000020 then 0xFFFE0003 else 7)
     = Some ([3, - 2, 7, 0, 3, - 2, 7, 0], \<lambda>a. if a = 0x40000020 then 0xFFFE0003 else 7)"
proof -
  have n: "sample_bound 1 = Some 2" by (simp add: sample_bound_def)
  have "read_mics6 ram_bus sample_sesenta 1 w =
      Some (samples_of w 0x40000000 8 2 mic_pair 2 @ samples_of w 0x40000000 8 2 mic_pair 2, w)" for w
    using get_mics_layout [OF ram.storage_axioms, of sample_sesenta 1 2 w] sample_handle_ok n
    by (simp add: sample_sesenta_def storage_words_def, simp add: sample_handle_def sample_eval)
  then show ?thesis
    by (simp add: samples_of_def mic_pair_def split_mic_value_def upt_conv_Cons del: upt_Suc)
qed

lemma mic_pair_halves:
  "mic_pair v = [scast (ucast v :: u16), scast (ucast (drop_bit 16 v) :: u16)]"
proof -
  have F: "(0xFFFF :: u32) = mask 16" by (simp add: mask_eq_exp_minus_1)
  have "(ucast (x AND 0xFFFF) :: u16) = ucast x" for x :: u32
    unfolding F by (rule bit_word_eqI) (auto simp: bit_simps)
  then show ?thesis by (simp add: mic_pair_def split_mic_value_def)
qed

lemma sint_scast_up: "sint (scast (x :: u16) :: u32) = sint x"
  using sint_ge [of x] sint_lt [of x] by (simp add: signed_scast_eq signed_take_bit_int_eq_self_iff)

text \<open>
  The two values of a word are 16-bit samples, between -32768 and 32767, and the word can be
  put together from them again, so nothing of it is lost.
\<close>
lemma mic_pair_samples:
  "\<exists>lo hi. mic_pair v = [lo, hi] \<and> sint lo \<in> {- 32768 .. 32767} \<and> sint hi \<in> {- 32768 .. 32767} \<and>
     v = (lo AND 0xFFFF) OR push_bit 16 hi"
proof -
  have rng: "sint (scast (x :: u16) :: u32) \<in> {- 32768 .. 32767}" for x
    using sint_ge [of x] sint_lt [of x] by (simp add: sint_scast_up)
  have F: "(0xFFFF :: u32) = mask 16" by (simp add: mask_eq_exp_minus_1)
  have "v = (scast (ucast v :: u16) AND 0xFFFF) OR push_bit 16 (scast (ucast (drop_bit 16 v) :: u16))"
    unfolding F
  proof (rule bit_word_eqI)
    fix n assume "n < LENGTH(32)"
    then show "bit v n = bit ((scast (ucast v :: u16) AND mask 16) OR
        push_bit 16 (scast (ucast (drop_bit 16 v) :: u16)) :: u32) n"
      by (cases "n < 16") (auto simp: bit_simps min_absorb2)
  qed
  then show ?thesis using rng by (simp add: mic_pair_halves)
qed

section \<open>Starting a transfer\<close>

lemma sesenta_regs [simp]:
  "page_reg reg_dma_gate" "page_reg reg_dma_gate1" "page_reg reg_n_samples" "page_reg reg_mic_select"
  "page_reg reg_led_select" "page_reg reg_start_capture" "page_reg reg_done_capture"
  by (simp_all add: page_reg_def reg_dma_gate_def reg_dma_gate1_def reg_n_samples_def reg_mic_select_def
      reg_led_select_def reg_start_capture_def reg_done_capture_def)

text \<open>
  \<open>start_dma_transfer\<close> returns whatever the hardware does. It announces \<open>samples + 5\<close> samples, sets
  both engines up for 256 bytes for each sample the FPGA reports back, opens the two gates after the
  engines are armed, and waits at least the computed time.
\<close>
lemma start_dma_transfer_sequence:
  assumes h: "handle_ok (ctl drv)" "handle_ok (dma (dma_drv drv))" "handle_ok (dma1 (dma_drv drv))"
  shows "\<exists>npoints v v1 u u1 g g1 tr w'.
    start_dma_transfer (traced b) (traced_sleep sleep) ms drv samples ([], w) = Some (tr, w') \<and>
    Load (reg_addr (ctl drv) reg_n_samples) npoints \<in> set tr \<and> ms npoints \<le> slept tr \<and>
    stores tr = [(reg_addr (ctl drv) reg_n_samples, samples + 5),
      (reg_addr (dma (dma_drv drv)) s2mm_dmacr, v OR 4), (reg_addr (dma1 (dma_drv drv)) s2mm_dmacr, v1 OR 4),
      (reg_addr (dma (dma_drv drv)) s2mm_dmacr, u OR 1), (reg_addr (dma1 (dma_drv drv)) s2mm_dmacr, u1 OR 1),
      (reg_addr (dma (dma_drv drv)) s2mm_da, 0x1E000000), (reg_addr (dma1 (dma_drv drv)) s2mm_da, 0x1F000000),
      (reg_addr (dma (dma_drv drv)) s2mm_length, 256 * npoints),
      (reg_addr (dma1 (dma_drv drv)) s2mm_length, 256 * npoints),
      (reg_addr (ctl drv) reg_dma_gate, g OR 1), (reg_addr (ctl drv) reg_dma_gate1, g1 OR 1)]"
proof -
  let ?T = "traced b"
  obtain w1 where 1: "set_nsamples ?T drv (samples + read_offset) ([], w)
      = Some ([Store (reg_addr (ctl drv) reg_n_samples) (samples + read_offset)], w1)"
    using traced_write_reg [OF h(1) sesenta_regs(3), of b "samples + read_offset" "[]" w]
    by (auto simp: set_nsamples_def)
  let ?t1 = "[Store (reg_addr (ctl drv) reg_n_samples) (samples + read_offset)]"
  obtain n w2 where 2: "get_nsamples ?T drv (?t1, w1) = Some (n, ?t1 @ [Load (reg_addr (ctl drv) reg_n_samples) n], w2)"
    using traced_read_reg [OF h(1) sesenta_regs(3), of b ?t1 w1] by (auto simp: get_nsamples_def)
  let ?t2 = "?t1 @ [Load (reg_addr (ctl drv) reg_n_samples) n]"
  obtain e f v v1 u u1 t3 w3 where 3:
    "setup_transfer ?T (traced_sleep sleep) (dma_drv drv) ram_addr ram2_addr (256 * n) (?t2, w2) = Some (e, f, ?t2 @ t3, w3)"
    "stores t3 = [
      (reg_addr (dma (dma_drv drv)) s2mm_dmacr, v OR 4), (reg_addr (dma1 (dma_drv drv)) s2mm_dmacr, v1 OR 4),
      (reg_addr (dma (dma_drv drv)) s2mm_dmacr, u OR 1), (reg_addr (dma1 (dma_drv drv)) s2mm_dmacr, u1 OR 1),
      (reg_addr (dma (dma_drv drv)) s2mm_da, ram_addr), (reg_addr (dma1 (dma_drv drv)) s2mm_da, ram2_addr),
      (reg_addr (dma (dma_drv drv)) s2mm_length, 256 * n), (reg_addr (dma1 (dma_drv drv)) s2mm_length, 256 * n)]"
    using setup_transfer_trace [OF h(2,3), of b sleep ram_addr ram2_addr "256 * n" ?t2 w2] by blast
  obtain g w4 where 4: "dma_on ?T drv (?t2 @ t3, w3) = Some ((?t2 @ t3) @
      [Load (reg_addr (ctl drv) reg_dma_gate) g, Store (reg_addr (ctl drv) reg_dma_gate) (g OR 1)], w4)"
    using traced_set_bit [OF h(1) sesenta_regs(1), of 0 b "?t2 @ t3" w3] by (auto simp: dma_on_def)
  let ?t4 = "[Load (reg_addr (ctl drv) reg_dma_gate) g, Store (reg_addr (ctl drv) reg_dma_gate) (g OR 1)]"
  obtain g1 w5 where 5: "dma1_on ?T drv ((?t2 @ t3) @ ?t4, w4) = Some (((?t2 @ t3) @ ?t4) @
      [Load (reg_addr (ctl drv) reg_dma_gate1) g1, Store (reg_addr (ctl drv) reg_dma_gate1) (g1 OR 1)], w5)"
    using traced_set_bit [OF h(1) sesenta_regs(2), of 0 b "(?t2 @ t3) @ ?t4" w4] by (auto simp: dma1_on_def)
  let ?t5 = "[Load (reg_addr (ctl drv) reg_dma_gate1) g1, Store (reg_addr (ctl drv) reg_dma_gate1) (g1 OR 1)]"
  obtain t6 w6 where 6: "wait_for_transfer ?T (traced_sleep sleep) (dma_drv drv) (int (ms n)) (((?t2 @ t3) @ ?t4) @ ?t5, w5)
      = Some ((((?t2 @ t3) @ ?t4) @ ?t5) @ t6, w6)" "stores t6 = []" "slept t6 = 500 * ((nat (int (ms n)) + 499) div 500)"
    using wait_for_transfer_trace [OF h(2,3), of b sleep "int (ms n)" "((?t2 @ t3) @ ?t4) @ ?t5" w5] by blast
  have ms: "ms n \<le> slept t6" using 6(3) by simp
  have run: "start_dma_transfer ?T (traced_sleep sleep) ms drv samples ([], w)
      = Some ((((?t2 @ t3) @ ?t4) @ ?t5) @ t6, w6)"
    using 1 2 3(1) 4 5 6(1) by (simp add: start_dma_transfer_def)
  have addr: "ram_addr = 0x1E000000" "ram2_addr = 0x1F000000"
    by (simp_all add: ram_addr_def ram2_addr_def sesenta_memory_def mem_ram_def mem_ram2_def region_def)
  show ?thesis
    by (rule exI [of _ n], rule exI [of _ v], rule exI [of _ v1], rule exI [of _ u], rule exI [of _ u1],
        rule exI [of _ g], rule exI [of _ g1], rule exI [of _ "(((?t2 @ t3) @ ?t4) @ ?t5) @ t6"], rule exI [of _ w6])
      (use ms run in \<open>simp add: 3(2) 6(2) read_offset_def addr\<close>)
qed

section \<open>Selecting a microphone\<close>

text \<open>The hardware after \<open>n\<close> loads of a register, and what the next load returns.\<close>

fun after_loads :: "'w bus \<Rightarrow> u32 \<Rightarrow> nat \<Rightarrow> 'w \<Rightarrow> 'w" where
  "after_loads b a 0 w = w"
| "after_loads b a (Suc n) w = after_loads b a n (snd (bus_load b a w))"

definition nth_load :: "'w bus \<Rightarrow> u32 \<Rightarrow> nat \<Rightarrow> 'w \<Rightarrow> u32" where
  "nth_load b a n w = fst (bus_load b a (after_loads b a n w))"

lemma nth_load_Suc: "nth_load b a (Suc n) w = nth_load b a n (snd (bus_load b a w))"
  by (simp add: nth_load_def)

lemma bit0_and: "(v AND 1 \<noteq> 0) = bit (v :: u32) 0"
  using bit_iff_and_push_bit_not_eq_0 [of v 0] by simp

lemma wait_done_unfold:
  assumes "handle_ok (sts drv)" and "a = reg_addr (sts drv) reg_done_capture"
  shows "wait_done b drv w =
    (if bit (fst (bus_load b a w)) 0 then Some (snd (bus_load b a w)) else wait_done b drv (snd (bus_load b a w)))"
  using assms by (subst wait_done.simps) (simp add: reg_simps bit0_and split: prod.splits)

lemma wait_done_returns:
  assumes "handle_ok (sts drv)" and "a = reg_addr (sts drv) reg_done_capture"
    and "bit (nth_load b a n w) 0" and "\<And>j. j < n \<Longrightarrow> \<not> bit (nth_load b a j w) 0"
  shows "wait_done b drv w = Some (after_loads b a (Suc n) w)"
  using assms(3,4)
proof (induction n arbitrary: w)
  case 0
  then show ?case by (simp add: wait_done_unfold [OF assms(1,2), of b w] nth_load_def)
next
  case (Suc n)
  have "\<not> bit (nth_load b a 0 w) 0" using Suc.prems(2) [of 0] by simp
  then have "wait_done b drv w = wait_done b drv (snd (bus_load b a w))"
    by (simp add: wait_done_unfold [OF assms(1,2), of b w] nth_load_def)
  also have "\<dots> = Some (after_loads b a (Suc n) (snd (bus_load b a w)))"
  proof (rule Suc.IH)
    show "bit (nth_load b a n (snd (bus_load b a w))) 0" using Suc.prems(1) by (simp add: nth_load_Suc)
  next
    fix j assume "j < n"
    then show "\<not> bit (nth_load b a j (snd (bus_load b a w))) 0"
      using Suc.prems(2) [of "Suc j"] by (simp add: nth_load_Suc)
  qed
  finally show ?case by simp
qed

lemma wait_done_saw_done:
  assumes "handle_ok (sts drv)" and "a = reg_addr (sts drv) reg_done_capture" and H: "wait_done b drv w = Some w'"
  shows "\<exists>n. bit (nth_load b a n w) 0"
proof -
  have "b = b \<and> drv = drv \<longrightarrow> (\<exists>n. bit (nth_load b a n w) 0)"
  proof (rule wait_done.raw_induct [where P = "\<lambda>b' drv' w w'. b' = b \<and> drv' = drv \<longrightarrow>
        (\<exists>n. bit (nth_load b a n w) 0)", OF _ H], goal_cases)
    case (1 f b' drv' w w')
    show ?case
    proof (intro impI, elim conjE)
      assume eq: "b' = b" "drv' = drv"
      show "\<exists>n. bit (nth_load b a n w) 0"
      proof (cases "bit (nth_load b a 0 w) 0")
        case False
        then have "f b drv (snd (bus_load b a w)) = Some w'"
          using 1(2) eq assms(1,2) by (simp add: reg_simps bit0_and nth_load_def split: prod.splits if_splits)
        then obtain n where "bit (nth_load b a n (snd (bus_load b a w))) 0" using 1(1) by blast
        then have "bit (nth_load b a (Suc n) w) 0" by (simp add: nth_load_Suc)
        then show ?thesis ..
      qed blast
    qed
  qed
  then show ?thesis by simp
qed

text \<open>
  \<open>set_mic_sel\<close> selects, pulses \<open>start_capture\<close>, and returns right after the first load of
  \<open>done_capture\<close> that has bit 0 set; when the FPGA never sets it, the call never returns.
\<close>
lemma set_mic_sel_waits:
  assumes "handle_ok (ctl drv)" and "handle_ok (sts drv)" and "a = reg_addr (sts drv) reg_done_capture"
  shows "\<exists>w3. do { w \<leftarrow> via b (ctl drv) write_reg reg_mic_select sel w;
      w \<leftarrow> via b (ctl drv) mem_set_bit reg_start_capture 0 w;
      via b (ctl drv) mem_clear_bit reg_start_capture 0 (usleep 1 w) } = Some w3 \<and>
    (\<forall>n. bit (nth_load b a n w3) 0 \<and> (\<forall>j. bit (nth_load b a j w3) 0 \<longrightarrow> n \<le> j) \<longrightarrow>
      set_mic_sel b usleep drv sel w = Some (after_loads b a (Suc n) w3)) \<and>
    ((\<forall>n. \<not> bit (nth_load b a n w3) 0) \<longrightarrow> set_mic_sel b usleep drv sel w = None)"
proof -
  obtain w3 where w3: "do { w \<leftarrow> via b (ctl drv) write_reg reg_mic_select sel w;
      w \<leftarrow> via b (ctl drv) mem_set_bit reg_start_capture 0 w;
      via b (ctl drv) mem_clear_bit reg_start_capture 0 (usleep 1 w) } = Some w3"
    using assms(1) by (simp add: reg_simps)
  then have eq: "set_mic_sel b usleep drv sel w = wait_done b drv w3"
    unfolding set_mic_sel_def by (auto split: bind_splits)
  have "wait_done b drv w3 = Some (after_loads b a (Suc n) w3)"
    if "bit (nth_load b a n w3) 0" "\<forall>j. bit (nth_load b a j w3) 0 \<longrightarrow> n \<le> j" for n
    by (rule wait_done_returns [OF assms(2,3)]) (use that leD in blast)+
  moreover have "wait_done b drv w3 = None" if "\<forall>n. \<not> bit (nth_load b a n w3) 0"
    using wait_done_saw_done [OF assms(2,3), of b w3] that by (cases "wait_done b drv w3") auto
  ultimately show ?thesis using w3 eq by auto
qed

text \<open>With registers that are plain memory holding 1, the first load is already set.\<close>

section \<open>The loudest direction\<close>

text \<open>
  What the code needs of \<open>double\<close>: the comparison is a strict weak order on the values that occur (no
  NaN arises from sums of squares of finite values), and adding a square to a value that is not
  negative does not make it negative, whatever the rounding.
\<close>

locale fpu_laws =
  fixes F :: "'d fpu"
  assumes less_asym: "f_less F x y \<Longrightarrow> \<not> f_less F y x"
    and less_cotrans: "f_less F x z \<Longrightarrow> f_less F x y \<or> f_less F y z"
    and square_nonneg: "\<not> f_less F p (f_zero F) \<Longrightarrow> \<not> f_less F (f_add F p (f_mul F s s)) (f_zero F)"
begin

lemma signal_power_nonneg: "\<not> f_less F (signal_power F signal) (f_zero F)"
proof -
  have "\<not> f_less F p (f_zero F) \<Longrightarrow>
      \<not> f_less F (foldl (\<lambda>power s. f_add F power (f_mul F s s)) p signal) (f_zero F)" for p
    by (induction signal arbitrary: p) (simp_all add: square_nonneg)
  then show ?thesis using less_asym unfolding signal_power_def by blast
qed

text \<open>The state of the loop after the first \<open>n\<close> directions.\<close>

lemma max_loop:
  assumes "n \<le> length powers"
    and "foldl (\<lambda>(best, pw) dir. if f_less F pw (powers ! dir) then (dir, powers ! dir) else (best, pw))
      (0, f_zero F) [0..<n] = (best, pw)"
  shows "(best = 0 \<and> pw = f_zero F \<and> (\<forall>d < n. \<not> f_less F (f_zero F) (powers ! d))) \<or>
    (best < n \<and> pw = powers ! best \<and> (\<forall>d < n. \<not> f_less F pw (powers ! d)) \<and>
      (\<forall>d < best. f_less F (powers ! d) pw))"
  using assms
proof (induction n arbitrary: best pw)
  case (Suc n)
  obtain best' pw' where st: "foldl (\<lambda>(best, pw) dir. if f_less F pw (powers ! dir) then (dir, powers ! dir)
      else (best, pw)) (0, f_zero F) [0..<n] = (best', pw')" by force
  note IH = Suc.IH [OF _ st]
  have not_less: "\<not> f_less F pw' (powers ! d)" if "d < n" for d
    using IH Suc.prems(1) that by auto
  show ?case
  proof (cases "f_less F pw' (powers ! n)")
    case True
    then have eq: "best = n" "pw = powers ! n" using Suc.prems(2) st by auto
    have "f_less F (powers ! d) (powers ! n)" if "d < n" for d
      using less_cotrans [OF True, of "powers ! d"] not_less [OF that] by blast
    then show ?thesis using eq less_asym by (auto simp: less_Suc_eq)
  next
    case False
    then have "best = best'" "pw = pw'" using Suc.prems(2) st by auto
    then show ?thesis using IH Suc.prems(1) False by (auto simp: less_Suc_eq)
  qed
qed simp

lemma max_direction_loudest:
  assumes "powers \<noteq> []" and "\<And>p. p \<in> set powers \<Longrightarrow> \<not> f_less F p (f_zero F)"
  defines "k \<equiv> max_direction F powers"
  shows "k < length powers" and "\<And>d. d < length powers \<Longrightarrow> \<not> f_less F (powers ! k) (powers ! d)"
    and "\<And>d. d < k \<Longrightarrow> f_less F (powers ! d) (powers ! k)"
proof -
  let ?r = "foldl (\<lambda>(best, pw) dir. if f_less F pw (powers ! dir) then (dir, powers ! dir) else (best, pw))
      (0, f_zero F) [0..<length powers]"
  have "?r = (k, snd ?r)" unfolding k_def max_direction_def by (rule prod.collapse [symmetric])
  then obtain pw where st: "?r = (k, pw)" ..
  have nonneg: "\<not> f_less F (powers ! d) (f_zero F)" if "d < length powers" for d using assms(2) that by simp
  have len: "0 < length powers" using assms(1) by simp
  from max_loop [OF order_refl st]
  have "k < length powers \<and> (\<forall>d < length powers. \<not> f_less F (powers ! k) (powers ! d)) \<and>
      (\<forall>d < k. f_less F (powers ! d) (powers ! k))"
  proof (elim disjE conjE)
    assume k: "k = 0" and max: "\<forall>d < length powers. \<not> f_less F (f_zero F) (powers ! d)"
    have "\<not> f_less F (powers ! 0) (powers ! d)" if "d < length powers" for d
      using less_cotrans [of "powers ! 0" "powers ! d" "f_zero F"] nonneg [OF len] max that by blast
    then show ?thesis using k len by simp
  next
    assume k: "k < length powers" "pw = powers ! k"
      and max: "\<forall>d < length powers. \<not> f_less F pw (powers ! d)" "\<forall>d < k. f_less F (powers ! d) pw"
    show ?thesis using k(1) max unfolding k(2) by blast
  qed
  then show "k < length powers" "\<And>d. d < length powers \<Longrightarrow> \<not> f_less F (powers ! k) (powers ! d)"
    "\<And>d. d < k \<Longrightarrow> f_less F (powers ! d) (powers ! k)" by blast+
qed

end

text \<open>Exact arithmetic fulfils the laws: every value of the computation is an integer.\<close>

definition exact_fpu :: "int fpu" where
  "exact_fpu = \<lparr>f_zero = 0, f_add = (+), f_mul = (*), f_less = (<), f_of_u32 = uint\<rparr>"

interpretation exact: fpu_laws exact_fpu
  by unfold_locales (auto simp: exact_fpu_def not_less)

lemma beam_power_signal:
  "beam_power F b usleep drv dir w = Some (p, w') \<Longrightarrow> \<exists>signal. p = signal_power F signal"
  by (auto simp: beam_power_def split: bind_splits prod.splits)

lemma powers_loop:
  assumes "for_loop 0 n (\<lambda>dir (powers, w). do {
       (power, w) \<leftarrow> beam_power F b usleep drv dir w;
       Some (powers @ [power], w) }) ([], w) = Some (powers, w')"
  shows "\<exists>ws. ws 0 = w \<and> ws n = w' \<and> length powers = n \<and>
    (\<forall>d < n. beam_power F b usleep drv d (ws d) = Some (powers ! d, ws (Suc d)))"
  using assms
proof (induction n arbitrary: powers w')
  case 0
  then show ?case by auto
next
  case (Suc n)
  let ?body = "\<lambda>dir (powers, w). do {
       (power, w) \<leftarrow> beam_power F b usleep drv dir w;
       Some (powers @ [power], w) }"
  from Suc.prems obtain ps w1 p where 1: "for_loop 0 n ?body ([], w) = Some (ps, w1)"
    "beam_power F b usleep drv n w1 = Some (p, w')" "powers = ps @ [p]"
    by (auto simp: for_loop_last split: bind_splits prod.splits)
  from Suc.IH [OF 1(1)] obtain ws where ws: "ws 0 = w" "ws n = w1" "length ps = n"
    "\<forall>d < n. beam_power F b usleep drv d (ws d) = Some (ps ! d, ws (Suc d))" by blast
  show ?case
    by (rule exI [of _ "ws(Suc n := w')"]) (use ws 1 in \<open>auto simp: less_Suc_eq nth_append\<close>)
qed


text \<open>A driver on plain memory that holds 1 everywhere, so that a capture is always done.\<close>

definition mic_region :: mem_region where
  "mic_region = region 0x40040000 0x2000"

definition mic_handle :: handle where
  "mic_handle = (mic_region, \<lparr>mapped_base = 0x76f00000, base_address = 0x76f00000, is_opened = True\<rparr>)"

definition beam_sesenta :: sesenta where
  "beam_sesenta = sample_sesenta\<lparr>mic0_br := mic_handle, mic1_br := mic_handle, mic2_br := mic_handle,
     mic3_br := mic_handle\<rparr>"

lemma mic_handle_mapped: "mapped (fst mic_handle) (snd mic_handle) 13"
  by (simp add: mapped_def mic_handle_def mic_region_def region_def get_total_size_def get_range_def get_n_blocks_def
      get_base_addr_def)

lemma mic_handle_read: "\<exists>vs. via ram_bus mic_handle read_array mic_size 0 0 w = Some (vs, w)"
proof -
  have sz: "mic_size = 2048" by (simp add: mic_size_def sesenta_memory_def mem_mic0_def region_def)
  have tr: "translate (fst mic_handle) (snd mic_handle) (base_address (snd mic_handle) + 0 + 4 * word_of_nat j)
      = Some (get_base_addr (fst mic_handle) + 0 + 4 * word_of_nat j)" if "j < 2048" for j
  proof -
    have "in_map (fst mic_handle) 13 (0 + 4 * word_of_nat j)"
      by (rule in_map_index [where n = 2048]) (use that in \<open>simp_all add: mic_handle_def mic_region_def region_def
          get_base_addr_def\<close>)
    from translate_in_map [OF mic_handle_mapped this] show ?thesis by (simp add: add.assoc)
  qed
  have "load_words ram_bus (fst mic_handle) (snd mic_handle) (base_address (snd mic_handle) + 0) 2048 w
      = Some (map (\<lambda>j. w (get_base_addr (fst mic_handle) + 0 + 4 * word_of_nat j)) [0..<2048], w)"
    by (rule ram.load_words_storage) (use tr in simp_all)
  then show ?thesis
    unfolding sz by (simp add: read_array_def get_ptr_def mic_handle_def mic_region_def region_def get_range_def
        get_n_blocks_def is_readable_def get_protection_def PROT_READ_def PROT_WRITE_def)
qed

lemma beam_mic_read: "k < 4 \<Longrightarrow> \<exists>vs. get_mic_ith ram_bus beam_sesenta (word_of_nat k) w = Some (vs, w)"
  using mic_handle_read [of w] by (auto simp: get_mic_ith_def beam_sesenta_def)

lemma beam_select:
  assumes "w 0x4000000c = 1"
  shows "\<exists>w'. set_mic_sel ram_bus (\<lambda>n w. w) beam_sesenta sel w = Some w' \<and> w' 0x4000000c = 1"
proof -
  have ok: "handle_ok (ctl beam_sesenta)" "handle_ok (sts beam_sesenta)"
    using sample_handle_ok by (simp_all add: beam_sesenta_def sample_sesenta_def)
  have a: "reg_addr (sts beam_sesenta) reg_done_capture = 0x4000000c"
    by (simp add: beam_sesenta_def sample_sesenta_def sample_handle_def sample_eval reg_done_capture_def)
  let ?r = "\<lambda>q. reg_addr (ctl beam_sesenta) q"
  have ne: "?r reg_mic_select \<noteq> 0x4000000c" "?r reg_start_capture \<noteq> 0x4000000c"
    by (simp_all add: beam_sesenta_def sample_sesenta_def sample_handle_def sample_eval reg_mic_select_def
        reg_start_capture_def)
  obtain w3 where w3: "set_mic_sel ram_bus (\<lambda>n w. w) beam_sesenta sel w = wait_done ram_bus beam_sesenta w3"
    "w3 0x4000000c = 1"
    using ok(1) ne assms by (simp add: set_mic_sel_def reg_simps) (simp add: ram_bus_def)
  then show ?thesis
    by (simp add: wait_done_unfold [OF ok(2) a [symmetric], of ram_bus w3]) (simp add: ram_bus_def)
qed

lemma beam_power_runs:
  assumes "w 0x4000000c = 1"
  shows "\<exists>p w'. beam_power exact_fpu ram_bus (\<lambda>n w. w) beam_sesenta dir w = Some (p, w') \<and> w' 0x4000000c = 1"
proof -
  obtain w1 where 1: "set_mic_sel ram_bus (\<lambda>n w. w) beam_sesenta (word_of_nat dir) w = Some w1" "w1 0x4000000c = 1"
    using beam_select [where w = w, OF assms] by blast
  have "\<exists>s'. for_loop 0 4 (\<lambda>mic (signal, w). do {
       (mic_data, w) \<leftarrow> get_mic_ith ram_bus beam_sesenta (word_of_nat mic) w;
       Some (add_signal exact_fpu signal mic_data, w) }) (replicate mic_size (f_zero exact_fpu), w1) = Some s' \<and> snd s' = w1"
  proof (rule for_loop_inv [where I = "\<lambda>k s. snd s = w1"])
    fix k :: nat and s :: "int list \<times> (u32 \<Rightarrow> u32)" assume "k < 4" "snd s = w1"
    then show "\<exists>s'. (\<lambda>(signal, w). do {
       (mic_data, w) \<leftarrow> get_mic_ith ram_bus beam_sesenta (word_of_nat k) w;
       Some (add_signal exact_fpu signal mic_data, w) }) s = Some s' \<and> snd s' = w1"
      using beam_mic_read [of k w1] by (cases s) auto
  qed simp_all
  then show ?thesis using 1 by (auto simp: beam_power_def split: prod.splits)
qed

lemma beamf_round_runs: "\<exists>w'. beamf_round exact_fpu ram_bus (\<lambda>n w. w) beam_sesenta (\<lambda>a. 1) = Some w'"
proof -
  have "\<exists>s'. for_loop 0 4 (\<lambda>dir (powers, w). do {
       (power, w) \<leftarrow> beam_power exact_fpu ram_bus (\<lambda>n w. w) beam_sesenta dir w;
       Some (powers @ [power], w) }) ([], \<lambda>a. 1) = Some s' \<and> snd s' 0x4000000c = 1"
  proof (rule for_loop_inv [where I = "\<lambda>k s. snd s 0x4000000c = 1"])
    fix k :: nat and s :: "int list \<times> (u32 \<Rightarrow> u32)" assume "snd s 0x4000000c = 1"
    then show "\<exists>s'. (\<lambda>(powers, w). do {
       (power, w) \<leftarrow> beam_power exact_fpu ram_bus (\<lambda>n w. w) beam_sesenta k w;
       Some (powers @ [power], w) }) s = Some s' \<and> snd s' 0x4000000c = 1"
      using beam_power_runs [of "snd s" k] by (cases s) auto
  qed simp_all
  moreover have "handle_ok (ctl beam_sesenta)"
    using sample_handle_ok by (simp add: beam_sesenta_def sample_sesenta_def)
  ultimately show ?thesis by (auto simp: beamf_round_def set_led_sel_def reg_simps)
qed


section \<open>Limits of the configuration and of the threads\<close>

text \<open>
  \<open>axi_hp1\<close> is configured with 8 KB at \<open>0xF800F000\<close>, which is not a multiple of 8 KB. The mapping
  then ends 4 KB after the first register: a write that the \<open>static_assert\<close> accepts leaves the mapping
  when its offset is in the second half.
\<close>
lemma axi_hp1_half_mapped:
  assumes "d = sesenta_memory ! mem_axi_hp1" and "page_aligned mmap"
    and "mem_open mmap d m0 w = (m, w')" and "is_opened m" and "unat offset mod 4 = 0" and "offset < get_range d"
  shows "mem_write b d m offset v w1 =
    (if offset < 0x1000 then Some (bus_store b (0xF800F000 + offset) v w1) else None)"
proof -
  have d: "d = region 0xF800F000 0x2000" using assms(1) by (simp add: sesenta_memory_def mem_axi_hp1_def)
  have rw: "is_writable d"
    by (simp add: d region_def is_writable_def get_protection_def PROT_READ_def PROT_WRITE_def)
  have sz: "get_total_size d = 2 ^ 13" and ba: "get_base_addr d = 0xF800F000" and rg: "get_range d = 0x2000"
    by (simp_all add: d region_def get_total_size_def get_range_def get_n_blocks_def get_base_addr_def)
  have mp: "mapped d m 13"
    by (rule mem_open_mapped [OF assms(2-4) sz]) (simp_all add: ba)
  have lt: "unat offset < 2 ^ 13" using assms(6) rg by (simp add: word_less_nat_alt)
  obtain t where t: "unat offset = 4 * t" using assms(5) by (auto simp: mod_eq_0_iff_dvd)
  have "unat (get_base_addr d) mod 2 ^ 13 + unat offset + 4 \<le> 2 ^ 13 \<longleftrightarrow> offset < 0x1000"
    using t by (simp add: ba word_less_nat_alt) presburger
  then show ?thesis
    using translate_mapped [OF mp lt] assms(5,6) rw by (simp add: mem_write_def vstore_def ba)
qed

text \<open>
  The flag that \<open>start_beamforming\<close> tests is set by the thread and not by the caller, so a call
  before the thread of the constructor has run starts a second one: both then drive the same registers.
\<close>
lemma two_beamforming_threads:
  "\<exists>s. beam_step\<^sup>*\<^sup>* (start_beamforming \<lparr>beamforming_started = False, pending = 0, running = 0\<rparr>) s \<and> running s = 2"
proof -
  let ?s = "\<lambda>f p r. \<lparr>beamforming_started = f, pending = p, running = r\<rparr>"
  have "beam_step (?s False 1 0) (?s False 2 0)"
    using beam_step.start [of "?s False 1 0"] by (simp add: start_beamforming_def numeral_2_eq_2)
  moreover have "beam_step (?s False 2 0) (?s True 1 1)"
    using beam_step.thread_begins [of "?s False 2 0"] by simp
  moreover have "beam_step (?s True 1 1) (?s True 0 2)"
    using beam_step.thread_begins [of "?s True 1 1"] by (simp add: numeral_2_eq_2)
  ultimately have "beam_step\<^sup>*\<^sup>* (?s False 1 0) (?s True 0 2)" by (meson r_into_rtranclp rtranclp_trans)
  then show ?thesis by (intro exI [of _ "?s True 0 2"]) (simp add: start_beamforming_def)
qed

end
