(* ===== verification/Laser.thy ===== *)
theory Laser
  imports Memory_Manager
begin

text \<open>
  \<^verbatim>\<open>src/server/drivers/xadc.hpp\<close>, \<^verbatim>\<open>eeprom.hpp\<close>, \<^verbatim>\<open>laser.hpp\<close> and \<^verbatim>\<open>common.hpp\<close>: the converter that measures the laser, the memory that keeps its
  calibration, the controller of the laser, and the commands every instrument has.

  The registers of an instrument are generated code: a record \<open>laser_regs\<close> of their offsets is a parameter, as are \<open>sleep\<close>, in
  microseconds, and the arithmetic of \<open>float\<close>, a record \<open>'f flt\<close>. The conversion of a \<open>float\<close> to an unsigned integer is
  \<^term>\<open>None\<close> where the language does not define it.
\<close>

section \<open>Xadc\<close>

definition xadc_set_chan :: u32 where "xadc_set_chan = 0x324"
definition xadc_avg_en :: u32 where "xadc_avg_en = 0x32C"
definition xadc_read_reg :: u32 where "xadc_read_reg = 0x240"
definition xadc_config0 :: u32 where "xadc_config0 = 0x300"
definition channel_0 :: u32 where "channel_0 = 1"
definition channel_1 :: u32 where "channel_1 = 8"

definition enable_averaging :: "'w bus \<Rightarrow> handle \<Rightarrow> 'w \<Rightarrow> 'w option" where
  "enable_averaging b xadc w = via b xadc mem_write xadc_avg_en (push_bit (unat channel_0) 1 + push_bit (unat channel_1) 1) w"

definition averaging_code :: "u32 \<Rightarrow> u32" where
  "averaging_code n_avg = (if n_avg = 1 then 0 else if n_avg = 4 then 1 else if n_avg = 64 then 2 else if n_avg = 256 then 3 else 0)"

definition set_averaging :: "'w bus \<Rightarrow> handle \<Rightarrow> u32 \<Rightarrow> 'w \<Rightarrow> 'w option" where
  "set_averaging b xadc n_avg w =
     via b xadc write_mask xadc_config0 (push_bit 12 1 + push_bit 13 1) (push_bit 12 (averaging_code n_avg)) w"

definition new_xadc :: "'w bus \<Rightarrow> handle \<Rightarrow> 'w \<Rightarrow> 'w option" where
  "new_xadc b xadc w = do { w \<leftarrow> enable_averaging b xadc w; set_averaging b xadc 256 w }"

definition xadc_read :: "'w bus \<Rightarrow> handle \<Rightarrow> u32 \<Rightarrow> 'w \<Rightarrow> (u32 \<times> 'w) option" where
  "xadc_read b xadc channel w =
     (if channel \<noteq> channel_0 \<and> channel \<noteq> channel_1 then Some (0, w)
      else via b xadc read_reg (xadc_read_reg + 4 * channel) w)"

section \<open>Eeprom\<close>

definition eeprom_instr_write :: u32 where "eeprom_instr_write = push_bit 2 1"
definition eeprom_instr_read :: u32 where "eeprom_instr_read = push_bit 2 2"
definition eeprom_instr_erase :: u32 where "eeprom_instr_erase = push_bit 2 3"
definition eeprom_instr_ewds :: u32 where "eeprom_instr_ewds = 0"
definition eeprom_instr_wral :: u32 where "eeprom_instr_wral = 1"
definition eeprom_instr_eral :: u32 where "eeprom_instr_eral = 2"
definition eeprom_instr_ewen :: u32 where "eeprom_instr_ewen = 3"

record laser_regs =
  reg_eeprom_ctl :: u32
  reg_eeprom_sts :: u32
  reg_laser_control :: u32
  reg_laser_current :: u32
  reg_power_setpoint :: u32
  reg_pid_control :: u32

text \<open>Every operation writes the instruction and then starts it with the lowest bit.\<close>

definition eeprom_issue :: "'w bus \<Rightarrow> laser_regs \<Rightarrow> handle \<Rightarrow> u32 \<Rightarrow> 'w \<Rightarrow> 'w option" where
  "eeprom_issue b G ctl x w = do {
     w \<leftarrow> via b ctl mem_write (reg_eeprom_ctl G) x w;
     via b ctl mem_set_bit (reg_eeprom_ctl G) 0 w }"

definition eeprom_read :: "'w bus \<Rightarrow> (nat \<Rightarrow> 'w \<Rightarrow> 'w) \<Rightarrow> laser_regs \<Rightarrow> handle \<Rightarrow> handle \<Rightarrow> u32 \<Rightarrow> 'w \<Rightarrow> (u32 \<times> 'w) option" where
  "eeprom_read b sleep G ctl sts addr w = do {
     w \<leftarrow> eeprom_issue b G ctl (push_bit 5 eeprom_instr_read + push_bit 1 addr) w;
     via b sts mem_read (reg_eeprom_sts G) (sleep 100 w) }"

definition eeprom_write_enable :: "'w bus \<Rightarrow> laser_regs \<Rightarrow> handle \<Rightarrow> 'w \<Rightarrow> 'w option" where
  "eeprom_write_enable b G ctl w = eeprom_issue b G ctl (push_bit 5 eeprom_instr_ewen) w"

definition eeprom_erase :: "'w bus \<Rightarrow> laser_regs \<Rightarrow> handle \<Rightarrow> u32 \<Rightarrow> 'w \<Rightarrow> 'w option" where
  "eeprom_erase b G ctl addr w = eeprom_issue b G ctl (push_bit 5 eeprom_instr_erase + push_bit 1 addr) w"

definition eeprom_write :: "'w bus \<Rightarrow> laser_regs \<Rightarrow> handle \<Rightarrow> u32 \<Rightarrow> u32 \<Rightarrow> 'w \<Rightarrow> 'w option" where
  "eeprom_write b G ctl addr data_in w =
     eeprom_issue b G ctl (push_bit 16 data_in + push_bit 5 eeprom_instr_write + push_bit 1 addr) w"

definition eeprom_erase_all :: "'w bus \<Rightarrow> laser_regs \<Rightarrow> handle \<Rightarrow> 'w \<Rightarrow> 'w option" where
  "eeprom_erase_all b G ctl w = eeprom_issue b G ctl (push_bit 5 eeprom_instr_eral) w"

definition eeprom_write_all :: "'w bus \<Rightarrow> laser_regs \<Rightarrow> handle \<Rightarrow> u32 \<Rightarrow> 'w \<Rightarrow> 'w option" where
  "eeprom_write_all b G ctl data_in w = eeprom_issue b G ctl (push_bit 16 data_in + push_bit 5 eeprom_instr_wral) w"

definition eeprom_erase_write_disable :: "'w bus \<Rightarrow> laser_regs \<Rightarrow> handle \<Rightarrow> 'w \<Rightarrow> 'w option" where
  "eeprom_erase_write_disable b G ctl w = eeprom_issue b G ctl (push_bit 5 eeprom_instr_ewds) w"

definition new_eeprom :: "'w bus \<Rightarrow> (nat \<Rightarrow> 'w \<Rightarrow> 'w) \<Rightarrow> laser_regs \<Rightarrow> handle \<Rightarrow> 'w \<Rightarrow> 'w option" where
  "new_eeprom b sleep G ctl w = do { w \<leftarrow> eeprom_write_enable b G ctl w; Some (sleep 10000 w) }"

section \<open>Laser\<close>

record 'f flt =
  fl_add :: "'f \<Rightarrow> 'f \<Rightarrow> 'f"
  fl_sub :: "'f \<Rightarrow> 'f \<Rightarrow> 'f"
  fl_mul :: "'f \<Rightarrow> 'f \<Rightarrow> 'f"
  fl_div :: "'f \<Rightarrow> 'f \<Rightarrow> 'f"
  fl_less :: "'f \<Rightarrow> 'f \<Rightarrow> bool"
  fl_of_u32 :: "u32 \<Rightarrow> 'f"
  fl_to_u32 :: "'f \<Rightarrow> u32 option"
  fl_max_laser_current :: 'f
  fl_current_to_pwm :: 'f
  fl_measured_current_gain :: 'f

record 'f laser =
  l_current :: 'f
  l_power :: 'f
  laser_on :: bool
  constant_power_on :: bool
  is_calibrated :: bool
  l_ctl :: handle
  l_sts :: handle
  l_xadc :: handle
  power_0mW :: u32
  power_1mW :: u32

type_synonym ('f, 'w) laser_op = "'f laser \<Rightarrow> 'w \<Rightarrow> ('f laser \<times> 'w) option"

definition power_channel :: u32 where "power_channel = 1"
definition current_channel :: u32 where "current_channel = 8"

definition laser_start :: "'w bus \<Rightarrow> laser_regs \<Rightarrow> ('f, 'w) laser_op" where
  "laser_start b G l w = do {
     w \<leftarrow> via b (l_ctl l) mem_clear_bit (reg_laser_control G) 0 w;
     Some (l\<lparr>laser_on := True\<rparr>, w) }"

definition laser_stop :: "'w bus \<Rightarrow> laser_regs \<Rightarrow> ('f, 'w) laser_op" where
  "laser_stop b G l w = do {
     w \<leftarrow> via b (l_ctl l) mem_set_bit (reg_laser_control G) 0 w;
     Some (l\<lparr>laser_on := False\<rparr>, w) }"

text \<open>\<open>std::min(a, b)\<close> is \<open>b\<close> when \<open>b < a\<close> and \<open>a\<close> otherwise, also when they cannot be compared.\<close>

definition fl_min :: "'f flt \<Rightarrow> 'f \<Rightarrow> 'f \<Rightarrow> 'f" where
  "fl_min F a b = (if fl_less F b a then b else a)"

definition set_current :: "'w bus \<Rightarrow> laser_regs \<Rightarrow> 'f flt \<Rightarrow> 'f \<Rightarrow> ('f, 'w) laser_op" where
  "set_current b G F current_value l w = do {
     (l, w) \<leftarrow> (if constant_power_on l then do {
         w \<leftarrow> via b (l_ctl l) mem_clear_bit (reg_laser_control G) 2 w;
         Some (l\<lparr>constant_power_on := False\<rparr>, w) }
       else Some (l, w));
     let l = l\<lparr>l_current := fl_min F current_value (fl_max_laser_current F)\<rparr>;
     x \<leftarrow> fl_to_u32 F (fl_mul F (l_current l) (fl_current_to_pwm F));
     w \<leftarrow> via b (l_ctl l) mem_write (reg_laser_current G) x w;
     Some (l, w) }"

definition set_power :: "'w bus \<Rightarrow> laser_regs \<Rightarrow> 'f flt \<Rightarrow> 'f \<Rightarrow> ('f, 'w) laser_op" where
  "set_power b G F power_value l w = do {
     (l, w) \<leftarrow> (if \<not> constant_power_on l then do {
         w \<leftarrow> via b (l_ctl l) mem_set_bit (reg_laser_control G) 2 w;
         Some (l\<lparr>constant_power_on := True\<rparr>, w) }
       else Some (l, w));
     let l = l\<lparr>l_power := power_value\<rparr>;
     x \<leftarrow> fl_to_u32 F (fl_add F (fl_mul F (fl_div F (fl_of_u32 F (power_1mW l - power_0mW l)) (fl_of_u32 F 1000)) power_value)
       (fl_of_u32 F (power_0mW l)));
     w \<leftarrow> via b (l_ctl l) mem_write (reg_power_setpoint G) x w;
     Some (l, w) }"

definition get_measured_current :: "'w bus \<Rightarrow> 'f flt \<Rightarrow> 'f laser \<Rightarrow> 'w \<Rightarrow> ('f \<times> 'w) option" where
  "get_measured_current b F l w = do {
     (x, w) \<leftarrow> xadc_read b (l_xadc l) current_channel w;
     Some (fl_mul F (fl_measured_current_gain F) (fl_of_u32 F x), w) }"

definition get_measured_power :: "'w bus \<Rightarrow> 'f flt \<Rightarrow> 'f laser \<Rightarrow> 'w \<Rightarrow> ('f \<times> 'w) option" where
  "get_measured_power b F l w = do {
     (x, w) \<leftarrow> xadc_read b (l_xadc l) power_channel w;
     Some (fl_div F (fl_mul F (fl_of_u32 F 1000) (fl_sub F (fl_of_u32 F x) (fl_of_u32 F (power_0mW l))))
       (fl_of_u32 F (power_1mW l - power_0mW l)), w) }"

definition switch_mode :: "'w bus \<Rightarrow> laser_regs \<Rightarrow> 'f flt \<Rightarrow> ('f, 'w) laser_op" where
  "switch_mode b G F l w =
     (if \<not> constant_power_on l then do {
        (l, w) \<leftarrow> (if laser_on l then do { (l, w) \<leftarrow> laser_stop b G l w; laser_start b G l w } else Some (l, w));
        (p, w) \<leftarrow> get_measured_power b F l w;
        set_power b G F p l w }
      else do {
        (x, w) \<leftarrow> via b (l_sts l) mem_read (reg_pid_control G) w;
        set_current b G F (fl_div F (fl_of_u32 F x) (fl_current_to_pwm F)) l w })"

definition get_status ::
  "'w bus \<Rightarrow> 'f flt \<Rightarrow> 'f laser \<Rightarrow> 'w \<Rightarrow> ((bool \<times> bool \<times> bool \<times> 'f \<times> 'f \<times> 'f \<times> 'f) \<times> 'w) option" where
  "get_status b F l w = do {
     (measured_current, w) \<leftarrow> get_measured_current b F l w;
     (measured_power, w) \<leftarrow> get_measured_power b F l w;
     Some ((laser_on l, constant_power_on l, is_calibrated l, l_current l, l_power l, measured_current, measured_power), w) }"

definition read_calibration :: "'w bus \<Rightarrow> (nat \<Rightarrow> 'w \<Rightarrow> 'w) \<Rightarrow> laser_regs \<Rightarrow> ('f, 'w) laser_op" where
  "read_calibration b sleep G l w = do {
     (c, w) \<leftarrow> eeprom_read b sleep G (l_ctl l) (l_sts l) 0 w;
     if c = 1 then do {
       (p0, w) \<leftarrow> eeprom_read b sleep G (l_ctl l) (l_sts l) 1 w;
       (p1, w) \<leftarrow> eeprom_read b sleep G (l_ctl l) (l_sts l) 2 w;
       Some (l\<lparr>is_calibrated := True, power_0mW := p0, power_1mW := p1\<rparr>, w) }
     else Some (l\<lparr>is_calibrated := False, power_0mW := 300, power_1mW := 1850\<rparr>, w) }"

text \<open>The loop that adds up one hundred measurements.\<close>

definition sum_power :: "'w bus \<Rightarrow> 'f laser \<Rightarrow> 'w \<Rightarrow> (u32 \<times> 'w) option" where
  "sum_power b l w = for_loop 0 100 (\<lambda>_ (s, w). do {
     (x, w) \<leftarrow> xadc_read b (l_xadc l) power_channel w;
     Some (s + x, w) }) (0, w)"

text \<open>The messages print a value that is read from the memory.\<close>

definition calibrate_0mW :: "'w bus \<Rightarrow> (nat \<Rightarrow> 'w \<Rightarrow> 'w) \<Rightarrow> laser_regs \<Rightarrow> 'f flt \<Rightarrow> ('f, 'w) laser_op" where
  "calibrate_0mW b sleep G F l w = do {
     (l, w) \<leftarrow> laser_stop b G l w;
     (s, w) \<leftarrow> sum_power b l (sleep 200000 w);
     w \<leftarrow> eeprom_write b G (l_ctl l) 1 (s div 100) w;
     (_, w) \<leftarrow> eeprom_read b sleep G (l_ctl l) (l_sts l) 1 (sleep 5000 w);
     (l, w) \<leftarrow> set_current b G F (fl_of_u32 F 15) l w;
     laser_start b G l w }"

definition calibrate_1mW :: "'w bus \<Rightarrow> (nat \<Rightarrow> 'w \<Rightarrow> 'w) \<Rightarrow> laser_regs \<Rightarrow> ('f, 'w) laser_op" where
  "calibrate_1mW b sleep G l w = do {
     (s, w) \<leftarrow> sum_power b l w;
     w \<leftarrow> eeprom_write b G (l_ctl l) 2 (s div 100) w;
     w \<leftarrow> eeprom_write b G (l_ctl l) 0 1 (sleep 5000 w);
     (_, w) \<leftarrow> eeprom_read b sleep G (l_ctl l) (l_sts l) 2 (sleep 5000 w);
     read_calibration b sleep G l w }"

text \<open>The constructor; \<open>l\<close> holds what memory holds, in particular \<open>constant_power_on\<close> is not initialised.\<close>

definition new_laser :: "'w bus \<Rightarrow> (nat \<Rightarrow> 'w \<Rightarrow> 'w) \<Rightarrow> laser_regs \<Rightarrow> 'f flt \<Rightarrow> ('f, 'w) laser_op" where
  "new_laser b sleep G F l w = do {
     (l, w) \<leftarrow> laser_stop b G l w;
     (l, w) \<leftarrow> set_current b G F (fl_of_u32 F 0) (l\<lparr>l_current := fl_of_u32 F 0\<rparr>) w;
     read_calibration b sleep G l w }"

section \<open>Common\<close>

definition get_dna :: "'w bus \<Rightarrow> handle \<Rightarrow> u32 \<Rightarrow> 'w \<Rightarrow> (u64 \<times> 'w) option" where
  "get_dna b sts reg_dna w = via b sts mem_read64 reg_dna w"

definition get_instrument_config :: "string \<Rightarrow> string" where
  "get_instrument_config CFG_JSON = CFG_JSON"

section \<open>The instruction of the memory\<close>

text \<open>An instruction has its fields apart: the start bit, six bits of address, the two bits of the code, and sixteen of data.\<close>

lemma eeprom_word:
  assumes "addr < 64" and "x < 4"
  shows "(push_bit 16 data + push_bit 5 (push_bit 2 x) + push_bit 1 addr :: u32)
    = push_bit 16 data OR push_bit 7 x OR push_bit 1 addr"
    and "push_bit 16 data AND (push_bit 7 x OR push_bit 1 addr) = (0 :: u32)"
proof -
  have a: "bit addr n \<Longrightarrow> n < 6" and x: "bit x n \<Longrightarrow> n < 2" for n
    using less_mask_eq [of addr 6] less_mask_eq [of x 2] assms bit_and_iff [of addr "mask 6" n] bit_and_iff [of x "mask 2" n]
    by (simp_all add: bit_mask_iff)
  define A where "A = push_bit 1 addr"
  have A: "bit A n \<Longrightarrow> n < 7" for n using a [of "n - 1"] unfolding A_def bit_push_bit_iff by auto
  have 1: "push_bit 16 data + push_bit 7 x = push_bit 16 data OR push_bit 7 x"
    by (rule disjunctive_add) (auto simp: bit_simps dest: x)
  have 2: "(push_bit 16 data OR push_bit 7 x) + A = push_bit 16 data OR push_bit 7 x OR A"
    by (subst disjunctive_add) (auto simp: bit_simps or.assoc dest: x A)
  show "(push_bit 16 data + push_bit 5 (push_bit 2 x) + push_bit 1 addr :: u32)
    = push_bit 16 data OR push_bit 7 x OR push_bit 1 addr"
    unfolding A_def [symmetric] using 1 2 by simp
  show "push_bit 16 data AND (push_bit 7 x OR push_bit 1 addr) = (0 :: u32)"
    unfolding A_def [symmetric] by (rule bit_word_eqI) (auto simp: bit_simps dest: x A)
qed

section \<open>The flags and the control register\<close>

text \<open>
  The control register keeps what is written to it, and nothing else changes it: it is promised for this register only, the others
  may do as they like.
\<close>

definition laser_hw :: "'w bus \<Rightarrow> (nat \<Rightarrow> 'w \<Rightarrow> 'w) \<Rightarrow> ('w \<Rightarrow> u32) \<Rightarrow> laser_regs \<Rightarrow> handle \<Rightarrow> handle \<Rightarrow> handle \<Rightarrow> bool" where
  "laser_hw b sleep control G ctl sts xadc \<longleftrightarrow> handle_ok ctl \<and> handle_ok sts \<and> handle_ok xadc \<and>
     page_reg (reg_eeprom_ctl G) \<and> page_reg (reg_eeprom_sts G) \<and> page_reg (reg_laser_control G) \<and>
     page_reg (reg_laser_current G) \<and> page_reg (reg_power_setpoint G) \<and> page_reg (reg_pid_control G) \<and>
     (let A = reg_addr ctl (reg_laser_control G) in
       (\<forall>w. bus_load b A w = (control w, w)) \<and> (\<forall>v w. control (bus_store b A v w) = v) \<and>
       (\<forall>a w. a \<noteq> A \<longrightarrow> control (snd (bus_load b a w)) = control w) \<and>
       (\<forall>a v w. a \<noteq> A \<longrightarrow> control (bus_store b a v w) = control w) \<and> (\<forall>n w. control (sleep n w) = control w) \<and>
       A \<notin> {reg_addr ctl (reg_eeprom_ctl G), reg_addr sts (reg_eeprom_sts G), reg_addr ctl (reg_laser_current G),
         reg_addr ctl (reg_power_setpoint G), reg_addr sts (reg_pid_control G), reg_addr xadc 0x244, reg_addr xadc 0x260})"

lemma hw_other:
  assumes "laser_hw b sleep control G ctl sts xadc"
    and "a \<in> {reg_addr ctl (reg_eeprom_ctl G), reg_addr sts (reg_eeprom_sts G), reg_addr ctl (reg_laser_current G),
         reg_addr ctl (reg_power_setpoint G), reg_addr sts (reg_pid_control G), reg_addr xadc 0x244, reg_addr xadc 0x260}"
  shows "control (snd (bus_load b a w)) = control w" and "control (bus_store b a v w) = control w"
proof -
  have "a \<noteq> reg_addr ctl (reg_laser_control G)" using assms unfolding laser_hw_def Let_def by (elim conjE) blast
  then show "control (snd (bus_load b a w)) = control w" "control (bus_store b a v w) = control w"
    using assms(1) by (auto simp: laser_hw_def Let_def)
qed

lemma hw_ok:
  assumes "laser_hw b sleep control G ctl sts xadc"
  shows "handle_ok ctl" "handle_ok sts" "handle_ok xadc" "page_reg (reg_eeprom_ctl G)" "page_reg (reg_eeprom_sts G)"
    "page_reg (reg_laser_control G)" "page_reg (reg_laser_current G)" "page_reg (reg_power_setpoint G)"
    "page_reg (reg_pid_control G)" "control (sleep n w) = control w"
  using assms by (auto simp: laser_hw_def Let_def)

lemma xadc_page: "page_reg 0x244" "page_reg 0x260"
  by (simp_all add: page_reg_def)

lemma hw_write:
  assumes "laser_hw b sleep control G ctl sts xadc" and "r \<in> {reg_eeprom_ctl G, reg_laser_current G, reg_power_setpoint G}"
  shows "\<exists>w'. via b ctl mem_write r x w = Some w' \<and> control w' = control w"
proof -
  have "page_reg r" "reg_addr ctl r \<in> {reg_addr ctl (reg_eeprom_ctl G), reg_addr ctl (reg_laser_current G),
      reg_addr ctl (reg_power_setpoint G)}" using assms(2) hw_ok [OF assms(1)] by auto
  then show ?thesis using hw_ok(1) [OF assms(1)] hw_other(2) [OF assms(1), of "reg_addr ctl r" x w] by (auto simp: reg_simps)
qed

lemma hw_issue:
  assumes "laser_hw b sleep control G ctl sts xadc"
  shows "\<exists>w'. eeprom_issue b G ctl x w = Some w' \<and> control w' = control w"
  by (simp add: eeprom_issue_def reg_simps hw_ok [OF assms] hw_other [OF assms])

lemma hw_eeprom_write:
  "laser_hw b sleep control G ctl sts xadc \<Longrightarrow> \<exists>w'. eeprom_write b G ctl addr x w = Some w' \<and> control w' = control w"
  unfolding eeprom_write_def by (rule hw_issue)

lemma hw_eeprom_read:
  assumes "laser_hw b sleep control G ctl sts xadc"
  shows "\<exists>x w'. eeprom_read b sleep G ctl sts addr w = Some (x, w') \<and> control w' = control w"
proof -
  obtain w1 where 1: "eeprom_issue b G ctl (push_bit 5 eeprom_instr_read + push_bit 1 addr) w = Some w1" "control w1 = control w"
    using hw_issue [OF assms] by blast
  then show ?thesis
    using hw_other(1) [OF assms, of "reg_addr sts (reg_eeprom_sts G)" "sleep 100 w1"]
    by (cases "bus_load b (reg_addr sts (reg_eeprom_sts G)) (sleep 100 w1)")
      (simp add: eeprom_read_def reg_simps hw_ok [OF assms])
qed

lemma hw_xadc_read:
  assumes "laser_hw b sleep control G ctl sts xadc"
  shows "\<exists>x w'. xadc_read b xadc channel w = Some (x, w') \<and> control w' = control w"
  using hw_other(1) [OF assms, of "reg_addr xadc 0x244" w] hw_other(1) [OF assms, of "reg_addr xadc 0x260" w]
  by (cases "bus_load b (reg_addr xadc 0x244) w"; cases "bus_load b (reg_addr xadc 0x260) w")
    (simp add: xadc_read_def channel_0_def channel_1_def xadc_read_reg_def reg_simps hw_ok [OF assms] xadc_page)

lemma hw_pid:
  assumes "laser_hw b sleep control G ctl sts xadc"
  shows "\<exists>x w'. via b sts mem_read (reg_pid_control G) w = Some (x, w') \<and> control w' = control w"
  using hw_other(1) [OF assms, of "reg_addr sts (reg_pid_control G)" w]
  by (cases "bus_load b (reg_addr sts (reg_pid_control G)) w") (simp add: reg_simps hw_ok [OF assms])

lemma hw_bits:
  assumes "laser_hw b sleep control G ctl sts xadc" and "i < 32"
  shows "\<exists>w'. via b ctl mem_set_bit (reg_laser_control G) i w = Some w' \<and> control w' = control w OR push_bit (unat i) 1"
    and "\<exists>w'. via b ctl mem_clear_bit (reg_laser_control G) i w = Some w' \<and> control w' = control w AND NOT (push_bit (unat i) 1)"
  using assms by (auto simp: laser_hw_def Let_def reg_simps)

lemma hw_sum_power:
  assumes "laser_hw b sleep control G ctl sts (l_xadc l)"
  shows "\<exists>x w'. sum_power b l w = Some (x, w') \<and> control w' = control w"
proof -
  let ?body = "\<lambda>(_ :: nat) (s :: u32, w). Option.bind (xadc_read b (l_xadc l) power_channel w) (\<lambda>(x, w). Some (s + x, w))"
  have "\<exists>s'. for_loop 0 100 ?body (0, w) = Some s' \<and> control (snd s') = control w"
  proof (rule for_loop_inv [where I = "\<lambda>_ s. control (snd s) = control w"])
    fix k and s :: "u32 \<times> 'a" assume s: "control (snd s) = control w"
    obtain x w' where "xadc_read b (l_xadc l) power_channel (snd s) = Some (x, w')" "control w' = control (snd s)"
      using hw_xadc_read [OF assms] by blast
    then show "\<exists>s'. ?body k s = Some s' \<and> control (snd s') = control w" using s by (simp add: split_beta)
  qed simp_all
  then show ?thesis by (auto simp: sum_power_def)
qed

text \<open>The flags of the driver say what the control register says, and the current it keeps is within the limit.\<close>

definition laser_ok :: "'f flt \<Rightarrow> ('w \<Rightarrow> u32) \<Rightarrow> 'f laser \<Rightarrow> 'w \<Rightarrow> bool" where
  "laser_ok F control l w \<longleftrightarrow> (laser_on l \<longleftrightarrow> \<not> bit (control w) 0) \<and> (constant_power_on l \<longleftrightarrow> bit (control w) 2) \<and>
     \<not> fl_less F (fl_max_laser_current F) (l_current l)"

definition same_maps :: "'f laser \<Rightarrow> 'f laser \<Rightarrow> bool" where
  "same_maps l l' \<longleftrightarrow> l_ctl l' = l_ctl l \<and> l_sts l' = l_sts l \<and> l_xadc l' = l_xadc l"

lemma same_maps_refl [simp]: "same_maps l l"
  by (simp add: same_maps_def)

lemma same_maps_trans: "same_maps l l1 \<Longrightarrow> same_maps l1 l2 \<Longrightarrow> same_maps l l2"
  by (simp add: same_maps_def)

abbreviation laser_sets :: "'f flt \<Rightarrow> ('w \<Rightarrow> u32) \<Rightarrow> 'f laser \<Rightarrow> ('f laser \<times> 'w) option \<Rightarrow> bool" where
  "laser_sets F control l r \<equiv> \<exists>l' w'. r = Some (l', w') \<and> laser_ok F control l' w' \<and> same_maps l l'"

abbreviation hw_of :: "'w bus \<Rightarrow> (nat \<Rightarrow> 'w \<Rightarrow> 'w) \<Rightarrow> ('w \<Rightarrow> u32) \<Rightarrow> laser_regs \<Rightarrow> 'f laser \<Rightarrow> bool" where
  "hw_of b sleep control G l \<equiv> laser_hw b sleep control G (l_ctl l) (l_sts l) (l_xadc l)"

definition flt_ok :: "'f flt \<Rightarrow> bool" where
  "flt_ok F \<longleftrightarrow> (\<forall>x. fl_to_u32 F x \<noteq> None) \<and> \<not> fl_less F (fl_max_laser_current F) (fl_max_laser_current F)"

lemma laser_start_ok:
  assumes "hw_of b sleep control G l" and "laser_ok F control l w"
  shows "laser_sets F control l (laser_start b G l w)"
  using hw_bits(2) [OF assms(1), of 0 w] assms(2)
  by (auto simp: laser_start_def laser_ok_def same_maps_def bit_simps)

lemma laser_stop_ok:
  assumes "hw_of b sleep control G l" and "laser_ok F control l w"
  shows "\<exists>l' w'. laser_stop b G l w = Some (l', w') \<and> laser_ok F control l' w' \<and> same_maps l l' \<and>
    constant_power_on l' = constant_power_on l"
  using hw_bits(1) [OF assms(1), of 0 w] assms(2)
  by (auto simp: laser_stop_def laser_ok_def same_maps_def bit_simps)

lemma set_current_ok:
  assumes hw: "hw_of b sleep control G l" and F: "flt_ok F" and ok: "laser_ok F control l w"
  shows "laser_sets F control l (set_current b G F v l w)"
proof -
  let ?c = "fl_min F v (fl_max_laser_current F)"
  obtain x where x: "fl_to_u32 F (fl_mul F ?c (fl_current_to_pwm F)) = Some x" using F by (auto simp: flt_ok_def)
  have lim: "\<not> fl_less F (fl_max_laser_current F) ?c" using F by (simp add: fl_min_def flt_ok_def)
  obtain w1 where w1: "via b (l_ctl l) mem_clear_bit (reg_laser_control G) 2 w = Some w1"
      "control w1 = control w AND NOT (push_bit 2 1)" using hw_bits(2) [OF hw, of 2 w] by auto
  obtain w2 where w2: "via b (l_ctl l) mem_write (reg_laser_current G) x w1 = Some w2" "control w2 = control w1"
    using hw_write [OF hw, of "reg_laser_current G" x w1] by auto
  obtain w3 where w3: "via b (l_ctl l) mem_write (reg_laser_current G) x w = Some w3" "control w3 = control w"
    using hw_write [OF hw, of "reg_laser_current G" x w] by auto
  show ?thesis
    using x lim w1 w2 w3 ok by (auto simp: set_current_def laser_ok_def same_maps_def bit_simps Let_def)
qed

lemma set_power_ok:
  assumes hw: "hw_of b sleep control G l" and F: "flt_ok F" and ok: "laser_ok F control l w"
  shows "laser_sets F control l (set_power b G F v l w)"
proof -
  obtain x where x: "fl_to_u32 F (fl_add F (fl_mul F (fl_div F (fl_of_u32 F (power_1mW l - power_0mW l)) (fl_of_u32 F 1000)) v)
      (fl_of_u32 F (power_0mW l))) = Some x" using F by (auto simp: flt_ok_def)
  obtain w1 where w1: "via b (l_ctl l) mem_set_bit (reg_laser_control G) 2 w = Some w1"
      "control w1 = control w OR push_bit 2 1" using hw_bits(1) [OF hw, of 2 w] by auto
  obtain w2 where w2: "via b (l_ctl l) mem_write (reg_power_setpoint G) x w1 = Some w2" "control w2 = control w1"
    using hw_write [OF hw, of "reg_power_setpoint G" x w1] by auto
  obtain w3 where w3: "via b (l_ctl l) mem_write (reg_power_setpoint G) x w = Some w3" "control w3 = control w"
    using hw_write [OF hw, of "reg_power_setpoint G" x w] by auto
  show ?thesis
    using x w1 w2 w3 ok by (auto simp: set_power_def laser_ok_def same_maps_def bit_simps Let_def)
qed

text \<open>Steps that do not touch the register keep the invariant.\<close>

lemma laser_ok_cong: "control w' = control w \<Longrightarrow> laser_ok F control l w \<Longrightarrow> laser_ok F control l w'"
  by (simp add: laser_ok_def)

lemma read_calibration_keeps:
  assumes hw: "hw_of b sleep control G l"
  shows "\<exists>l' w'. read_calibration b sleep G l w = Some (l', w') \<and> control w' = control w \<and> same_maps l l' \<and>
    laser_on l' = laser_on l \<and> constant_power_on l' = constant_power_on l \<and> l_current l' = l_current l"
proof -
  obtain c w1 where 1: "eeprom_read b sleep G (l_ctl l) (l_sts l) 0 w = Some (c, w1)" "control w1 = control w"
    using hw_eeprom_read [OF hw] by blast
  obtain p0 w2 where 2: "eeprom_read b sleep G (l_ctl l) (l_sts l) 1 w1 = Some (p0, w2)" "control w2 = control w1"
    using hw_eeprom_read [OF hw] by blast
  obtain p1 w3 where 3: "eeprom_read b sleep G (l_ctl l) (l_sts l) 2 w2 = Some (p1, w3)" "control w3 = control w2"
    using hw_eeprom_read [OF hw] by blast
  show ?thesis using 1 2 3 by (auto simp: read_calibration_def same_maps_def)
qed

lemma read_calibration_ok:
  assumes "hw_of b sleep control G l" and "laser_ok F control l w"
  shows "laser_sets F control l (read_calibration b sleep G l w)"
  using read_calibration_keeps [OF assms(1), of w] assms(2) by (auto simp: laser_ok_def)

lemma then_laser:
  assumes "laser_sets F control l m" and "\<And>l' w'. laser_ok F control l' w' \<Longrightarrow> same_maps l l' \<Longrightarrow> laser_sets F control l' (f l' w')"
  shows "laser_sets F control l (Option.bind m (\<lambda>(l, w). f l w))"
  using assms same_maps_trans by fastforce

lemma hw_same: "hw_of b sleep control G l \<Longrightarrow> same_maps l l' \<Longrightarrow> hw_of b sleep control G l'"
  by (simp add: same_maps_def)

lemma switch_mode_ok:
  assumes hw: "hw_of b sleep control G l" and F: "flt_ok F" and ok: "laser_ok F control l w"
  shows "laser_sets F control l (switch_mode b G F l w)"
proof (cases "constant_power_on l")
  case True
  obtain x w1 where "via b (l_sts l) mem_read (reg_pid_control G) w = Some (x, w1)" "control w1 = control w"
    using hw_pid [OF hw] by blast
  then show ?thesis
    using set_current_ok [OF hw F laser_ok_cong [OF _ ok]] True by (simp add: switch_mode_def)
next
  case False
  let ?m = "if laser_on l then do { (l, w) \<leftarrow> laser_stop b G l w; laser_start b G l w } else Some (l, w)"
  have "laser_sets F control l (Option.bind (laser_stop b G l w) (\<lambda>(l, w). laser_start b G l w))"
    by (rule then_laser) (use laser_stop_ok [OF hw ok] laser_start_ok [OF hw_same [OF hw]] in blast)+
  then have "laser_sets F control l ?m" using ok by auto
  then have "laser_sets F control l (Option.bind ?m (\<lambda>(l, w). do { (p, w) \<leftarrow> get_measured_power b F l w; set_power b G F p l w }))"
  proof (rule then_laser)
    fix l' w' assume l': "laser_ok F control l' w'" "same_maps l l'"
    note hw' = hw_same [OF hw l'(2)]
    obtain x w1 where "xadc_read b (l_xadc l') power_channel w' = Some (x, w1)" "control w1 = control w'"
      using hw_xadc_read [OF hw'] by blast
    then show "laser_sets F control l' (Option.bind (get_measured_power b F l' w') (\<lambda>(p, w). set_power b G F p l' w))"
      using set_power_ok [OF hw' F laser_ok_cong [OF _ l'(1)]] by (simp add: get_measured_power_def)
  qed
  then show ?thesis using False by (simp add: switch_mode_def)
qed

text \<open>The calibrations stop and start the laser and write the memory.\<close>

lemma laser_sets_cong:
  assumes "\<exists>x w'. m = Some (x, w') \<and> control w' = control w" and "\<And>x w'. control w' = control w \<Longrightarrow> laser_sets F control l (f x w')"
  shows "laser_sets F control l (Option.bind m (\<lambda>(x, w). f x w))"
  using assms by auto

lemma laser_sets_write:
  assumes "\<exists>w'. m = Some w' \<and> control w' = control w" and "\<And>w'. control w' = control w \<Longrightarrow> laser_sets F control l (f w')"
  shows "laser_sets F control l (Option.bind m f)"
  using assms by auto

lemma calibrate_0mW_ok:
  assumes hw: "hw_of b sleep control G l" and F: "flt_ok F" and ok: "laser_ok F control l w"
  shows "laser_sets F control l (calibrate_0mW b sleep G F l w)"
  unfolding calibrate_0mW_def
proof (rule then_laser)
  show "laser_sets F control l (laser_stop b G l w)" using laser_stop_ok [OF hw ok] by blast
next
  fix l1 w1 assume 1: "laser_ok F control l1 w1" "same_maps l l1"
  note hw1 = hw_same [OF hw 1(2)]
  have slept: "control (sleep n w) = control w" for n w by (rule hw_ok(10) [OF hw])
  show "laser_sets F control l1 (do {
     (s, w) \<leftarrow> sum_power b l1 (sleep 200000 w1);
     w \<leftarrow> eeprom_write b G (l_ctl l1) 1 (s div 100) w;
     (_, w) \<leftarrow> eeprom_read b sleep G (l_ctl l1) (l_sts l1) 1 (sleep 5000 w);
     (l, w) \<leftarrow> set_current b G F (fl_of_u32 F 15) l1 w;
     laser_start b G l w })"
  proof (rule laser_sets_cong [OF hw_sum_power [OF hw1]], rule laser_sets_write [OF hw_eeprom_write [OF hw1]],
      rule laser_sets_cong [OF hw_eeprom_read [OF hw1]], rule then_laser)
    fix w2 w3 w4 assume "control w2 = control (sleep 200000 w1)" "control w3 = control w2" "control w4 = control (sleep 5000 w3)"
    then show "laser_sets F control l1 (set_current b G F (fl_of_u32 F 15) l1 w4)"
      by (intro set_current_ok [OF hw1 F] laser_ok_cong [OF _ 1(1)]) (simp add: slept)
  next
    fix l2 w5 assume 2: "laser_ok F control l2 w5" "same_maps l1 l2"
    show "laser_sets F control l2 (laser_start b G l2 w5)" by (rule laser_start_ok [OF hw_same [OF hw1 2(2)] 2(1)])
  qed
qed

lemma calibrate_1mW_ok:
  assumes hw: "hw_of b sleep control G l" and ok: "laser_ok F control l w"
  shows "laser_sets F control l (calibrate_1mW b sleep G l w)"
  unfolding calibrate_1mW_def
proof (rule laser_sets_cong [OF hw_sum_power [OF hw]], rule laser_sets_write [OF hw_eeprom_write [OF hw]],
    rule laser_sets_write [OF hw_eeprom_write [OF hw]], rule laser_sets_cong [OF hw_eeprom_read [OF hw]])
  fix w1 w2 w3 w4
  assume "control w1 = control w" "control w2 = control w1" "control w3 = control (sleep 5000 w2)" "control w4 = control (sleep 5000 w3)"
  then have "control w4 = control w" by (simp add: hw_ok(10) [OF hw])
  then show "laser_sets F control l (read_calibration b sleep G l w4)"
    using read_calibration_ok [OF hw laser_ok_cong [OF _ ok]] by blast
qed

section \<open>Any sequence of commands\<close>

text \<open>The operations a client may call, and what a session makes of a sequence of them.\<close>

datatype 'f laser_cmd = Laser_Start | Laser_Stop | Set_Current 'f | Set_Power 'f | Switch_Mode | Read_Calibration | Calibrate_0mW
  | Calibrate_1mW

fun laser_exec :: "'w bus \<Rightarrow> (nat \<Rightarrow> 'w \<Rightarrow> 'w) \<Rightarrow> laser_regs \<Rightarrow> 'f flt \<Rightarrow> 'f laser_cmd \<Rightarrow> ('f, 'w) laser_op" where
  "laser_exec b sleep G F Laser_Start l w = laser_start b G l w"
| "laser_exec b sleep G F Laser_Stop l w = laser_stop b G l w"
| "laser_exec b sleep G F (Set_Current v) l w = set_current b G F v l w"
| "laser_exec b sleep G F (Set_Power v) l w = set_power b G F v l w"
| "laser_exec b sleep G F Switch_Mode l w = switch_mode b G F l w"
| "laser_exec b sleep G F Read_Calibration l w = read_calibration b sleep G l w"
| "laser_exec b sleep G F Calibrate_0mW l w = calibrate_0mW b sleep G F l w"
| "laser_exec b sleep G F Calibrate_1mW l w = calibrate_1mW b sleep G l w"

fun laser_run :: "'w bus \<Rightarrow> (nat \<Rightarrow> 'w \<Rightarrow> 'w) \<Rightarrow> laser_regs \<Rightarrow> 'f flt \<Rightarrow> 'f laser_cmd list \<Rightarrow> ('f, 'w) laser_op" where
  "laser_run b sleep G F [] l w = Some (l, w)"
| "laser_run b sleep G F (c # cs) l w = do { (l, w) \<leftarrow> laser_exec b sleep G F c l w; laser_run b sleep G F cs l w }"

lemma laser_exec_ok:
  assumes hw: "hw_of b sleep control G l" and F: "flt_ok F" and ok: "laser_ok F control l w"
  shows "laser_sets F control l (laser_exec b sleep G F c l w)"
proof (cases c)
  case Laser_Stop
  then show ?thesis using laser_stop_ok [OF hw ok] by auto
qed (use laser_start_ok [OF hw ok] set_current_ok [OF hw F ok] set_power_ok [OF hw F ok] switch_mode_ok [OF hw F ok]
    read_calibration_ok [OF hw ok] calibrate_0mW_ok [OF hw F ok] calibrate_1mW_ok [OF hw ok] in simp_all)

lemma laser_run_ok:
  assumes "hw_of b sleep control G l" and "flt_ok F" and "laser_ok F control l w"
  shows "laser_sets F control l (laser_run b sleep G F cs l w)"
  using assms
proof (induction cs arbitrary: l w)
  case (Cons c cs)
  show ?case
    unfolding laser_run.simps
    by (rule then_laser [OF laser_exec_ok [OF Cons.prems]]) (use Cons.IH hw_same [OF Cons.prems(1)] Cons.prems(2) in blast)
qed auto

text \<open>
  The constructor establishes the invariant exactly when the flag that it does not initialise happens to say what the register
  says: a restarted server that finds the register in constant power mode and the flag clear leaves the laser in that mode, and
  reports the other one.
\<close>

lemma new_laser_ok:
  assumes hw: "hw_of b sleep control G l" and F: "flt_ok F"
  shows "\<exists>l' w'. new_laser b sleep G F l w = Some (l', w') \<and> \<not> laser_on l' \<and> bit (control w') 0 \<and> \<not> constant_power_on l' \<and>
    (bit (control w') 2 \<longleftrightarrow> bit (control w) 2 \<and> \<not> constant_power_on l) \<and> \<not> fl_less F (fl_max_laser_current F) (l_current l')"
proof -
  obtain w1 where 1: "via b (l_ctl l) mem_set_bit (reg_laser_control G) 0 w = Some w1" "control w1 = control w OR 1"
    using hw_bits(1) [OF hw, of 0 w] by auto
  let ?l = "l\<lparr>laser_on := False, l_current := fl_of_u32 F 0\<rparr>"
  let ?c = "fl_min F (fl_of_u32 F 0) (fl_max_laser_current F)"
  obtain x where x: "fl_to_u32 F (fl_mul F ?c (fl_current_to_pwm F)) = Some x" using F by (auto simp: flt_ok_def)
  have lim: "\<not> fl_less F (fl_max_laser_current F) ?c" using F by (simp add: fl_min_def flt_ok_def)
  obtain w2 where 2: "via b (l_ctl l) mem_clear_bit (reg_laser_control G) 2 w1 = Some w2"
      "control w2 = control w1 AND NOT (push_bit 2 1)" using hw_bits(2) [OF hw, of 2 w1] by auto
  define w3 where "w3 = (if constant_power_on l then w2 else w1)"
  define l3 where "l3 = (if constant_power_on l then ?l\<lparr>constant_power_on := False\<rparr> else ?l)\<lparr>l_current := ?c\<rparr>"
  obtain w4 where 4: "via b (l_ctl l) mem_write (reg_laser_current G) x w3 = Some w4" "control w4 = control w3"
    using hw_write [OF hw, of "reg_laser_current G" x w3] by auto
  have new: "new_laser b sleep G F l w = read_calibration b sleep G l3 w4"
    using 1 2 4 x by (cases "constant_power_on l") (simp_all add: new_laser_def laser_stop_def set_current_def w3_def l3_def)
  have l3: "hw_of b sleep control G l3" "\<not> laser_on l3" "\<not> constant_power_on l3" "l_current l3 = ?c" using hw by (simp_all add: l3_def)
  have "bit (control w4) 0" "bit (control w4) 2 \<longleftrightarrow> bit (control w) 2 \<and> \<not> constant_power_on l"
    using 1(2) 2(2) 4(2) by (auto simp: w3_def bit_simps)
  then show ?thesis using lim read_calibration_keeps [OF l3(1), of w4] l3 new by auto
qed

section \<open>Property\<close>


text \<open>Three pages of plain memory, and integers for \<open>float\<close>.\<close>

definition page_handle :: "u32 \<Rightarrow> handle" where
  "page_handle a = (let d = sample_region\<lparr>md_addr := a\<rparr> in (d, fst (mem_open sample_mmap d new_memory ())))"

definition page_laser :: "int laser" where
  "page_laser = \<lparr>l_current = 0, l_power = 0, laser_on = True, constant_power_on = False, is_calibrated = False,
     l_ctl = page_handle 0x40000000, l_sts = page_handle 0x50000000, l_xadc = page_handle 0x60000000, power_0mW = 300, power_1mW = 1850\<rparr>"

definition page_regs_of :: laser_regs where
  "page_regs_of = \<lparr>reg_eeprom_ctl = 0, reg_eeprom_sts = 8, reg_laser_control = 4, reg_laser_current = 8, reg_power_setpoint = 12,
     reg_pid_control = 12\<rparr>"

definition int_flt :: "int flt" where
  "int_flt = \<lparr>fl_add = (+), fl_sub = (-), fl_mul = (*), fl_div = (div), fl_less = (<), fl_of_u32 = uint, fl_to_u32 = (\<lambda>x. Some (word_of_int x)),
     fl_max_laser_current = 50, fl_current_to_pwm = 12, fl_measured_current_gain = 1\<rparr>"


end
