(* ===== verification/Typing.thy ===== *)
theory Typing
  imports Session
begin

text \<open>
  The types of the arguments an operation is called with. The generated code calls it with C++ values, so they have the declared
  types whatever the peer sends: what that means for the model is that every scalar is a value of its type, a vector holds whole
  elements, and an array has its size. It rests on the interface \<open>typed_session\<close>, which every session provides.
\<close>

fun well_typed :: "arg_ty \<Rightarrow> arg \<Rightarrow> bool" where
  "well_typed (TScalar t) (Scalar v) \<longleftrightarrow> ty_of v = t \<and> valid_scalar v"
| "well_typed (TVector t) (Container c) \<longleftrightarrow> t dvd length c"
| "well_typed TString (Container c) \<longleftrightarrow> True"
| "well_typed (TArray t n) (Array a) \<longleftrightarrow> length a = t * n"
| "well_typed _ _ \<longleftrightarrow> False"

lemma arg_matches_typed: "arg_matches lim t a \<Longrightarrow> well_typed t a"
  by (cases "(lim, t, a)" rule: arg_matches.cases) auto

section \<open>The interface\<close>

locale typed_session =
  fixes ops :: "'s session_ops"
  assumes deser_typed: "deser_op ops s ts = Some (r, vs, s') \<Longrightarrow> map ty_of vs = ts \<and> list_all valid_scalar vs"
    and array_typed: "recv_array_op ops s t n = Some (r, a, s') \<Longrightarrow> 0 \<le> r \<Longrightarrow> length a = t * n"
    and vector_typed: "recv_vector_op ops s t = Some (r, c, s') \<Longrightarrow> 0 \<le> r \<Longrightarrow> t dvd length c"
begin

text \<open>The types a list of packs stands for.\<close>

fun pack_types :: "pack \<Rightarrow> arg_ty list" where
  "pack_types (ScalarPack ts) = map TScalar ts"
| "pack_types (VectorPack t) = [TVector t]"
| "pack_types StringPack = [TString]"
| "pack_types (ArrayPack t n) = [TArray t n]"

lemma pack_types_scalar [simp]: "concat (map pack_types (scalar_pack ts)) = map TScalar ts"
  by (simp add: scalar_pack_def)

lemma pack_types_build: "concat (map pack_types (build_args_packs ts us)) = map TScalar us @ ts"
  by (induction ts us rule: build_args_packs.induct) simp_all

lemma scalars_typed: "map ty_of vs = ts \<Longrightarrow> list_all valid_scalar vs \<Longrightarrow> list_all2 well_typed (map TScalar ts) (map Scalar vs)"
  by (induction vs arbitrary: ts) auto

lemma run_parser_typed:
  "run_parser ops ps s = Some (Some args, s') \<Longrightarrow> list_all2 well_typed (concat (map pack_types ps)) args"
proof (induction ps arbitrary: s args)
  case (Cons p ps)
  show ?case
  proof (cases p)
    case (ScalarPack ts)
    then obtain r vs s1 as where 1: "deser_op ops s ts = Some (r, vs, s1)" "run_parser ops ps s1 = Some (Some as, s')"
        "args = map Scalar vs @ as"
      using Cons.prems by (auto simp: bind_eq_Some_conv split: if_splits)
    moreover have "list_all2 well_typed (map TScalar ts) (map Scalar vs)" using deser_typed [OF 1(1)] by (simp add: scalars_typed)
    ultimately show ?thesis using Cons.IH [OF 1(2)] ScalarPack by (simp add: list_all2_appendI)
  next
    case (VectorPack t)
    then show ?thesis using Cons by (auto simp: bind_eq_Some_conv split: if_splits dest: vector_typed)
  next
    case StringPack
    then show ?thesis using Cons by (auto simp: bind_eq_Some_conv split: if_splits)
  next
    case (ArrayPack t n)
    then show ?thesis using Cons by (auto simp: bind_eq_Some_conv split: if_splits dest: array_typed)
  qed
qed simp

lemma parse_args_typed: "parse_args ops ts s = Some (Some args, s') \<Longrightarrow> list_all2 well_typed ts args"
  using run_parser_typed [of "build_args_packs ts []" s args s'] by (simp add: parse_args_def pack_types_build)

end

text \<open>A session that stays in its memory: then so does the parser, and the operation is called or refused.\<close>

locale total_session = typed_session +
  assumes deser_total: "deser_op ops s ts \<noteq> None"
    and array_total: "recv_array_op ops s t n \<noteq> None"
    and vector_total: "recv_vector_op ops s t \<noteq> None"
    and string_total: "recv_string_op ops s \<noteq> None"
begin

lemma run_parser_total: "\<exists>r s'. run_parser ops ps s = Some (r, s')"
proof (induction ps arbitrary: s)
  case (Cons p ps)
  show ?case
  proof (cases p)
    case (ScalarPack ts)
    obtain r vs s1 where "deser_op ops s ts = Some (r, vs, s1)" using deser_total [of s ts] by auto
    then show ?thesis using Cons.IH [of s1] ScalarPack by auto
  next
    case (VectorPack t)
    obtain r vs s1 where "recv_vector_op ops s t = Some (r, vs, s1)" using vector_total [of s t] by auto
    then show ?thesis using Cons.IH [of s1] VectorPack by auto
  next
    case StringPack
    obtain r vs s1 where "recv_string_op ops s = Some (r, vs, s1)" using string_total [of s] by auto
    then show ?thesis using Cons.IH [of s1] StringPack by auto
  next
    case (ArrayPack t n)
    obtain r vs s1 where "recv_array_op ops s t n = Some (r, vs, s1)" using array_total [of s t n] by auto
    then show ?thesis using Cons.IH [of s1] ArrayPack by auto
  qed
qed simp

lemma parse_args_total: "\<exists>r s'. parse_args ops ts s = Some (r, s') \<and> (\<forall>args. r = Some args \<longrightarrow> list_all2 well_typed ts args)"
  using run_parser_total [of "build_args_packs ts []" s] parse_args_typed [of ts s] by (fastforce simp: parse_args_def)

end

section \<open>Every session provides it\<close>

lemma extract_scalar_typed: "extract_scalar t b p = Some v \<Longrightarrow> ty_of v = t \<and> valid_scalar v"
proof -
  have "in_range 8 (sint x)" "in_range 16 (sint y)" "in_range 32 (sint z)" "in_range 64 (sint v)"
    for x :: byte and y :: u16 and z :: u32 and v :: u64
    using sint_ge [of x] sint_lt [of x] sint_ge [of y] sint_lt [of y] sint_ge [of z] sint_lt [of z] sint_ge [of v] sint_lt [of v]
    by (simp_all add: in_range_def)
  then show "extract_scalar t b p = Some v \<Longrightarrow> ty_of v = t \<and> valid_scalar v"
    by (cases t) (auto simp: extract_i8_def extract_i16_def extract_i32_def extract_i64_def)
qed

lemma deserialize_at_typed: "deserialize_at p ts b = Some vs \<Longrightarrow> map ty_of vs = ts \<and> list_all valid_scalar vs"
  by (induction ts arbitrary: p vs) (auto simp: bind_eq_Some_conv dest: extract_scalar_typed)

lemma deserialize_at_defined: "p + required_buffer_size ts \<le> length b \<Longrightarrow> \<exists>vs. deserialize_at p ts b = Some vs"
proof (induction ts arbitrary: p)
  case (Cons t ts)
  then obtain v where "extract_scalar t b p = Some v" using extract_scalar_None [of t b p] by fastforce
  then show ?case using Cons.IH [of "p + size_of t"] Cons.prems by (auto simp: add.assoc)
qed simp

interpretation ws: typed_session "ws_ops old" for old
  by unfold_locales
    (auto simp: ws_ops_def ws_deserialize_def ws_recv_array_def ws_recv_vector_def buffer_deserialize_def extract_array_def to_vector_def
      bind_eq_Some_conv deserialize_at_typed load_bytes_def split: if_splits dest: deserialize_at_typed)

lemma tcp_typed_session:
  assumes "\<And>n. length (mem n) = n"
  shows "typed_session (tcp_ops rd mem old)"
proof
  fix s ts r vs s' assume "deser_op (tcp_ops rd mem old) s ts = Some (r, vs, s')"
  then show "map ty_of vs = ts \<and> list_all valid_scalar vs"
    using deserialize_at_typed [of 0 ts _ vs] by (auto simp: tcp_ops_def tcp_deserialize_def bind_eq_Some_conv Let_def split: if_splits)
next
  fix s t n r a s' assume "recv_array_op (tcp_ops rd mem old) s t n = Some (r, a, s')"
  then show "length a = t * n"
    using assms [of "t * n"]
    by (auto simp: tcp_ops_def tcp_recv_array_def rcv_n_bytes_def bind_eq_Some_conv dest: read_loop_length)
next
  fix s t r c s' assume "recv_vector_op (tcp_ops rd mem old) s t = Some (r, c, s')" "0 \<le> r"
  then show "t dvd length c"
    by (auto simp: tcp_ops_def tcp_recv_vector_def rcv_n_bytes_def Let_def bind_eq_Some_conv split: if_splits dest: read_loop_length)
qed

lemma rcv_n_bytes_total: "reader_ok rd \<Longrightarrow> n \<le> length b \<Longrightarrow> \<exists>r b' w'. rcv_n_bytes rd w b n = Some (r, b', w') \<and> length b' = length b"
  using read_loop_safe [of n b 0 rd w] by (auto simp: rcv_n_bytes_def)

lemma get_pack_length_total:
  assumes "reader_ok rd" and "length mem = 8"
  shows "\<exists>n w'. get_pack_length rd mem w = Some (n, w')"
proof -
  obtain r b w' where "rcv_n_bytes rd w mem 4 = Some (r, b, w')" "length b = 8"
    using rcv_n_bytes_total [OF assms(1), of 4 mem w] assms(2) by auto
  then show ?thesis using extract_u32_None [of b 0] by (cases "extract_u32 b 0") (auto simp: get_pack_length_def)
qed

lemma tcp_total_session:
  assumes rd: "reader_ok rd" and mem: "\<And>n. length (mem n) = n"
  shows "total_session (tcp_ops rd mem old)"
proof (intro total_session.intro tcp_typed_session [OF mem] total_session_axioms.intro)
  fix s ts
    obtain r b w' where r: "rcv_n_bytes rd s (mem (required_buffer_size ts)) (required_buffer_size ts) = Some (r, b, w')"
        "length b = required_buffer_size ts"
      using rcv_n_bytes_total [OF rd, of "required_buffer_size ts" "mem (required_buffer_size ts)" s] mem by auto
    then obtain vs where "deserialize_at 0 ts b = Some vs" using deserialize_at_defined [of 0 ts b] by auto
    with r(1) show "deser_op (tcp_ops rd mem old) s ts \<noteq> None" by (simp add: tcp_ops_def tcp_deserialize_def Let_def)
  next
    fix s t n
    show "recv_array_op (tcp_ops rd mem old) s t n \<noteq> None"
      using rcv_n_bytes_total [OF rd, of "t * n" "mem (t * n)" s] mem by (auto simp: tcp_ops_def tcp_recv_array_def)
  next
    fix s t
    obtain n w where "get_pack_length rd (mem 8) s = Some (n, w)" using get_pack_length_total [OF rd mem] by blast
    then show "recv_vector_op (tcp_ops rd mem old) s t \<noteq> None"
      using rcv_n_bytes_total [OF rd, of "nat (n sdiv int t) * t" "resize (nat (n sdiv int t) * t) old" w]
      by (auto simp: tcp_ops_def tcp_recv_vector_def Let_def)
  next
    fix s
    obtain n w where "get_pack_length rd (mem 8) s = Some (n, w)" using get_pack_length_total [OF rd mem] by blast
    then show "recv_string_op (tcp_ops rd mem old) s \<noteq> None"
      using rcv_n_bytes_total [OF rd, of "nat n" "resize (nat n) old" w]
      by (auto simp: tcp_ops_def tcp_recv_string_def)
qed

interpretation tcp: total_session "tcp_ops packet_read (\<lambda>n. replicate n 0) old" for old
  by (rule tcp_total_session [OF packet_read_ok]) simp

lemma abstract_typed_session:
  assumes mem: "\<And>n. length (mem n) = n"
  shows "typed_session (abstract_ops ty rd mem old)"
proof -
  note tcp = tcp_typed_session [OF mem, of rd old]
  note r = tcp [THEN typed_session.deser_typed] tcp [THEN typed_session.array_typed] tcp [THEN typed_session.vector_typed]
    ws.deser_typed [of old] ws.array_typed [of old] ws.vector_typed [of old]
  have zero: "ty_of (zero_scalar t) = t \<and> valid_scalar (zero_scalar t)" for t by (cases t) (simp_all add: in_range_def)
  then have "map ty_of (map zero_scalar ts) = ts \<and> list_all valid_scalar (map zero_scalar ts)" for ts
    by (induction ts) simp_all
  then show ?thesis
    by unfold_locales
      (use r in \<open>auto simp: abstract_ops_def tcp_ops_def ws_ops_def on_world_def on_command_def split: if_splits\<close>)
qed

section \<open>Property\<close>



end
