(* ===== verification/Instrument.thy ===== *)
theory Instrument
  imports Client Dispatch Sesenta Laser Typing
begin

text \<open>
  The instrument as the build puts it together (\<^verbatim>\<open>src/projects/sesenta/config.yml\<close>): the drivers \<open>Common\<close>, \<open>DmaS2MM\<close> and
  \<open>Sesenta\<close> behind the interfaces that the generator makes of their public methods (\<^verbatim>\<open>src/server/__init__.py\<close>,
  \<^verbatim>\<open>src/server/templates/interface_driver.cpp\<close>), reached by a client through a session and the drivers manager.

  Operations are numbered in the order of the methods, drivers from 2. The world has three parts that do not share state: the
  hardware behind the bus, the flags of the beamforming thread, and the network. The beamforming thread itself is part of what
  the hardware may do between two accesses.
\<close>

section \<open>Values as bytes in memory\<close>

definition le32 :: "u32 \<Rightarrow> byte list" where
  "le32 v = [ucast v, ucast (drop_bit 8 v), ucast (drop_bit 16 v), ucast (drop_bit 24 v)]"

definition le_words :: "u32 list \<Rightarrow> byte list" where
  "le_words vs = concat (map le32 vs)"

lemma length_le_words [simp]: "length (le_words vs) = 4 * length vs"
  by (induction vs) (simp_all add: le_words_def le32_def)

section \<open>The interface of a driver\<close>

text \<open>
  \<open>execute_operation\<close> of an operation whose method takes arguments of the types \<open>ts\<close>: the generated parser, then the call, whose
  result is sent unless the method returns \<open>void\<close>.
\<close>

definition execute_operation ::
  "nat \<Rightarrow> nat \<Rightarrow> arg_ty list \<Rightarrow> (arg list \<Rightarrow> 'b \<Rightarrow> (arg option \<times> 'b) option) \<Rightarrow> 'n reader \<Rightarrow> 'n writer \<Rightarrow> (nat \<Rightarrow> buf) \<Rightarrow> buf \<Rightarrow>
    (session \<times> 'b \<times> 'n) command_exec" where
  "execute_operation class_id op ts call rd wr mem old cmd = (\<lambda>(s, b, n). do {
     (args, cmd, n) \<leftarrow> parse_args (abstract_ops (sess_type s) rd mem old) ts (cmd, n);
     case args of None \<Rightarrow> Some (- 1, s, b, n)
     | Some args \<Rightarrow> do {
         (ret, b) \<leftarrow> call args b;
         case ret of None \<Rightarrow> Some (0, s, b, n)
         | Some a \<Rightarrow> do {
             (r, s, n) \<leftarrow> abstract_send wr (of_nat class_id) (of_nat op) [a] s n;
             Some (r, s, b, n) } } })"

text \<open>The switch of \<open>execute\<close> over the operations of the driver.\<close>

definition interface_execute ::
  "nat \<Rightarrow> arg_ty list list \<Rightarrow> (nat \<Rightarrow> arg list \<Rightarrow> 'b \<Rightarrow> (arg option \<times> 'b) option) \<Rightarrow> 'n reader \<Rightarrow> 'n writer \<Rightarrow> (nat \<Rightarrow> buf) \<Rightarrow> buf \<Rightarrow>
    (session \<times> 'b \<times> 'n) command_exec" where
  "interface_execute class_id sigs call rd wr mem old cmd w =
     (if 0 \<le> operation cmd \<and> operation cmd < int (length sigs)
      then execute_operation class_id (nat (operation cmd)) (sigs ! nat (operation cmd)) (call (nat (operation cmd))) rd wr mem old cmd w
      else Some (- 1, w))"

section \<open>The three drivers\<close>

text \<open>
  What the drivers need of the platform: the bus, the two sleeps, in milliseconds and microseconds, and the two computations of
  a waiting time, in milliseconds, from a number of points and from a \<open>float\<close> number of seconds.
\<close>

record 'h platform =
  p_bus :: "'h bus"
  p_sleep :: "nat \<Rightarrow> 'h \<Rightarrow> 'h"
  p_usleep :: "nat \<Rightarrow> 'h \<Rightarrow> 'h"
  p_ms :: "u32 \<Rightarrow> nat"
  p_duration :: "float32 \<Rightarrow> int"

type_synonym 'h board = "'h \<times> beamforming"

type_synonym 'h board_op = "'h board \<Rightarrow> (arg option \<times> 'h board) option"

text \<open>A method that returns nothing, a number, or a \<open>std::vector<int32_t>\<close>.\<close>

definition ret_void :: "('h \<Rightarrow> 'h option) \<Rightarrow> 'h board_op" where
  "ret_void f = (\<lambda>(h, bf). do { h \<leftarrow> f h; Some (None, h, bf) })"

definition ret_u32 :: "('h \<Rightarrow> (u32 \<times> 'h) option) \<Rightarrow> 'h board_op" where
  "ret_u32 f = (\<lambda>(h, bf). do { (v, h) \<leftarrow> f h; Some (Some (Scalar (U32 v)), h, bf) })"

definition ret_vector :: "('h \<Rightarrow> (u32 list \<times> 'h) option) \<Rightarrow> 'h board_op" where
  "ret_vector f = (\<lambda>(h, bf). do { (vs, h) \<leftarrow> f h; Some (Some (Container (le_words vs)), h, bf) })"

text \<open>The arguments, which the parser has stored in the structure of the operation.\<close>

definition arg_u32 :: "nat \<Rightarrow> arg list \<Rightarrow> u32 option" where
  "arg_u32 i args = (if i < length args then (case args ! i of Scalar v \<Rightarrow> (case v of U32 x \<Rightarrow> Some x | _ \<Rightarrow> None) | _ \<Rightarrow> None) else None)"

definition arg_float :: "nat \<Rightarrow> arg list \<Rightarrow> float32 option" where
  "arg_float i args = (if i < length args then (case args ! i of Scalar v \<Rightarrow> (case v of Flt x \<Rightarrow> Some x | _ \<Rightarrow> None) | _ \<Rightarrow> None) else None)"

definition with_u32 :: "arg list \<Rightarrow> (u32 \<Rightarrow> 'h board_op) \<Rightarrow> 'h board_op" where
  "with_u32 args f w = do { x \<leftarrow> arg_u32 0 args; f x w }"

definition common_sigs :: "arg_ty list list" where
  "common_sigs = [[], [], []]"

definition common_call :: "'h platform \<Rightarrow> handle \<Rightarrow> byte list \<Rightarrow> nat \<Rightarrow> arg list \<Rightarrow> 'h board_op" where
  "common_call P h_sts cfg op args = (\<lambda>(h, bf).
     if op = 0 then do { (v, h) \<leftarrow> get_dna (p_bus P) h_sts 0 h; Some (Some (Scalar (U64 v)), h, bf) }
     else if op = 1 then Some (None, h, bf)
     else if op = 2 then Some (Some (Container cfg), h, bf)
     else None)"

definition dma_sigs :: "arg_ty list list" where
  "dma_sigs = [[TScalar TU32, TScalar TU32, TScalar TU32], [TScalar TFloat]]"

definition dma_call :: "'h platform \<Rightarrow> dma_s2mm \<Rightarrow> nat \<Rightarrow> arg list \<Rightarrow> 'h board_op" where
  "dma_call P drv op args w =
     (if op = 0 then do {
        a \<leftarrow> arg_u32 0 args; a2 \<leftarrow> arg_u32 1 args; len \<leftarrow> arg_u32 2 args;
        ret_void (\<lambda>h. do { (_, _, h) \<leftarrow> setup_transfer (p_bus P) (p_sleep P) drv a a2 len h; Some h }) w }
      else if op = 1 then do {
        t \<leftarrow> arg_float 0 args;
        ret_void (wait_for_transfer (p_bus P) (p_sleep P) drv (p_duration P t)) w }
      else None)"

definition sesenta_sigs :: "arg_ty list list" where
  "sesenta_sigs = (let n = TScalar TU32 in
     [[], [], [], [], [n], [], [n], [n, TScalar TU16, TScalar TU16], [n], [n], [n], [n], [n, n], [n], [n], [n], [n], [], []])"

text \<open>
  \<open>split_mic_value\<close> writes into the stored arguments, which nobody reads. \<open>std::array\<close> results are sent without a length.
\<close>

definition sesenta_call :: "'h platform \<Rightarrow> sesenta \<Rightarrow> nat \<Rightarrow> arg list \<Rightarrow> 'h board_op" where
  "sesenta_call P drv op args w = (
     if op = 0 then ret_void (dma_on (p_bus P) drv) w
     else if op = 1 then ret_void (dma_off (p_bus P) drv) w
     else if op = 2 then ret_void (dma1_on (p_bus P) drv) w
     else if op = 3 then ret_void (dma1_off (p_bus P) drv) w
     else if op = 4 then with_u32 args (\<lambda>x. ret_void (set_nsamples (p_bus P) drv x)) w
     else if op = 5 then ret_u32 (get_nsamples (p_bus P) drv) w
     else if op = 6 then with_u32 args (\<lambda>x. ret_void (start_dma_transfer (p_bus P) (p_sleep P) (p_ms P) drv x)) w
     else if op = 7 then Some (None, w)
     else if op = 8 then with_u32 args (\<lambda>x. ret_vector (read_mics6 (p_bus P) drv x)) w
     else if op = 9 then with_u32 args (\<lambda>x. ret_vector (get_mics6 (p_bus P) (p_sleep P) (p_ms P) drv x)) w
     else if op = 10 then with_u32 args (\<lambda>x. ret_vector (get_mics4 (p_bus P) (p_sleep P) (p_ms P) drv x)) w
     else if op = 11 then with_u32 args (\<lambda>x. ret_vector (get_mics (p_bus P) (p_sleep P) (p_ms P) drv x)) w
     else if op = 12 then with_u32 args (\<lambda>x w. do {
       y \<leftarrow> arg_u32 1 args;
       ret_vector (get_mics_ith (p_bus P) (p_sleep P) (p_ms P) drv x y) w }) w
     else if op = 13 then with_u32 args (\<lambda>x (h, bf). do {
       (vs, h) \<leftarrow> get_mic_ith (p_bus P) drv x h;
       Some (Some (Array (le_words vs)), h, bf) }) w
     else if op = 14 then with_u32 args (\<lambda>x. ret_void (set_mic_sel (p_bus P) (p_usleep P) drv x)) w
     else if op = 15 then with_u32 args (\<lambda>x. ret_vector (get_mics_bram (p_bus P) (p_usleep P) drv x)) w
     else if op = 16 then with_u32 args (\<lambda>x. ret_void (set_led_sel (p_bus P) drv x)) w
     else if op = 17 then (case w of (h, bf) \<Rightarrow> Some (Some (Scalar (U32 get_mic_size)), h, bf))
     else if op = 18 then (case w of (h, bf) \<Rightarrow> Some (None, h, start_beamforming bf))
     else None)"

text \<open>The drivers in the order of the configuration: \<open>Common\<close> has identifier 2, \<open>DmaS2MM\<close> 3 and \<open>Sesenta\<close> 4.\<close>

definition board_execute ::
  "'h platform \<Rightarrow> sesenta \<Rightarrow> byte list \<Rightarrow> 'n reader \<Rightarrow> 'n writer \<Rightarrow> (nat \<Rightarrow> buf) \<Rightarrow> buf \<Rightarrow> (session \<times> 'h board \<times> 'n) driver_exec" where
  "board_execute P drv cfg rd wr mem old k =
     (if k = 0 then interface_execute 2 common_sigs (common_call P (sts drv) cfg) rd wr mem old
      else if k = 1 then interface_execute 3 dma_sigs (dma_call P (dma_drv drv)) rd wr mem old
      else interface_execute 4 sesenta_sigs (sesenta_call P drv) rd wr mem old)"

section \<open>A capture returns\<close>

lemma poll_total: "(\<And>w. test w \<noteq> None) \<Longrightarrow> poll test nap cnt w \<noteq> None"
proof (induction "max_sleeps_cnt - cnt" arbitrary: cnt w rule: less_induct)
  case less
  obtain busy w1 where "test w = Some (busy, w1)" using less.prems [of w] by auto
  then show ?case using less.hyps [of "cnt + 1" "nap w1"] less.prems by (auto simp: poll.simps [of test nap cnt w])
qed

lemma read_bit_total: "handle_ok h \<Longrightarrow> page_reg r \<Longrightarrow> i < 32 \<Longrightarrow> via b h mem_read_bit r i w \<noteq> None"
  by (simp add: mem_read_bit_def handle_rw page_reg_translate bit_at_def vload_reg split: prod.splits)

lemma bind_total: "m \<noteq> None \<Longrightarrow> (\<And>x. f x \<noteq> None) \<Longrightarrow> Option.bind m f \<noteq> None"
  by (cases m) auto

lemma bind_total2: "m \<noteq> None \<Longrightarrow> (\<And>x y. f x y \<noteq> None) \<Longrightarrow> Option.bind m (\<lambda>(x, y). f x y) \<noteq> None"
  by (cases m) auto

lemma bind_total3: "m \<noteq> None \<Longrightarrow> (\<And>x y z. f x y z \<noteq> None) \<Longrightarrow> Option.bind m (\<lambda>(x, y, z). f x y z) \<noteq> None"
  by (cases m) auto

lemma reg_total:
  assumes "handle_ok h" and "page_reg r"
  shows "via b h mem_write r v w \<noteq> None" and "via b h write_reg r v w \<noteq> None" and "via b h read_reg r w \<noteq> None"
    and "via b h mem_set_bit r 0 w \<noteq> None" and "via b h mem_set_bit r 2 w \<noteq> None" and "via b h mem_clear_bit r 0 w \<noteq> None"
    and "via b h mem_read_bit r 0 w \<noteq> None" and "via b h mem_read_bit r 1 w \<noteq> None" and "via b h mem_read_bit r 2 w \<noteq> None"
  using assms by (simp_all add: reg_simps read_bit_total)

lemmas total_intros = bind_total3 bind_total2 bind_total poll_total reg_total

lemma setup_transfer_total:
  assumes "handle_ok (dma drv)" and "handle_ok (dma1 drv)"
  shows "setup_transfer b sleep drv a a2 len w \<noteq> None"
  unfolding setup_transfer_def dma_reset_def dma_start_def halted_def halted1_def set_destination_address_def set_length_def
  by (intro total_intros option.distinct(2) assms page_regs)

lemma wait_for_transfer_total:
  assumes "handle_ok (dma drv)" and "handle_ok (dma1 drv)"
  shows "wait_for_transfer b sleep drv left w \<noteq> None"
proof (induction "nat left" arbitrary: left w rule: less_induct)
  case less
  show ?case
  proof (cases "0 < left")
    case True
    then have IH: "wait_for_transfer b sleep drv (left - 500) w \<noteq> None" for w by (intro less.hyps) simp
    have "do { (_, w) \<leftarrow> halted b drv (sleep 500 w); (_, w) \<leftarrow> idle b drv w; (_, w) \<leftarrow> halted1 b drv w; (_, w) \<leftarrow> idle1 b drv w;
        wait_for_transfer b sleep drv (left - 500) w } \<noteq> None"
      unfolding halted_def halted1_def idle_def idle1_def by (intro total_intros assms page_regs IH)
    then show ?thesis using True by (subst wait_for_transfer.simps) (simp only: if_True simp_thms)
  qed (simp add: wait_for_transfer.simps)
qed

definition capture :: "'h platform \<Rightarrow> sesenta \<Rightarrow> u32 \<Rightarrow> 'h \<Rightarrow> 'h option" where
  "capture P drv samples h = do {
     h \<leftarrow> start_dma_transfer (p_bus P) (p_sleep P) (p_ms P) drv samples h;
     h \<leftarrow> dma_off (p_bus P) drv h;
     dma1_off (p_bus P) drv h }"

lemma capture_total:
  assumes "handle_ok (ctl drv)" and "handle_ok (dma (dma_drv drv))" and "handle_ok (dma1 (dma_drv drv))"
  shows "\<exists>h'. capture P drv samples h = Some h'"
proof -
  have "capture P drv samples h \<noteq> None"
    unfolding capture_def start_dma_transfer_def set_nsamples_def get_nsamples_def dma_on_def dma_off_def dma1_on_def dma1_off_def
    by (intro total_intros setup_transfer_total wait_for_transfer_total assms sesenta_regs)
  then show ?thesis by blast
qed

section \<open>An operation over a TCP session\<close>

text \<open>Reading arguments does not touch what the session has written: the reader interface with that as its invariant.\<close>

lemma tcp_reader_keeps:
  assumes rd: "\<And>w n. f (snd (rd w n)) = f w"
  shows "tcp_deserialize rd mem w ts = Some (r, vs, w') \<Longrightarrow> f w' = f w"
    and "tcp_recv_array rd arr w t n = Some (r, a, w') \<Longrightarrow> f w' = f w"
    and "tcp_recv_vector rd m old w t = Some (r, a, w') \<Longrightarrow> f w' = f w"
    and "tcp_recv_string rd m old w = Some (r, a, w') \<Longrightarrow> f w' = f w"
proof -
  note k = read_loop_keeps [where f = f and rd = rd, OF rd]
  have n: "get_pack_length rd m w = Some (x, w') \<Longrightarrow> f w' = f w" for m w x w'
    using k by (fastforce simp: get_pack_length_def rcv_n_bytes_def bind_eq_Some_conv split: if_splits)
  show "tcp_deserialize rd mem w ts = Some (r, vs, w') \<Longrightarrow> f w' = f w"
    "tcp_recv_array rd arr w t n = Some (r, a, w') \<Longrightarrow> f w' = f w"
    using k by (fastforce simp: tcp_deserialize_def tcp_recv_array_def rcv_n_bytes_def bind_eq_Some_conv Let_def split: if_splits)+
  show "tcp_recv_vector rd m old w t = Some (r, a, w') \<Longrightarrow> f w' = f w"
    "tcp_recv_string rd m old w = Some (r, a, w') \<Longrightarrow> f w' = f w"
    by (auto simp: tcp_recv_vector_def tcp_recv_string_def rcv_n_bytes_def bind_eq_Some_conv Let_def split: if_splits dest!: n k)
qed

lemma session_reader_keeps:
  assumes r: "session_reader ops left ok lim"
    and "\<And>s ts r vs s'. deser_op ops s ts = Some (r, vs, s') \<Longrightarrow> f s' = f s"
    and "\<And>s t n r a s'. recv_array_op ops s t n = Some (r, a, s') \<Longrightarrow> f s' = f s"
    and "\<And>s t r a s'. recv_vector_op ops s t = Some (r, a, s') \<Longrightarrow> f s' = f s"
    and "\<And>s r a s'. recv_string_op ops s = Some (r, a, s') \<Longrightarrow> f s' = f s"
  shows "session_reader ops left (\<lambda>s. ok s \<and> f s = c) lim"
proof
  fix s vs rest assume "ok s \<and> f s = c" "left s = concat (map enc_scalar vs) @ rest" "vs \<noteq> []" "list_all valid_scalar vs"
    "required_buffer_size (map ty_of vs) \<le> lim"
  then show "\<exists>r s'. deser_op ops s (map ty_of vs) = Some (r, vs, s') \<and> 0 \<le> r \<and> (ok s' \<and> f s' = c) \<and> left s' = rest"
    using session_reader.deser_enc [OF r, of s vs rest] assms(2) by metis
next
  fix s a rest t n assume "ok s \<and> f s = c" "left s = a @ rest" "length a = t * n" "length a \<le> lim"
  then show "\<exists>r s'. recv_array_op ops s t n = Some (r, a, s') \<and> 0 \<le> r \<and> (ok s' \<and> f s' = c) \<and> left s' = rest"
    using session_reader.recv_array_enc [OF r, of s a rest t n] assms(3) by metis
next
  fix s x rest t assume "ok s \<and> f s = c" "left s = enc_container x @ rest" "0 < t" "t dvd length x" "length x \<le> lim"
  then show "\<exists>r s'. recv_vector_op ops s t = Some (r, x, s') \<and> 0 \<le> r \<and> (ok s' \<and> f s' = c) \<and> left s' = rest"
    using session_reader.recv_vector_enc [OF r, of s x rest t] assms(4) by metis
next
  fix s x rest assume "ok s \<and> f s = c" "left s = enc_container x @ rest" "length x \<le> lim"
  then show "\<exists>r s'. recv_string_op ops s = Some (r, x, s') \<and> 0 \<le> r \<and> (ok s' \<and> f s' = c) \<and> left s' = rest"
    using session_reader.recv_string_enc [OF r, of s x rest] assms(5) by metis
qed

lemma tcp_session_reader_keeps:
  assumes "stream_source rd peer" and "\<And>n. length (mem n) = n" and rd: "\<And>w n. f (snd (rd w n)) = f w"
  shows "session_reader (abstract_ops TCP rd mem old) (\<lambda>(cmd, w). peer w) (\<lambda>s. True \<and> f (snd s) = c) (2 ^ 31 - 1)"
  by (rule session_reader_keeps [OF abstract_tcp_reader [OF assms(1,2)]])
    (auto simp: abstract_ops_def on_world_def dest: tcp_reader_keeps [where f = f and rd = rd, OF rd])

text \<open>
  The network of a session: \<open>inbox\<close> is what the peer has sent and the session has not read, \<open>outbox\<close> what the session has
  written; the socket takes every answer whole.
\<close>

definition tcp_net :: "'n reader \<Rightarrow> 'n writer \<Rightarrow> ('n \<Rightarrow> byte list) \<Rightarrow> ('n \<Rightarrow> byte list) \<Rightarrow> bool" where
  "tcp_net rd wr inbox outbox \<longleftrightarrow> stream_source rd inbox \<and> (\<forall>n k. outbox (snd (rd n k)) = outbox n) \<and>
     (\<forall>n bs. \<exists>n'. wr n bs = (int (length bs), n') \<and> outbox n' = outbox n @ bs \<and> inbox n' = inbox n)"

definition tcp_ready :: "nat \<Rightarrow> session \<Rightarrow> bool" where
  "tcp_ready cap s \<longleftrightarrow> sess_type s = TCP \<and> status s \<and> length (scal_data (dynamic_serializer s)) = cap"

lemma answer_sent:
  assumes net: "tcp_net rd wr inbox outbox" and s: "tcp_ready cap s" and fit: "runs_fit cap 0 [a]"
  shows "\<exists>r s' n'. abstract_send wr d p [a] s n = Some (r, s', n') \<and> outbox n' = outbox n @ enc_header d p @ enc_arg a \<and>
    inbox n' = inbox n \<and> tcp_ready cap s'"
proof -
  obtain ser where ser: "build_command d p (dynamic_serializer s) (send_buffer s) [a] = Some (ser, enc_header d p @ enc_arg a)"
      "length (scal_data ser) = cap"
    using build_command_eq [of "dynamic_serializer s" cap "[a]" d p "send_buffer s"] s fit by (auto simp: tcp_ready_def)
  moreover have "enc_header d p \<noteq> []" by (simp add: enc_header_def be16_def)
  moreover obtain n' where "wr n (enc_header d p @ enc_arg a) = (int (length (enc_header d p @ enc_arg a)), n')"
      "outbox n' = outbox n @ enc_header d p @ enc_arg a" "inbox n' = inbox n"
    using net unfolding tcp_net_def by blast
  ultimately show ?thesis
    using s by (simp add: abstract_send_def session_send_def session_write_def tcp_write_def tcp_ready_def Let_def)
qed

lemma interface_answers:
  assumes net: "tcp_net rd wr inbox outbox" and mem: "\<And>n. length (mem n) = n" and s: "tcp_ready cap s"
    and cmd: "operation cmd = int op" "op < length sigs"
    and args: "list_all2 (arg_matches (2 ^ 31 - 1)) (sigs ! op) args" "length (concat (map enc_arg args)) < 2 ^ 31"
    and inp: "inbox n = concat (map enc_arg args) @ rest"
    and call: "call op args b = Some (Some a, b')" and fit: "runs_fit cap 0 [a]"
  shows "\<exists>r s' n'. interface_execute class_id sigs call rd wr mem old cmd (s, b, n) = Some (r, s', b', n') \<and> inbox n' = rest \<and>
    outbox n' = outbox n @ enc_header (of_nat class_id) (of_nat op) @ enc_arg a \<and> tcp_ready cap s'"
proof -
  have "session_reader (abstract_ops TCP rd mem old) (\<lambda>(cmd, w). inbox w) (\<lambda>s. True \<and> outbox (snd s) = outbox n) (2 ^ 31 - 1)"
    by (rule tcp_session_reader_keeps) (use net mem in \<open>simp_all add: tcp_net_def\<close>)
  from session_reader.parse_args_enc [OF this args(1), of "(cmd, n)" rest] inp args(2) obtain cmd' n1 where
    p: "parse_args (abstract_ops TCP rd mem old) (sigs ! op) (cmd, n) = Some (Some args, cmd', n1)" "inbox n1 = rest"
      "outbox n1 = outbox n"
    by auto
  obtain r s' n' where "abstract_send wr (of_nat class_id) (of_nat op) [a] s n1 = Some (r, s', n')"
      "outbox n' = outbox n1 @ enc_header (of_nat class_id) (of_nat op) @ enc_arg a" "inbox n' = inbox n1" "tcp_ready cap s'"
    using answer_sent [OF net s fit] by blast
  then show ?thesis
    using p cmd call s by (simp add: interface_execute_def execute_operation_def tcp_ready_def)
qed

section \<open>A remote capture\<close>

text \<open>What the three capturing operations return, from the contents of the memory after the capture.\<close>

definition captured :: "nat \<Rightarrow> sesenta \<Rightarrow> nat \<Rightarrow> (u32 \<Rightarrow> u32) \<Rightarrow> u32 list" where
  "captured op drv n mem = (let r = get_base_addr (fst (ram drv)); r2 = get_base_addr (fst (ram2 drv)) in
     if op = 9 then samples_of mem r 8 2 mic_pair n @ samples_of mem r2 8 2 mic_pair n
     else if op = 10 then samples_of mem r 8 4 (\<lambda>mic. [mic]) n
     else samples_of mem r 16 16 mic_pair n @ samples_of mem r2 16 16 mic_pair n)"

definition capture_hw ::
  "'h platform \<Rightarrow> ('h \<Rightarrow> u32 \<Rightarrow> u32) \<Rightarrow> u32 set \<Rightarrow> sesenta \<Rightarrow> u32 \<Rightarrow> nat \<Rightarrow> bool" where
  "capture_hw P peek R drv samples n \<longleftrightarrow> storage (p_bus P) peek R \<and> handle_ok (ctl drv) \<and> handle_ok (dma (dma_drv drv)) \<and>
     handle_ok (dma1 (dma_drv drv)) \<and> handle_ok (ram drv) \<and> handle_ok (ram2 drv) \<and> sample_bound samples = Some n \<and> 64 * n \<le> 2 ^ 24 \<and>
     storage_words R (ram drv) (n * 16) \<and> storage_words R (ram2 drv) (n * 16)"

lemma length_samples_of:
  assumes "\<And>v. length (push v) = m"
  shows "length (samples_of mem start num tot push n) = (n - 1) * (tot * m)"
  by (simp add: samples_of_def length_concat comp_def assms sum_list_triv)

lemma length_captured: "length (captured op drv n mem) \<le> n * 64"
proof -
  have p: "length (mic_pair v) = 2" for v by (simp add: mic_pair_halves)
  have "n - 1 \<le> c * n" if "0 < c" for c using that by (cases c) simp_all
  then show ?thesis
    using length_samples_of [OF p] length_samples_of [of "\<lambda>v. [v]" 1] by (auto simp: captured_def Let_def)
qed

text \<open>The call: the hardware after the capture, and the samples that are in its memory then.\<close>

lemma sesenta_captures:
  assumes hw: "capture_hw P peek R drv samples n" and op: "op \<in> {9, 10, 11}"
  shows "\<exists>h'. capture P drv samples h = Some h' \<and> sesenta_call P drv op [Scalar (U32 samples)] (h, bf) =
    Some (Some (Container (le_words (captured op drv n (peek h')))), h', bf)"
proof -
  have h: "handle_ok (ctl drv)" "handle_ok (dma (dma_drv drv))" "handle_ok (dma1 (dma_drv drv))" "handle_ok (ram drv)"
      "handle_ok (ram2 drv)" and st: "storage (p_bus P) peek R" and n: "sample_bound samples = Some n"
    and R: "storage_words R (ram drv) (n * 16)" "storage_words R (ram2 drv) (n * 16)"
    using hw by (simp_all add: capture_hw_def)
  obtain h' where h': "capture P drv samples h = Some h'" using capture_total [OF h(1-3), where P = P and samples = samples and h = h] by (elim exE)
  then obtain h1 h2 where "start_dma_transfer (p_bus P) (p_sleep P) (p_ms P) drv samples h = Some h1"
      "dma_off (p_bus P) drv h1 = Some h2" "dma1_off (p_bus P) drv h2 = Some h'"
    by (auto simp: capture_def bind_eq_Some_conv)
  then show ?thesis
    using h' op get_mics_layout_parts(2-4) [OF st h(4,5) n R, of "p_sleep P" "p_ms P" h]
    by (auto simp: sesenta_call_def with_u32_def arg_u32_def ret_vector_def captured_def Let_def)
qed

text \<open>The drivers manager between two commands.\<close>

definition dm_serving :: "driver_manager \<Rightarrow> bool" where
  "dm_serving dm \<longleftrightarrow> dm_ok 3 {} dm \<and> dep_closed sesenta_deps (built dm) \<and> \<not> dm_exit_all dm"

lemma dm_serving_new: "dm_serving (new_driver_manager 3)"
  using dm_ok_new by (simp add: dm_serving_def dep_closed_def new_driver_manager_def)

lemma board_dispatch:
  assumes dm: "dm_serving dm" and k: "k < 3" "driver cmd = k + 2"
    and ex: "board_execute P drv cfg rd wr mem old k cmd (s, b, n) = Some (r, s', b', n')"
  shows "\<exists>dm'. session_execute sesenta_deps 3 (board_execute P drv cfg rd wr mem old) server_ex cmd s ((b, n), dm) =
      Some (r, s', (b', n'), dm') \<and> m_started dm' ! k \<and> dm_serving dm'"
proof -
  have deps: "set (sesenta_deps k) \<subseteq> {..<3}" for k by (auto simp: sesenta_deps_def)
  have dm3: "dm_ok 3 {} dm" "dep_closed sesenta_deps (built dm)" "\<not> dm_exit_all dm" using dm by (simp_all add: dm_serving_def)
  have ex': "board_execute P drv cfg rd wr mem old (driver cmd - 2) cmd (s, b, n) = Some (r, s', b', n')" using ex k(2) by simp
  from dm_execute_parts(3) [where ex = "board_execute P drv cfg rd wr mem old", OF deps sesenta_acyclic dm3 _ _ ex'] k
  obtain dm' where "dm_execute sesenta_deps (3 + 1) 3 (board_execute P drv cfg rd wr mem old) server_ex cmd dm (s, b, n) =
      Some (r, dm', s', b', n')" "m_started dm' ! k" "dm_ok 3 {} dm'" "dep_closed sesenta_deps (built dm')" "\<not> dm_exit_all dm'"
    by (auto simp del: One_nat_def)
  then show ?thesis by (simp add: session_execute_def dm_serving_def)
qed

text \<open>The part of the server: the session reads the request, the driver is started if need be and captures, and the answer is written.\<close>

lemma session_captures:
  assumes hw: "capture_hw P peek R drv samples n" and op: "op \<in> {9, 10, 11}"
    and net: "tcp_net rd wr inbox outbox" and mem: "\<And>n. length (mem n) = n"
    and s: "tcp_ready cap s" and cmd: "command_ok cmd" "buf_pos (header cmd) = HEADER_START" and dm: "dm_serving dm"
    and call: "sesenta_call P drv op [Scalar (U32 samples)] (h, bf) = Some (Some (Container data), h', bf)"
    and inp: "inbox net0 = (enc_header 4 (of_nat op) @ concat (map enc_arg [Scalar (U32 samples)])) @ rest"
  shows "\<exists>cmd' net1 r s' net2 dm'. tcp_read_command rd sid net0 cmd = Some (8, cmd', net1) \<and>
    session_execute sesenta_deps 3 (board_execute P drv cfg rd wr mem old) server_ex cmd' s (((h, bf), net1), dm)
      = Some (r, s', ((h', bf), net2), dm') \<and> m_started dm' ! 2 \<and> dm_serving dm' \<and> tcp_ready cap s' \<and>
    inbox net2 = rest \<and> outbox net2 = outbox net0 @ enc_header 4 (of_nat op) @ enc_container data"
proof -
  let ?p = "of_nat op :: u16" and ?args = "[Scalar (U32 samples)]"
  let ?resp = "enc_header 4 ?p @ enc_container data"
  have up: "unat ?p = op" and up4: "unat (4 :: u16) = 4" using op by auto
  have src: "stream_source rd inbox" and keeps: "\<And>n k. outbox (snd (rd n k)) = outbox n" using net by (simp_all add: tcp_net_def)
  obtain net1 cmd' where 1: "tcp_read_command rd sid net0 cmd = Some (8, cmd', net1)" "inbox net1 = concat (map enc_arg ?args) @ rest"
      "driver cmd' = 4" "operation cmd' = int op"
    using tcp_read_command_stream [OF src, of net0 4 ?p "concat (map enc_arg ?args) @ rest" cmd sid] inp cmd up up4
    by (auto simp: command_ok_def)
  have out1: "outbox net1 = outbox net0" by (rule tcp_read_command_keeps [OF keeps 1(1)])
  have sig: "op < length sesenta_sigs" "sesenta_sigs ! op = [TScalar TU32]" using op by (auto simp: sesenta_sigs_def Let_def)
  from interface_answers [where call = "sesenta_call P drv" and b = "(h, bf)" and class_id = 4 and old = old,
      OF net mem s 1(4) sig(1) _ _ 1(2) call] sig(2)
  obtain r s' net2 where 2: "interface_execute 4 sesenta_sigs (sesenta_call P drv) rd wr mem old cmd' (s, (h, bf), net1)
      = Some (r, s', (h', bf), net2)" "inbox net2 = rest" "outbox net2 = outbox net1 @ ?resp" "tcp_ready cap s'"
    by auto
  have "board_execute P drv cfg rd wr mem old 2 cmd' (s, (h, bf), net1) = Some (r, s', (h', bf), net2)"
    using 2(1) by (simp add: board_execute_def)
  from board_dispatch [OF dm _ _ this, of server_ex] 1(3) obtain dm' where
    "session_execute sesenta_deps 3 (board_execute P drv cfg rd wr mem old) server_ex cmd' s (((h, bf), net1), dm) =
      Some (r, s', ((h', bf), net2), dm')" "m_started dm' ! 2" "dm_serving dm'" by auto
  then show ?thesis using 1(1) 2(2-4) out1 by auto
qed

section \<open>Property\<close>


text \<open>A network that delivers packets and collects what is written, and a board whose maps are one page of plain memory.\<close>

definition collect :: "(byte list list \<times> byte list) writer" where
  "collect = (\<lambda>n bs. (int (length bs), fst n, snd n @ bs))"

definition page_board :: "(u32 \<Rightarrow> u32) platform" where
  "page_board = \<lparr>p_bus = ram_bus, p_sleep = (\<lambda>n h. h), p_usleep = (\<lambda>n h. h), p_ms = (\<lambda>n. 1000), p_duration = (\<lambda>t. 0)\<rparr>"


end
