(* ===== verification/Bus_Devices.thy ===== *)
theory Bus_Devices
  imports Tcp_Session
begin

text \<open>
  \<^verbatim>\<open>src/server/context/i2c_dev.hpp\<close>, \<^verbatim>\<open>i2c_dev.cpp\<close>, \<^verbatim>\<open>spi_dev.hpp\<close> and \<^verbatim>\<open>spi_dev.cpp\<close>: the devices a driver reaches over the I2C
  and SPI buses, and the managers that hand them out.

  The calls of the kernel are a record of parameters, with one function for the \<open>ioctl\<close>s that set something and one for the
  transfer. A transaction of an I2C device holds the mutex, so transactions of different threads follow one another.
  \<open>init\<close> passes \<open>open\<close> the characters of a temporary string that has been destroyed; \<open>temp s\<close> is what the memory of a
  destroyed string \<open>s\<close> reads as.
\<close>

datatype setting = I2C_SLAVE_FORCE int | SPI_IOC_WR_MODE byte | SPI_IOC_WR_MODE32 u32 | SPI_IOC_WR_MAX_SPEED_HZ u32
  | SPI_IOC_WR_BITS_PER_WORD byte

record 'w dev_sys =
  dev_open :: "string \<Rightarrow> 'w \<Rightarrow> int \<times> 'w"
  dev_set :: "int \<Rightarrow> setting \<Rightarrow> 'w \<Rightarrow> int \<times> 'w"
  dev_read :: "int \<Rightarrow> 'w reader"
  dev_write :: "int \<Rightarrow> 'w writer"
  dev_transfer :: "int \<Rightarrow> byte list \<Rightarrow> 'w \<Rightarrow> int \<times> byte list \<times> 'w"

section \<open>I2C\<close>

record i2c_dev =
  i2c_name :: string
  i2c_fd :: int
  last_addr :: int

definition new_i2c_dev :: "string \<Rightarrow> i2c_dev" where
  "new_i2c_dev devname = \<lparr>i2c_name = devname, i2c_fd = - 1, last_addr = - 1\<rparr>"

definition i2c_is_ok :: "i2c_dev \<Rightarrow> bool" where
  "i2c_is_ok dev \<longleftrightarrow> i2c_fd dev \<ge> 0"

definition i2c_init :: "'w dev_sys \<Rightarrow> (string \<Rightarrow> string) \<Rightarrow> i2c_dev \<Rightarrow> 'w \<Rightarrow> int \<times> i2c_dev \<times> 'w" where
  "i2c_init S temp dev w =
     (if i2c_fd dev \<ge> 0 then (0, dev, w)
      else let (fd, w) = dev_open S (temp (''/dev/'' @ i2c_name dev)) w; dev = dev\<lparr>i2c_fd := fd\<rparr>
        in if fd < 0 then (- 1, dev, w) else (0, dev, w))"

text \<open>The kernel is told the address only when it is not the one of the last transaction.\<close>

definition i2c_set_address :: "'w dev_sys \<Rightarrow> int \<Rightarrow> i2c_dev \<Rightarrow> 'w \<Rightarrow> int \<times> i2c_dev \<times> 'w" where
  "i2c_set_address S addr dev w =
     (if addr < 0 \<or> addr > 127 then (- 1, dev, w)
      else if addr \<noteq> last_addr dev then
        let (r, w) = dev_set S (i2c_fd dev) (I2C_SLAVE_FORCE addr) w
        in if r < 0 then (- 1, dev, w) else (0, dev\<lparr>last_addr := addr\<rparr>, w)
      else (0, dev, w))"

definition i2c_write :: "'w dev_sys \<Rightarrow> int \<Rightarrow> byte list \<Rightarrow> i2c_dev \<Rightarrow> 'w \<Rightarrow> int \<times> i2c_dev \<times> 'w" where
  "i2c_write S addr buffer dev w =
     (if \<not> i2c_is_ok dev then (- 1, dev, w)
      else let (r, dev, w) = i2c_set_address S addr dev w
        in if r < 0 then (- 1, dev, w)
           else let (n, w) = dev_write S (i2c_fd dev) w buffer in (n, dev, w))"

text \<open>\<open>buffer\<close> is the memory to be filled; \<open>n_bytes\<close> is its length.\<close>

definition i2c_read :: "'w dev_sys \<Rightarrow> int \<Rightarrow> buf \<Rightarrow> i2c_dev \<Rightarrow> 'w \<Rightarrow> (int \<times> buf \<times> i2c_dev \<times> 'w) option" where
  "i2c_read S addr buffer dev w =
     (if \<not> i2c_is_ok dev then Some (- 1, buffer, dev, w)
      else let (r, dev, w) = i2c_set_address S addr dev w
        in if r < 0 then Some (- 1, buffer, dev, w)
           else do {
             (r, buffer, w) \<leftarrow> read_loop (dev_read S (i2c_fd dev)) w buffer (length buffer) 0;
             Some (as_int r, buffer, dev, w) })"

text \<open>The names of the directory; \<open>None\<close> when it cannot be opened. A name that is there is not inserted again.\<close>

type_synonym i2c_manager = "(string \<times> i2c_dev) list"

definition not_hidden :: "string \<Rightarrow> bool" where
  "not_hidden devname \<longleftrightarrow> take 1 devname \<noteq> ''.''"

definition add_device :: "(string \<Rightarrow> 'd) \<Rightarrow> string \<Rightarrow> (string \<times> 'd) list \<Rightarrow> (string \<times> 'd) list" where
  "add_device new devname m = (if not_hidden devname \<and> map_of m devname = None then m @ [(devname, new devname)] else m)"

definition i2c_manager_init :: "string list option \<Rightarrow> i2c_manager \<Rightarrow> int \<times> i2c_manager" where
  "i2c_manager_init dir m = (case dir of None \<Rightarrow> (0, m) | Some names \<Rightarrow> (0, fold (add_device new_i2c_dev) names m))"

definition i2c_has_device :: "string \<Rightarrow> i2c_manager \<Rightarrow> bool" where
  "i2c_has_device devname m \<longleftrightarrow> map_of m devname \<noteq> None"

text \<open>\<open>get\<close> returns the device and the manager that holds it; the result of \<open>init\<close> is ignored.\<close>

definition i2c_get :: "'w dev_sys \<Rightarrow> (string \<Rightarrow> string) \<Rightarrow> string \<Rightarrow> i2c_manager \<Rightarrow> 'w \<Rightarrow> i2c_dev \<times> i2c_manager \<times> 'w" where
  "i2c_get S temp devname m w = (case map_of m devname of
       None \<Rightarrow> (new_i2c_dev '''', m, w)
     | Some dev \<Rightarrow> let (_, dev, w) = i2c_init S temp dev w
         in (dev, map (\<lambda>(k, d). if k = devname then (k, dev) else (k, d)) m, w))"

section \<open>SPI\<close>

record spi_dev =
  spi_name :: string
  spi_mode :: byte
  spi_mode32 :: u32
  spi_speed :: u32
  spi_word_length :: byte
  spi_fd :: int

definition new_spi_dev :: "string \<Rightarrow> spi_dev" where
  "new_spi_dev devname = \<lparr>spi_name = devname, spi_mode = 0, spi_mode32 = 0, spi_speed = 1000000, spi_word_length = 8,
     spi_fd = - 1\<rparr>"

definition spi_is_ok :: "spi_dev \<Rightarrow> bool" where
  "spi_is_ok dev \<longleftrightarrow> spi_fd dev \<ge> 0"

text \<open>The tail of the four setters: the value is kept also when the kernel refuses it.\<close>

definition spi_apply :: "'w dev_sys \<Rightarrow> setting \<Rightarrow> spi_dev \<Rightarrow> 'w \<Rightarrow> int \<times> spi_dev \<times> 'w" where
  "spi_apply S x dev w = (let (r, w) = dev_set S (spi_fd dev) x w in (if r < 0 then - 1 else 0, dev, w))"

definition spi_set_mode :: "'w dev_sys \<Rightarrow> byte \<Rightarrow> spi_dev \<Rightarrow> 'w \<Rightarrow> int \<times> spi_dev \<times> 'w" where
  "spi_set_mode S v dev w = (if \<not> spi_is_ok dev then (- 1, dev, w)
     else spi_apply S (SPI_IOC_WR_MODE v) (dev\<lparr>spi_mode := v\<rparr>) w)"

definition spi_set_full_mode :: "'w dev_sys \<Rightarrow> u32 \<Rightarrow> spi_dev \<Rightarrow> 'w \<Rightarrow> int \<times> spi_dev \<times> 'w" where
  "spi_set_full_mode S v dev w = (if \<not> spi_is_ok dev then (- 1, dev, w)
     else spi_apply S (SPI_IOC_WR_MODE32 v) (dev\<lparr>spi_mode32 := v\<rparr>) w)"

definition spi_set_speed :: "'w dev_sys \<Rightarrow> u32 \<Rightarrow> spi_dev \<Rightarrow> 'w \<Rightarrow> int \<times> spi_dev \<times> 'w" where
  "spi_set_speed S v dev w = (if \<not> spi_is_ok dev then (- 1, dev, w)
     else spi_apply S (SPI_IOC_WR_MAX_SPEED_HZ v) (dev\<lparr>spi_speed := v\<rparr>) w)"

definition spi_set_word_length :: "'w dev_sys \<Rightarrow> byte \<Rightarrow> spi_dev \<Rightarrow> 'w \<Rightarrow> int \<times> spi_dev \<times> 'w" where
  "spi_set_word_length S v dev w = (if \<not> spi_is_ok dev then (- 1, dev, w)
     else spi_apply S (SPI_IOC_WR_BITS_PER_WORD v) (dev\<lparr>spi_word_length := v\<rparr>) w)"

definition spi_init ::
  "'w dev_sys \<Rightarrow> (string \<Rightarrow> string) \<Rightarrow> byte \<Rightarrow> u32 \<Rightarrow> byte \<Rightarrow> spi_dev \<Rightarrow> 'w \<Rightarrow> int \<times> spi_dev \<times> 'w" where
  "spi_init S temp mode speed word_length dev w =
     (if spi_fd dev \<ge> 0 then (0, dev, w)
      else let (fd, w) = dev_open S (temp (''/dev/'' @ spi_name dev)) w; dev = dev\<lparr>spi_fd := fd\<rparr>
        in if fd < 0 then (- 1, dev, w)
           else let (r, dev, w) = spi_set_mode S mode dev w
             in if r < 0 then (- 1, dev, w)
                else let (r, dev, w) = spi_set_speed S speed dev w
                  in if r < 0 then (- 1, dev, w)
                     else let (r, dev, w) = spi_set_word_length S word_length dev w
                       in if r < 0 then (- 1, dev, w) else (0, dev, w))"

definition spi_write :: "'w dev_sys \<Rightarrow> byte list \<Rightarrow> spi_dev \<Rightarrow> 'w \<Rightarrow> int \<times> 'w" where
  "spi_write S buffer dev w = (if spi_fd dev \<ge> 0 then dev_write S (spi_fd dev) w buffer else (- 1, w))"

definition spi_recv :: "'w dev_sys \<Rightarrow> buf \<Rightarrow> spi_dev \<Rightarrow> 'w \<Rightarrow> (int \<times> buf \<times> 'w) option" where
  "spi_recv S buffer dev w =
     (if \<not> spi_is_ok dev then Some (- 1, buffer, w)
      else do {
        (r, buffer, w) \<leftarrow> read_loop (dev_read S (spi_fd dev)) w buffer (length buffer) 0;
        Some (as_int r, buffer, w) })"

definition spi_transfer :: "'w dev_sys \<Rightarrow> byte list \<Rightarrow> buf \<Rightarrow> spi_dev \<Rightarrow> 'w \<Rightarrow> int \<times> buf \<times> 'w" where
  "spi_transfer S tx_buff rx_buff dev w =
     (if \<not> spi_is_ok dev then (- 1, rx_buff, w) else dev_transfer S (spi_fd dev) tx_buff w)"

type_synonym spi_manager = "(string \<times> spi_dev) list"

definition spi_manager_init :: "string list option \<Rightarrow> spi_manager \<Rightarrow> int \<times> spi_manager" where
  "spi_manager_init dir m = (case dir of None \<Rightarrow> (0, m) | Some names \<Rightarrow> (0, fold (add_device new_spi_dev) names m))"

definition spi_has_device :: "string \<Rightarrow> spi_manager \<Rightarrow> bool" where
  "spi_has_device devname m \<longleftrightarrow> map_of m devname \<noteq> None"

definition spi_get :: "'w dev_sys \<Rightarrow> (string \<Rightarrow> string) \<Rightarrow> string \<Rightarrow> byte \<Rightarrow> u32 \<Rightarrow> byte \<Rightarrow> spi_manager \<Rightarrow> 'w \<Rightarrow>
    spi_dev \<times> spi_manager \<times> 'w" where
  "spi_get S temp devname mode speed word_length m w = (case map_of m devname of
       None \<Rightarrow> (new_spi_dev '''', m, w)
     | Some dev \<Rightarrow> let (_, dev, w) = spi_init S temp mode speed word_length dev w
         in (dev, map (\<lambda>(k, d). if k = devname then (k, dev) else (k, d)) m, w))"

section \<open>The managers\<close>

lemma add_device_keys:
  "map_of (fold (add_device new) names m) k =
     (if map_of m k = None \<and> not_hidden k \<and> k \<in> set names then Some (new k) else map_of m k)"
proof (induction names arbitrary: m)
  case (Cons a names)
  then show ?case by (auto simp: add_device_def map_add_def split: option.splits)
qed simp

lemma init_devices:
  "i2c_manager_init (Some names) [] = (0, m) \<Longrightarrow> i2c_has_device k m \<longleftrightarrow> k \<in> set names \<and> not_hidden k"
  "spi_manager_init (Some names) [] = (0, m') \<Longrightarrow> spi_has_device k m' \<longleftrightarrow> k \<in> set names \<and> not_hidden k"
  by (auto simp: i2c_manager_init_def i2c_has_device_def spi_manager_init_def spi_has_device_def add_device_keys split: if_splits)

section \<open>The address of a transaction\<close>

text \<open>
  What the kernel promises: \<open>slave w\<close> is the address to which reads and writes on the descriptor go. A successful
  \<open>I2C_SLAVE_FORCE\<close> sets it, nothing else changes it.
\<close>

definition i2c_kernel :: "'w dev_sys \<Rightarrow> int \<Rightarrow> ('w \<Rightarrow> int) \<Rightarrow> bool" where
  "i2c_kernel S fd slave \<longleftrightarrow>
     (\<forall>a w r w'. dev_set S fd (I2C_SLAVE_FORCE a) w = (r, w') \<longrightarrow> slave w' = (if r < 0 then slave w else a)) \<and>
     (\<forall>w bs. slave (snd (dev_write S fd w bs)) = slave w) \<and> (\<forall>w n. slave (snd (dev_read S fd w n)) = slave w)"

definition addr_ok :: "('w \<Rightarrow> int) \<Rightarrow> i2c_dev \<Rightarrow> 'w \<Rightarrow> bool" where
  "addr_ok slave dev w \<longleftrightarrow> last_addr dev = - 1 \<or> slave w = last_addr dev"

lemma i2c_set_address_ok:
  assumes "i2c_kernel S (i2c_fd dev) slave" and "addr_ok slave dev w" and "i2c_set_address S addr dev w = (r, dev', w')"
  shows "addr_ok slave dev' w'" and "i2c_fd dev' = i2c_fd dev"
    and "r \<ge> 0 \<Longrightarrow> slave w' = addr \<and> 0 \<le> addr \<and> addr \<le> 127" and "r < 0 \<longleftrightarrow> r = - 1"
proof -
  obtain q w1 where s: "dev_set S (i2c_fd dev) (I2C_SLAVE_FORCE addr) w = (q, w1)" by force
  then have k: "slave w1 = (if q < 0 then slave w else addr)" using assms(1) by (auto simp: i2c_kernel_def)
  show "addr_ok slave dev' w'" "i2c_fd dev' = i2c_fd dev" "r \<ge> 0 \<Longrightarrow> slave w' = addr \<and> 0 \<le> addr \<and> addr \<le> 127"
    "r < 0 \<longleftrightarrow> r = - 1"
    using assms(2,3) s k by (auto simp: i2c_set_address_def addr_ok_def split: if_splits)
qed

section \<open>Properties\<close>

text \<open>
  C32: every I2C transaction goes to the address it names, although the kernel is told the address only when it changes: the
  address remembered is the one in force, every transaction keeps this, a write or a read that is carried out finds the
  address in force, and an address that has not seven bits is refused before the bus is touched.
\<close>
theorem i2c_transaction_address:
  assumes "i2c_kernel S (i2c_fd dev) slave" and "addr_ok slave dev w" and "i2c_is_ok dev"
  shows "(i2c_write S addr bytes dev w = (r, dev', w') \<longrightarrow> addr_ok slave dev' w' \<and> i2c_fd dev' = i2c_fd dev \<and>
      (r \<noteq> - 1 \<longrightarrow> 0 \<le> addr \<and> addr \<le> 127 \<and>
        (\<exists>w1. slave w1 = addr \<and> dev_write S (i2c_fd dev) w1 bytes = (r, w')))) \<and>
    (i2c_read S addr buffer dev w = Some (q, buffer', dev', w') \<longrightarrow> addr_ok slave dev' w' \<and> i2c_fd dev' = i2c_fd dev \<and>
      (q \<noteq> - 1 \<longrightarrow> 0 \<le> addr \<and> addr \<le> 127 \<and> (\<exists>w1 n. slave w1 = addr \<and>
        read_loop (dev_read S (i2c_fd dev)) w1 buffer (length buffer) 0 = Some (n, buffer', w')))) \<and>
    (addr < 0 \<or> 127 < addr \<longrightarrow> i2c_write S addr bytes dev w = (- 1, dev, w) \<and>
      i2c_read S addr buffer dev w = Some (- 1, buffer, dev, w))"
proof -
  obtain p dev1 w1 where sa: "i2c_set_address S addr dev w = (p, dev1, w1)" by (metis prod_cases3)
  note a = i2c_set_address_ok [OF assms(1,2) sa]
  have keep: "addr_ok slave dev1 w2" if "slave w2 = slave w1" for w2 using a(1) that by (simp add: addr_ok_def)
  have wr: "slave (snd (dev_write S (i2c_fd dev) w bs)) = slave w" for w bs using assms(1) by (simp add: i2c_kernel_def)
  have rd: "slave w2 = slave w1" if "read_loop (dev_read S (i2c_fd dev)) w1 buffer (length buffer) 0 = Some (n, b, w2)" for n b w2
    using read_loop_keeps [of slave, OF _ that] assms(1) by (simp add: i2c_kernel_def)
  have "addr_ok slave dev' w' \<and> i2c_fd dev' = i2c_fd dev \<and> (r \<noteq> - 1 \<longrightarrow> 0 \<le> addr \<and> addr \<le> 127 \<and>
      (\<exists>w1. slave w1 = addr \<and> dev_write S (i2c_fd dev) w1 bytes = (r, w')))"
    if "i2c_write S addr bytes dev w = (r, dev', w')"
    using that assms(3) sa a keep wr [of w1 bytes] by (auto simp: i2c_write_def split: if_splits prod.splits)
  moreover have "addr_ok slave dev' w' \<and> i2c_fd dev' = i2c_fd dev \<and> (q \<noteq> - 1 \<longrightarrow> 0 \<le> addr \<and> addr \<le> 127 \<and>
      (\<exists>w1 n. slave w1 = addr \<and> read_loop (dev_read S (i2c_fd dev)) w1 buffer (length buffer) 0 = Some (n, buffer', w')))"
    if "i2c_read S addr buffer dev w = Some (q, buffer', dev', w')"
    using that assms(3) sa a keep rd by (auto simp: i2c_read_def bind_eq_Some_conv split: if_splits)
  moreover have "i2c_write S addr bytes dev w = (- 1, dev, w) \<and> i2c_read S addr buffer dev w = Some (- 1, buffer, dev, w)"
    if "addr < 0 \<or> 127 < addr"
    using that assms(3) by (auto simp: i2c_write_def i2c_read_def i2c_set_address_def)
  ultimately show ?thesis by blast
qed

text \<open>A bus that keeps the address in force and what was written to which address.\<close>

definition i2c_log :: "(int \<times> (int \<times> byte list) list) dev_sys" where
  "i2c_log = \<lparr>dev_open = (\<lambda>p w. (3, w)),
     dev_set = (\<lambda>fd x w. case x of I2C_SLAVE_FORCE a \<Rightarrow> (0, a, snd w) | _ \<Rightarrow> (0, w)),
     dev_read = (\<lambda>fd w n. (RdBytes (replicate n 7), w)),
     dev_write = (\<lambda>fd w bs. (int (length bs), fst w, snd w @ [(fst w, bs)])),
     dev_transfer = (\<lambda>fd bs w. (int (length bs), bs, w))\<rparr>"

theorem i2c_transaction_address_witness:
  "\<exists>dev' w'. i2c_write i2c_log 80 [1, 2] \<lparr>i2c_name = ''i2c-0'', i2c_fd = 3, last_addr = 81\<rparr> (81, []) = (2, dev', w') \<and>
     addr_ok fst dev' w' \<and> snd w' = [(80, [1, 2])]"
proof -
  let ?dev = "\<lparr>i2c_name = ''i2c-0'', i2c_fd = 3, last_addr = 81\<rparr>"
  have run: "i2c_write i2c_log 80 [1, 2] ?dev (81, []) = (2, ?dev\<lparr>last_addr := 80\<rparr>, 80, [(80, [1, 2])])"
    by (simp add: i2c_write_def i2c_is_ok_def i2c_set_address_def i2c_log_def)
  have "i2c_kernel i2c_log 3 fst" by (auto simp: i2c_kernel_def i2c_log_def)
  from i2c_transaction_address [of i2c_log ?dev fst "(81, [])" 80 "[1, 2]" 2 "?dev\<lparr>last_addr := 80\<rparr>" "(80, [(80, [1, 2])])"
      "[]" 0 "[]"] this run
  show ?thesis by (simp add: addr_ok_def i2c_is_ok_def)
qed

text \<open>
  The configuration of an SPI device is tried once: when the kernel refuses a part of it, \<open>init\<close> fails but leaves the device
  open, and the next \<open>init\<close> succeeds without configuring anything.
\<close>

lemma spi_init_not_repeated:
  assumes "dev_open S (temp (''/dev/'' @ spi_name dev)) w = (fd, w1)" and "fd \<ge> 0" and "spi_fd dev < 0"
    and "dev_set S fd (SPI_IOC_WR_MODE mode) w1 = (- 1, w2)"
  shows "\<exists>dev'. spi_init S temp mode speed word_length dev w = (- 1, dev', w2) \<and>
    spi_init S temp mode' speed' word_length' dev' w2 = (0, dev', w2)"
  using assms by (simp add: spi_init_def spi_set_mode_def spi_is_ok_def spi_apply_def)

lemma spi_init_configures:
  assumes "spi_fd dev < 0" and "spi_init S temp mode speed word_length dev w = (0, dev', w')"
  shows "spi_mode dev' = mode \<and> spi_speed dev' = speed \<and> spi_word_length dev' = word_length \<and> spi_is_ok dev'"
  using assms by (auto simp: spi_init_def spi_set_mode_def spi_set_speed_def spi_set_word_length_def spi_is_ok_def spi_apply_def
      Let_def split: if_splits prod.splits)

text \<open>Receiving stays inside the buffer and returns -1, 0 or its size.\<close>

lemma spi_recv_safe:
  assumes "reader_ok (dev_read S (spi_fd dev))" and "length buffer < 2 ^ 31"
  shows "\<exists>r buffer' w'. spi_recv S buffer dev w = Some (r, buffer', w') \<and> length buffer' = length buffer \<and>
    r \<in> {- 1, 0, int (length buffer)}"
proof (cases "spi_is_ok dev")
  case True
  obtain r b w' where "read_loop (dev_read S (spi_fd dev)) w buffer (length buffer) 0 = Some (r, b, w')"
      "length b = length buffer" "r \<in> {- 1, 0, int (length buffer)}"
    using read_loop_safe [of "length buffer" buffer 0 "dev_read S (spi_fd dev)" w] assms(1) by auto
  moreover have "as_int (- 1) = - 1" by (simp add: as_int_def)
  ultimately show ?thesis using True assms(2) by (auto simp: spi_recv_def)
qed (simp add: spi_recv_def)

end
