(* ===== verification/Context.thy ===== *)
theory Context
  imports Memory_Manager Bus_Devices
begin

text \<open>
  \<^verbatim>\<open>src/server/context/zynq_fclk.hpp\<close>, \<^verbatim>\<open>fpga_manager.hpp\<close> and \<^verbatim>\<open>context.hpp\<close>: the clocks of the FPGA, the loader of the bitstream, and
  the object that owns them together with the memory and the buses.

  Files are reached through a record of parameters. \<open>fs_opendir\<close> and \<open>fs_open\<close> return a handle, negative for a null pointer;
  \<open>fs_write\<close> is the call \<open>write\<close> on the descriptor of the file.
\<close>

record 'w files =
  fs_opendir :: "string \<Rightarrow> 'w \<Rightarrow> int \<times> 'w"
  fs_closedir :: "int \<Rightarrow> 'w \<Rightarrow> 'w"
  fs_open :: "string \<Rightarrow> string \<Rightarrow> 'w \<Rightarrow> int \<times> 'w"
  fs_close :: "int \<Rightarrow> 'w \<Rightarrow> 'w"
  fs_write :: "int \<Rightarrow> 'w writer"
  fs_read :: "int \<Rightarrow> 'w reader"
  fs_size :: "int \<Rightarrow> 'w \<Rightarrow> nat \<times> 'w"

abbreviation bytes_of_chars :: "string \<Rightarrow> byte list" where
  "bytes_of_chars s \<equiv> map of_char s"

section \<open>Clocks\<close>

definition devcfg :: string where
  "devcfg = ''/sys/devices/soc0/amba/f8007000.devcfg''"

text \<open>\<open>std::to_string\<close> of an unsigned number.\<close>

fun decimal :: "nat \<Rightarrow> string" where
  "decimal n = (if n < 10 then [char_of (48 + n)] else decimal (n div 10) @ [char_of (48 + n mod 10)])"

declare decimal.simps [simp del]

text \<open>Opening a file, writing a string with its terminating zero, and closing it.\<close>

definition write_file :: "'w files \<Rightarrow> string \<Rightarrow> string \<Rightarrow> 'w \<Rightarrow> int \<times> 'w" where
  "write_file F name text w = (
     let (f, w) = fs_open F name ''w'' w
     in if f < 0 then (- 1, w)
        else let (n, w) = fs_write F f w (bytes_of_chars text @ [0])
          in if n < 0 then (- 1, fs_close F f w) else (0, fs_close F f w))"

text \<open>When the clock is not exported, \<open>closedir\<close> is called with the null pointer.\<close>

definition fclk_export :: "'w files \<Rightarrow> string \<Rightarrow> string \<Rightarrow> 'w \<Rightarrow> int \<times> 'w" where
  "fclk_export F fclk_name fclk_dir_name w = (
     let (fclk_dir, w) = fs_opendir F fclk_dir_name w;
         (r, w) = (if fclk_dir < 0 then write_file F (devcfg @ ''/fclk_export'') fclk_name w else (0, w))
     in if r < 0 then (- 1, w) else (0, fs_closedir F fclk_dir w))"

definition fclk_enable :: "'w files \<Rightarrow> string \<Rightarrow> 'w \<Rightarrow> int \<times> 'w" where
  "fclk_enable F fclk_dir_name w = write_file F (fclk_dir_name @ ''/enable'') ''1'' w"

definition fclk_set_rate :: "'w files \<Rightarrow> string \<Rightarrow> u32 \<Rightarrow> 'w \<Rightarrow> int \<times> 'w" where
  "fclk_set_rate F fclk_dir_name fclk_rate w = write_file F (fclk_dir_name @ ''/set_rate'') (decimal (unat fclk_rate)) w"

definition fclk_set :: "'w files \<Rightarrow> string \<Rightarrow> u32 \<Rightarrow> 'w \<Rightarrow> 'w" where
  "fclk_set F fclk_name fclk_rate w = (
     let fclk_dir_name = devcfg @ ''/fclk/'' @ fclk_name; (r, w) = fclk_export F fclk_name fclk_dir_name w
     in if r < 0 then w
        else let (r, w) = fclk_enable F fclk_dir_name w
          in if r < 0 then w else snd (fclk_set_rate F fclk_dir_name fclk_rate w))"

section \<open>Bitstream\<close>

definition live_instrument_dirname :: string where
  "live_instrument_dirname = ''/opt/live-instrument/''"

text \<open>
  \<open>exec\<close> is \<^term>\<open>None\<close> when the program of the process was replaced, and returns when this failed. The result is that of the
  process that calls, for each of the two values of \<open>fork\<close>.
\<close>

definition load_bitstream ::
  "('w \<Rightarrow> int \<times> 'w) \<Rightarrow> (string list \<Rightarrow> 'w \<Rightarrow> 'w option) \<Rightarrow> string \<Rightarrow> 'w \<Rightarrow> (int \<times> 'w) option" where
  "load_bitstream fork exec name w = (
     let argv = [''fpgautil'', ''-b'', live_instrument_dirname @ name @ ''.bit.bin'']; (pid, w) = fork w
     in if pid < 0 then Some (- 1, w)
        else if pid = 0 then do { w \<leftarrow> exec argv w; Some (1, w) }
        else Some (1, w))"

text \<open>\<open>fread\<close> of one item of the size of the file, and \<open>fwrite\<close> of one item: 1 when all of its bytes were moved.\<close>

definition fread_item :: "'w files \<Rightarrow> int \<Rightarrow> nat \<Rightarrow> 'w \<Rightarrow> (nat \<times> buf \<times> 'w) option" where
  "fread_item F f size_bytes w =
     (if size_bytes = 0 then Some (0, [], w)
      else do {
        (r, b, w) \<leftarrow> read_loop (fs_read F f) w (replicate size_bytes 0) size_bytes 0;
        Some (if r > 0 then 1 else 0, b, w) })"

definition fwrite_item :: "'w files \<Rightarrow> int \<Rightarrow> byte list \<Rightarrow> 'w \<Rightarrow> nat \<times> 'w" where
  "fwrite_item F f bytes w =
     (if bytes = [] then (0, w)
      else let (n, w) = fs_write F f w bytes in (if n = int (length bytes) then 1 else 0, w))"

text \<open>\<open>dirname\<close> is the member \<open>live_instrument_dirname\<close>.\<close>

definition read_bitstream_data :: "'w files \<Rightarrow> string \<Rightarrow> string \<Rightarrow> 'w \<Rightarrow> (int \<times> buf \<times> 'w) option" where
  "read_bitstream_data F dirname name w = (
     let (f, w) = fs_open F (dirname @ name @ ''.bit'') ''rb'' w
     in if f < 0 then Some (- 1, [], w)
        else let (n, w) = fs_size F f w
          in do {
            (items, b, w) \<leftarrow> fread_item F f n w;
            Some (if items \<noteq> 1 then - 1 else 0, b, fs_close F f w) })"

definition check_bitstream_loaded :: "'w files \<Rightarrow> 'w \<Rightarrow> int \<times> 'w" where
  "check_bitstream_loaded F w = (
     let (f, w) = fs_open F ''/sys/bus/platform/drivers/xdevcfg/f8007000.devcfg/prog_done'' ''r'' w
     in if f < 0 then (- 1, w)
        else (case fs_read F f w 1 of
            (RdBytes [c], w) \<Rightarrow> (if c = of_char (CHR ''1'') then 0 else - 1, fs_close F f w)
          | (_, w) \<Rightarrow> (- 1, fs_close F f w)))"

definition load_bitstream_deprecated :: "'w files \<Rightarrow> string \<Rightarrow> 'w \<Rightarrow> (int \<times> 'w) option" where
  "load_bitstream_deprecated F name w = (
     let (xdevcfg, w) = fs_open F ''/dev/xdevcfg'' ''w'' w
     in if xdevcfg < 0 then Some (- 1, w)
        else do {
          (r, data, w) \<leftarrow> read_bitstream_data F live_instrument_dirname name w;
          if r < 0 then Some (- 1, fs_close F xdevcfg w)
          else let (items, w) = fwrite_item F xdevcfg data w
            in if items \<noteq> 1 then Some (- 1, fs_close F xdevcfg w)
               else Some (check_bitstream_loaded F (fs_close F xdevcfg w)) })"

text \<open>
  The loader of the program in \<^verbatim>\<open>src/client\<close>, which has the older version of it: the bitstream is written to the device, and
  whether the FPGA accepted it is not asked.
\<close>

definition client_dirname :: string where
  "client_dirname = ''/root/live-instrument/''"

definition client_load_bitstream :: "'w files \<Rightarrow> string \<Rightarrow> 'w \<Rightarrow> (int \<times> 'w) option" where
  "client_load_bitstream F name w = (
     let (xdevcfg, w) = fs_open F ''/dev/xdevcfg'' ''w'' w
     in if xdevcfg < 0 then Some (- 1, w)
        else do {
          (r, data, w) \<leftarrow> read_bitstream_data F client_dirname name w;
          if r < 0 then Some (- 1, fs_close F xdevcfg w)
          else let (items, w) = fwrite_item F xdevcfg data w
            in if items \<noteq> 1 then Some (- 1, fs_close F xdevcfg w)
               else Some (1, fs_close F xdevcfg w) })"

section \<open>The context\<close>

record koheron_context =
  ctx_mm :: memory_manager
  ctx_spi :: spi_manager
  ctx_i2c :: i2c_manager

text \<open>The bitstream is not loaded: \<open>load_bitstream\<close> is a constant, false.\<close>

definition new_context :: "nat \<Rightarrow> koheron_context" where
  "new_context n = \<lparr>ctx_mm = new_memory_manager n, ctx_spi = [], ctx_i2c = []\<rparr>"

text \<open>\<open>spi_dir\<close> and \<open>i2c_dir\<close> are the names in the two directories of \<^verbatim>\<open>/sys/class\<close>.\<close>

definition context_init :: "('w \<Rightarrow> int \<times> 'w) \<Rightarrow> 'w mmap_call \<Rightarrow> mem_region list \<Rightarrow> string list option \<Rightarrow> string list option \<Rightarrow>
    koheron_context \<Rightarrow> 'w \<Rightarrow> int \<times> koheron_context \<times> 'w" where
  "context_init open_dev mmap regions spi_dir i2c_dir ctx w = (
     let (r, mm, w) = mm_open open_dev mmap regions (ctx_mm ctx) w; ctx = ctx\<lparr>ctx_mm := mm\<rparr>
     in if r < 0 then (- 1, ctx, w)
        else let (r, spi) = spi_manager_init spi_dir (ctx_spi ctx); ctx = ctx\<lparr>ctx_spi := spi\<rparr>
          in if r < 0 then (- 1, ctx, w)
             else let (r, i2c) = i2c_manager_init i2c_dir (ctx_i2c ctx); ctx = ctx\<lparr>ctx_i2c := i2c\<rparr>
               in if r < 0 then (- 1, ctx, w) else (0, ctx, w))"

section \<open>Lemmas\<close>

definition value_of_decimal :: "string \<Rightarrow> nat" where
  "value_of_decimal ds = foldl (\<lambda>v c. v * 10 + (of_char c - 48)) 0 ds"

lemma of_char_digit: "k < 10 \<Longrightarrow> of_char (char_of (48 + k) :: char) = (48 + k :: nat)"
  by simp

text \<open>The decimal digits of a rate denote the rate.\<close>

lemma decimal_value: "value_of_decimal (decimal n) = n"
proof (induction n rule: decimal.induct)
  case (1 n)
  show ?case
  proof (cases "n < 10")
    case True
    then show ?thesis by (simp add: value_of_decimal_def decimal.simps)
  next
    case False
    then have "value_of_decimal (decimal n) = value_of_decimal (decimal (n div 10)) * 10 + n mod 10"
      by (simp add: value_of_decimal_def decimal.simps [of n])
    then show ?thesis using 1 False by simp
  qed
qed

text \<open>
  Which files are open: \<open>fs_open\<close> adds the handle it returns, \<open>fs_close\<close> removes one, the other calls change nothing.
\<close>

definition files_ok :: "'w files \<Rightarrow> ('w \<Rightarrow> int set) \<Rightarrow> bool" where
  "files_ok F handles \<longleftrightarrow>
     (\<forall>name md w f w'. fs_open F name md w = (f, w') \<longrightarrow>
       handles w' = (if f < 0 then handles w else insert f (handles w)) \<and> (f \<ge> 0 \<longrightarrow> f \<notin> handles w)) \<and>
     (\<forall>f w. handles (fs_close F f w) = handles w - {f}) \<and>
     (\<forall>f w bs. handles (snd (fs_write F f w bs)) = handles w) \<and> (\<forall>f w n. handles (snd (fs_read F f w n)) = handles w) \<and>
     (\<forall>f w. handles (snd (fs_size F f w)) = handles w) \<and>
     (\<forall>name w. handles (snd (fs_opendir F name w)) = handles w) \<and> (\<forall>d w. handles (fs_closedir F d w) = handles w)"

lemma files_keep:
  assumes "files_ok F handles"
  shows "handles (fs_close F f w) = handles w - {f}" "handles (snd (fs_write F f w bs)) = handles w"
    "handles (snd (fs_read F f w n)) = handles w" "handles (snd (fs_size F f w)) = handles w"
    "handles (snd (fs_opendir F name w)) = handles w" "handles (fs_closedir F d w) = handles w"
    "handles (snd (fs_open F name md w)) =
       (if fst (fs_open F name md w) < 0 then handles w else insert (fst (fs_open F name md w)) (handles w))"
    "0 \<le> fst (fs_open F name md w) \<Longrightarrow> fst (fs_open F name md w) \<notin> handles w"
  using assms unfolding files_ok_def by (auto simp: prod_eq_iff)

lemma write_file_closes: "files_ok F handles \<Longrightarrow> handles (snd (write_file F name text w)) = handles w"
  by (auto simp: write_file_def split_beta Let_def files_keep)

text \<open>Setting a clock leaves no file open, whatever fails.\<close>

lemma fclk_set_closes:
  assumes "files_ok F handles" shows "handles (fclk_set F fclk_name fclk_rate w) = handles w"
proof -
  have "handles (snd (fclk_export F fclk_name d w)) = handles w" for d w
    using write_file_closes [OF assms] by (simp add: fclk_export_def split_beta Let_def files_keep [OF assms])
  then show ?thesis
    using write_file_closes [OF assms] by (simp add: fclk_set_def fclk_enable_def fclk_set_rate_def split_beta Let_def)
qed

text \<open>
  A clock that is exported is enabled before its rate is set; the rate is written in decimal. \<open>log\<close> collects what is written to
  which file.
\<close>

definition file_log :: "(string \<times> (string \<times> byte list) list) files" where
  "file_log = \<lparr>fs_opendir = (\<lambda>d w. (1, w)), fs_closedir = (\<lambda>d w. w), fs_open = (\<lambda>name md w. (3, name, snd w)),
     fs_close = (\<lambda>f w. ([], snd w)), fs_write = (\<lambda>f w bs. (int (length bs), fst w, snd w @ [(fst w, bs)])),
     fs_read = (\<lambda>f w n. (RdBytes [], w)), fs_size = (\<lambda>f w. (0, w))\<rparr>"

lemma fclk_set_order:
  "snd (fclk_set file_log fclk_name fclk_rate ([], [])) =
     [(devcfg @ ''/fclk/'' @ fclk_name @ ''/enable'', bytes_of_chars ''1'' @ [0]),
      (devcfg @ ''/fclk/'' @ fclk_name @ ''/set_rate'', bytes_of_chars (decimal (unat fclk_rate)) @ [0])]"
  by (simp add: fclk_set_def fclk_export_def fclk_enable_def fclk_set_rate_def write_file_def file_log_def)

text \<open>
  The loader reports success in the parent whatever becomes of \<open>fpgautil\<close>, and when the program cannot be executed the child goes
  on as a second server.
\<close>

lemma load_bitstream_reports:
  assumes "fork w = (pid, w1)"
  shows "0 < pid \<Longrightarrow> load_bitstream fork exec name w = Some (1, w1)"
    and "pid = 0 \<Longrightarrow> exec [''fpgautil'', ''-b'', live_instrument_dirname @ name @ ''.bit.bin''] w1 = Some w2 \<Longrightarrow>
      load_bitstream fork exec name w = Some (1, w2)"
  using assms by (simp_all add: load_bitstream_def)

lemma open_then_close:
  assumes "files_ok F handles" and "fs_open F name md w = (f, w1)"
  shows "f < 0 \<Longrightarrow> handles w1 = handles w" and "0 \<le> f \<Longrightarrow> handles w2 = handles w1 \<Longrightarrow> handles (fs_close F f w2) = handles w"
  using assms unfolding files_ok_def by auto

lemma read_bitstream_data_closes:
  assumes F: "files_ok F handles" and "read_bitstream_data F dirname name w = Some (q, b, w')"
  shows "handles w' = handles w"
proof -
  obtain f w1 where f: "fs_open F (dirname @ name @ ''.bit'') ''rb'' w = (f, w1)" by force
  obtain n w2 where n: "fs_size F f w1 = (n, w2)" by force
  have n2: "handles w2 = handles w1" using files_keep(4) [OF F, of f w1] n by simp
  show ?thesis
  proof (cases "f < 0")
    case True
    then show ?thesis using assms(2) f open_then_close(1) [OF F f] by (simp add: read_bitstream_data_def)
  next
    case False
    then obtain i d w3 where i: "fread_item F f n w2 = Some (i, d, w3)" "w' = fs_close F f w3"
      using assms(2) f n by (auto simp: read_bitstream_data_def bind_eq_Some_conv)
    have "handles w3 = handles w2"
      using i(1) read_loop_keeps [of handles "fs_read F f", OF files_keep(3) [OF F]]
      by (auto simp: fread_item_def bind_eq_Some_conv split: if_splits)
    then show ?thesis using open_then_close(2) [OF F f] False i(2) n2 by simp
  qed
qed

lemma check_bitstream_loaded_closes:
  assumes F: "files_ok F handles" shows "handles (snd (check_bitstream_loaded F w)) = handles w"
proof -
  obtain f w1 where f: "fs_open F ''/sys/bus/platform/drivers/xdevcfg/f8007000.devcfg/prog_done'' ''r'' w = (f, w1)" by force
  obtain res w2 where r: "fs_read F f w1 1 = (res, w2)" by force
  have "handles w2 = handles w1" using files_keep(3) [OF F, of f w1 1] r by simp
  then show ?thesis
    using f r open_then_close(1) [OF F f] open_then_close(2) [OF F f, of w2]
    by (cases "f < 0") (auto simp: check_bitstream_loaded_def split: rd_result.splits list.splits)
qed

text \<open>The old loader leaves no file open.\<close>

lemma load_bitstream_deprecated_closes:
  assumes F: "files_ok F handles" and "load_bitstream_deprecated F name w = Some (r, w')"
  shows "handles w' = handles w"
proof -
  obtain f w1 where f: "fs_open F ''/dev/xdevcfg'' ''w'' w = (f, w1)" by force
  show ?thesis
  proof (cases "f < 0")
    case True
    then show ?thesis using assms(2) f open_then_close(1) [OF F f] by (simp add: load_bitstream_deprecated_def)
  next
    case False
    then obtain q d w2 where q: "read_bitstream_data F live_instrument_dirname name w1 = Some (q, d, w2)"
      using assms(2) f by (auto simp: load_bitstream_deprecated_def bind_eq_Some_conv)
    obtain i w3 where i: "fwrite_item F f d w2 = (i, w3)" by force
    have "handles w3 = handles w2"
      using i files_keep(2) [OF F, of f w2 d] by (auto simp: fwrite_item_def split_beta Let_def split: if_splits)
    moreover have "handles w2 = handles w1" using read_bitstream_data_closes [OF F q] .
    moreover have "w' \<in> {fs_close F f w2, fs_close F f w3, snd (check_bitstream_loaded F (fs_close F f w3))}"
      using assms(2) False f q i by (auto simp: load_bitstream_deprecated_def split: if_splits)
    ultimately show ?thesis
      using open_then_close(2) [OF F f] False check_bitstream_loaded_closes [OF F, of "fs_close F f w3"] by auto
  qed
qed

text \<open>
  The loader of \<^verbatim>\<open>src/client\<close> leaves no file open either, and reports success exactly when all of the bytes it read from the file,
  at least one, were written to the device.
\<close>

lemma client_load_bitstream_result:
  assumes F: "files_ok F handles" and run: "client_load_bitstream F name w = Some (r, w')"
    and f: "fs_open F ''/dev/xdevcfg'' ''w'' w = (f, w1)" and "0 \<le> f"
    and q: "read_bitstream_data F client_dirname name w1 = Some (q, data, w2)"
  shows "handles w' = handles w" and "r = 1 \<longleftrightarrow> 0 \<le> q \<and> data \<noteq> [] \<and> fst (fs_write F f w2 data) = int (length data)"
proof -
  have w2: "handles w2 = handles w1" using read_bitstream_data_closes [OF F q] .
  obtain i w3 where i: "fwrite_item F f data w2 = (i, w3)" by force
  have "handles w3 = handles w2"
    using i files_keep(2) [OF F, of f w2 data] by (auto simp: fwrite_item_def split_beta Let_def split: if_splits)
  moreover have "w' \<in> {fs_close F f w2, fs_close F f w3}" and r: "r = (if 0 \<le> q \<and> i = 1 then 1 else - 1)"
    using run \<open>0 \<le> f\<close> f q i by (auto simp: client_load_bitstream_def split: if_splits)
  ultimately show "handles w' = handles w" using open_then_close(2) [OF F f \<open>0 \<le> f\<close>] w2 by auto
  have "i = 1 \<longleftrightarrow> data \<noteq> [] \<and> fst (fs_write F f w2 data) = int (length data)"
    using i by (auto simp: fwrite_item_def split_beta Let_def split: if_splits)
  then show "r = 1 \<longleftrightarrow> 0 \<le> q \<and> data \<noteq> [] \<and> fst (fs_write F f w2 data) = int (length data)" using r by auto
qed

text \<open>
  The context is initialised exactly when the memory is: a bus that is missing is not an error. Afterwards every device of the two
  directories can be had.
\<close>

lemma context_init_result:
  assumes "context_init open_dev mmap regions spi_dir i2c_dir ctx w = (r, ctx', w')"
    and "mm_open open_dev mmap regions (ctx_mm ctx) w = (q, mm, w1)"
  shows "r = (if q < 0 then - 1 else 0)" and "w' = w1" and "ctx_mm ctx' = mm"
    and "r = 0 \<Longrightarrow> ctx_i2c ctx = [] \<Longrightarrow> i2c_dir = Some names \<Longrightarrow>
      i2c_has_device k (ctx_i2c ctx') \<longleftrightarrow> k \<in> set names \<and> not_hidden k"
  using assms
  by (auto simp: context_init_def spi_manager_init_def i2c_manager_init_def i2c_has_device_def add_device_keys Let_def
      split: if_splits option.splits)

end
