(* ===== verification/Build.thy ===== *)
theory Build
  imports Client Sesenta Context
begin

text \<open>
  What the build generates for an instrument: the memory map and the registers (\<^verbatim>\<open>src/make.py\<close>,
  \<^verbatim>\<open>src/server/templates/memory.hpp\<close>) from its configuration, and the identifiers of drivers and operations
  (\<^verbatim>\<open>src/server/__init__.py\<close>, \<^verbatim>\<open>drivers_table.hpp\<close>, \<^verbatim>\<open>operations.hpp\<close>, \<^verbatim>\<open>src/server/core/meta_utils.hpp\<close>). The configuration is given
  as the YAML parser returns it. \<^term>\<open>None\<close> is an assertion of the generator that fails, or a header that does not compile.
\<close>

section \<open>The configuration\<close>

fun find_char :: "char \<Rightarrow> string \<Rightarrow> nat option" where
  "find_char c [] = None"
| "find_char c (x # xs) = (if x = c then Some 0 else map_option Suc (find_char c xs))"

definition parse_brackets :: "string \<Rightarrow> string \<times> string" where
  "parse_brackets s = (case (find_char CHR ''['' s, find_char CHR '']'' s) of
     (Some start, Some stop) \<Rightarrow> (take start s, take (stop - (start + 1)) (drop (start + 1) s))
   | _ \<Rightarrow> (s, ''1''))"

definition is_digit :: "char \<Rightarrow> bool" where
  "is_digit c \<longleftrightarrow> 48 \<le> (of_char c :: nat) \<and> (of_char c :: nat) \<le> 57"

definition to_int :: "string \<Rightarrow> nat" where
  "to_int s = foldl (\<lambda>a c. 10 * a + (of_char c - 48)) 0 s"

definition read_parameters :: "string \<Rightarrow> (string \<times> nat) list \<Rightarrow> (string \<times> nat) option" where
  "read_parameters s parameters = (case parse_brackets s of (name, p) \<Rightarrow>
     if p \<noteq> [] \<and> list_all is_digit p then Some (name, to_int p)
     else map_option (Pair name) (map_of parameters p))"

record memory_entry =
  en_name :: string
  en_offset :: u32
  en_range :: string
  en_protection :: "string option"

text \<open>\<open>replace_KMG\<close>, and the product it leaves for the compiler, in the range of \<open>int\<close>.\<close>

fun replace_KMG :: "string \<Rightarrow> string" where
  "replace_KMG [] = []"
| "replace_KMG (c # s) =
     (if c = CHR ''K'' then ''*1024'' else if c = CHR ''M'' then ''*1024*1024'' else if c = CHR ''G'' then ''*1024*1024*1024'' else [c]) @
     replace_KMG s"

fun product :: "nat \<Rightarrow> nat \<Rightarrow> string \<Rightarrow> nat" where
  "product a b [] = a * b"
| "product a b (c # s) = (if c = CHR ''*'' then product (a * b) 0 s else product a (10 * b + (of_char c - 48)) s)"

definition range_value :: "string \<Rightarrow> u32 option" where
  "range_value s = (let v = product 1 0 (replace_KMG s) in if v < 2 ^ 31 then Some (of_nat v) else None)"

definition prot_flag :: "string option \<Rightarrow> u32 option" where
  "prot_flag p = (case p of None \<Rightarrow> Some (PROT_READ OR PROT_WRITE)
     | Some x \<Rightarrow> if x = ''read'' then Some PROT_READ else if x = ''write'' then Some PROT_WRITE else None)"

definition build_region :: "(string \<times> nat) list \<Rightarrow> memory_entry \<Rightarrow> (string \<times> mem_region) option" where
  "build_region parameters e = do {
     (name, n_blocks) \<leftarrow> read_parameters (en_name e) parameters;
     if n_blocks > 0 then do {
       prot \<leftarrow> prot_flag (en_protection e);
       rng \<leftarrow> range_value (en_range e);
       Some (name, \<lparr>md_addr = en_offset e, md_range = rng, md_prot = prot, md_nblocks = of_nat n_blocks\<rparr>) }
     else None }"

fun build_all :: "('a \<Rightarrow> 'b option) \<Rightarrow> 'a list \<Rightarrow> 'b list option" where
  "build_all f [] = Some []"
| "build_all f (x # xs) = do { y \<leftarrow> f x; ys \<leftarrow> build_all f xs; Some (y # ys) }"

definition build_memory :: "(string \<times> nat) list \<Rightarrow> memory_entry list \<Rightarrow> (string \<times> mem_region) list option" where
  "build_memory parameters memory = build_all (build_region parameters) memory"

definition build_register :: "(string \<times> nat) list \<Rightarrow> string \<Rightarrow> string list option" where
  "build_register parameters r = do {
     (name, p) \<leftarrow> read_parameters r parameters;
     Some (if p = 1 then [name] else map (\<lambda>i. name @ decimal i) [0 ..< p]) }"

definition build_registers :: "(string \<times> nat) list \<Rightarrow> string list \<Rightarrow> string list option" where
  "build_registers parameters registers = map_option concat (build_all (build_register parameters) registers)"

section \<open>The constants of the memory header\<close>

text \<open>
  The registers of a memory start at its word \<open>base\<close> (2 for the status registers, after the 64 bits of \<open>dna\<close>); the header asserts
  that they are inside the memory. A name that is declared twice does not compile.
\<close>

definition register_constants :: "nat \<Rightarrow> u32 \<Rightarrow> string list \<Rightarrow> (string \<times> u32) list option" where
  "register_constants base rng names = (let cs = map (\<lambda>i. (names ! i, of_nat (4 * (base + i)))) [0 ..< length names] in
     if distinct names \<and> list_all (\<lambda>(_, offset). offset < rng) cs then Some cs else None)"

text \<open>The registers of the processing system are optional; those of the status are compared with the range of \<open>status\<close>.\<close>

definition constants_in :: "(string \<times> mem_region) list \<Rightarrow> string \<Rightarrow> nat \<Rightarrow> string list \<Rightarrow> (string \<times> u32) list option" where
  "constants_in mem name base names = (if names = [] then Some []
     else do { d \<leftarrow> map_of mem name; register_constants base (md_range d) names })"

record configuration =
  cfg_parameters :: "(string \<times> nat) list"
  cfg_memory :: "memory_entry list"
  cfg_control :: "string list"
  cfg_ps_control :: "string list"
  cfg_status :: "string list"
  cfg_ps_status :: "string list"

record memory_header =
  h_memory :: "(string \<times> mem_region) list"
  h_reg :: "(string \<times> u32) list"

definition memory_header_of :: "configuration \<Rightarrow> memory_header option" where
  "memory_header_of cfg = do {
     let parameters = cfg_parameters cfg;
     mem \<leftarrow> build_memory parameters (cfg_memory cfg);
     control \<leftarrow> build_registers parameters (cfg_control cfg);
     ps_control \<leftarrow> build_registers parameters (cfg_ps_control cfg);
     status \<leftarrow> build_registers parameters (cfg_status cfg);
     ps_status \<leftarrow> build_registers parameters (cfg_ps_status cfg);
     cs \<leftarrow> constants_in mem ''control'' 0 control;
     ps_cs \<leftarrow> constants_in mem ''ps_control'' 0 ps_control;
     ss \<leftarrow> constants_in mem ''status'' 2 status;
     ps_ss \<leftarrow> constants_in mem ''status'' 0 ps_status;
     let reg = cs @ ps_cs @ ss @ ps_ss @ [(''dna'', 0)];
     if distinct (map fst mem) \<and> distinct (map fst reg) then Some \<lparr>h_memory = mem, h_reg = reg\<rparr> else None }"

text \<open>\<open>zynq_clocks::set_clocks\<close> sets the clocks that have a parameter; the template looks for the four names in this order.\<close>

definition clock_settings :: "(string \<times> nat) list \<Rightarrow> (string \<times> u32) list" where
  "clock_settings parameters = concat (map (\<lambda>clk. case map_of parameters clk of None \<Rightarrow> [] | Some v \<Rightarrow> [(clk, of_nat v)])
     [''fclk0'', ''fclk1'', ''fclk2'', ''fclk3''])"

definition set_clocks :: "'w files \<Rightarrow> (string \<times> nat) list \<Rightarrow> 'w \<Rightarrow> 'w" where
  "set_clocks F parameters w = fold (\<lambda>(clk, rate). fclk_set F clk rate) (clock_settings parameters) w"

text \<open>\<open>mem::name\<close> is the index of a memory.\<close>

definition memory_index :: "string \<Rightarrow> memory_header \<Rightarrow> nat option" where
  "memory_index name h = map_of (zip (map fst (h_memory h)) [0 ..< length (h_memory h)]) name"

section \<open>Identifiers\<close>

text \<open>\<open>Index_v\<close> of a type in the tuple of the drivers.\<close>

fun index_of :: "'a \<Rightarrow> 'a list \<Rightarrow> nat option" where
  "index_of x [] = None"
| "index_of x (y # ys) = (if x = y then Some 0 else map_option Suc (index_of x ys))"

definition driver_id_of :: "string list \<Rightarrow> string \<Rightarrow> nat option" where
  "driver_id_of drivers d = (if d = ''NoDriver'' then Some 0 else if d = ''Server'' then Some 1
     else map_option (\<lambda>i. i + 2) (index_of d drivers))"

definition device_t :: "string list \<Rightarrow> nat \<Rightarrow> string option" where
  "device_t drivers k = (if 2 \<le> k \<and> k - 2 < length drivers then Some (drivers ! (k - 2)) else None)"

definition drivers_names :: "string list \<Rightarrow> string list" where
  "drivers_names drivers = [''NoDriver'', ''Server''] @ drivers"

text \<open>The generator numbers the drivers it reads, and finds the number of one by the name of its file.\<close>

fun number_drivers :: "nat \<Rightarrow> 'd list \<Rightarrow> (nat \<times> 'd) list" where
  "number_drivers k [] = []"
| "number_drivers k (d # ds) = (k, d) # number_drivers (k + 1) ds"

definition get_drivers :: "'d list \<Rightarrow> (nat \<times> 'd) list" where
  "get_drivers paths = number_drivers 2 paths"

definition basename :: "string \<Rightarrow> string" where
  "basename path = rev (takeWhile (\<lambda>c. c \<noteq> CHR ''/'') (rev path))"

fun find_driver :: "nat \<Rightarrow> string \<Rightarrow> string list \<Rightarrow> nat option" where
  "find_driver k file [] = None"
| "find_driver k file (path # paths) = (if basename path = file then Some k else find_driver (k + 1) file paths)"

definition get_driver_id :: "string list \<Rightarrow> string \<Rightarrow> nat option" where
  "get_driver_id paths driver_path = find_driver 2 (basename driver_path) paths"

text \<open>\<open>op::Driver::operation\<close>, which a client gives to \<open>call\<close>.\<close>

definition op_constant :: "nat \<Rightarrow> nat \<Rightarrow> u32" where
  "op_constant driver_id op_id = push_bit 16 (of_nat driver_id) + of_nat op_id"

section \<open>The instrument\<close>

definition entry :: "string \<Rightarrow> u32 \<Rightarrow> string \<Rightarrow> memory_entry" where
  "entry name off rng = \<lparr>en_name = name, en_offset = off, en_range = rng, en_protection = None\<rparr>"

definition sesenta_configuration :: configuration where
  "sesenta_configuration = \<lparr>
     cfg_parameters = [(''fclk0'', 100000000)],
     cfg_memory = [
       entry ''control'' 0x40000000 ''4K'', entry ''status'' 0x50000000 ''4K'', entry ''ram'' 0x1E000000 ''16M'',
       entry ''ram2'' 0x1F000000 ''16M'', entry ''dma'' 0x40400000 ''64K'', entry ''dma1'' 0x40480000 ''64K'',
       entry ''axi_hp0'' 0xF8008000 ''4K'', entry ''axi_hp1'' 0xF800F000 ''8K'', entry ''mic0'' 0x40040000 ''8K'',
       entry ''mic1'' 0x40060000 ''8K'', entry ''mic2'' 0x40080000 ''8K'', entry ''mic3'' 0x40100000 ''8K''],
     cfg_control = [''rst_regs'', ''dma_gate'', ''dma_gate1'', ''n_samples'', ''mic_select'', ''led_select'', ''start_capture''],
     cfg_ps_control = [],
     cfg_status = [''mode'', ''done_capture''],
     cfg_ps_status = []\<rparr>"

lemma find_char_None: "find_char c s = None \<longleftrightarrow> c \<notin> set s"
  by (induction s) auto

lemma read_parameters_plain: "CHR ''['' \<notin> set s \<Longrightarrow> read_parameters s ps = Some (s, 1)"
  by (simp add: read_parameters_def parse_brackets_def find_char_None [THEN iffD2] is_digit_def to_int_def)

lemma build_register_plain: "CHR ''['' \<notin> set s \<Longrightarrow> build_register ps s = Some [s]"
  by (simp add: build_register_def read_parameters_plain)

lemma range_values:
  "range_value ''4K'' = Some 0x1000" "range_value ''8K'' = Some 0x2000" "range_value ''64K'' = Some 0x10000" "range_value ''16M'' = Some 0x1000000"
  by (simp_all add: range_value_def)

lemma build_region_entry:
  "CHR ''['' \<notin> set name \<Longrightarrow> range_value rng = Some r \<Longrightarrow> build_region ps (entry name off rng) = Some (name, region off r)"
  by (simp add: build_region_def entry_def region_def read_parameters_plain prot_flag_def)

text \<open>
  The constants of the driver are those the build generates from the configuration: every region and its index, and every
  register.
\<close>

lemma sesenta_header:
  "\<exists>h. memory_header_of sesenta_configuration = Some h \<and> map snd (h_memory h) = sesenta_memory \<and>
    map (\<lambda>m. memory_index m h) [''control'', ''status'', ''ram'', ''ram2'', ''dma'', ''dma1'', ''axi_hp1'', ''mic0'', ''mic1'', ''mic2'', ''mic3'']
      = map Some [mem_control, mem_status, mem_ram, mem_ram2, mem_dma, mem_dma1, mem_axi_hp1, mem_mic0, mem_mic1, mem_mic2, mem_mic3] \<and>
    map (map_of (h_reg h)) [''dma_gate'', ''dma_gate1'', ''n_samples'', ''mic_select'', ''led_select'', ''start_capture'', ''done_capture'', ''dna'']
      = map Some [reg_dma_gate, reg_dma_gate1, reg_n_samples, reg_mic_select, reg_led_select, reg_start_capture, reg_done_capture, 0]"
proof -
  have upt: "[0 ..< 7] = [0, 1, 2, 3, 4, 5, 6]" "[0 ..< 2] = [0, 1]" "[0 ..< 12] = [0, 1, 2, 3, 4, 5, 6, 7, 8, 9, 10, 11]"
    by (simp_all add: upt_rec)
  let ?mem = "zip [''control'', ''status'', ''ram'', ''ram2'', ''dma'', ''dma1'', ''axi_hp0'', ''axi_hp1'', ''mic0'', ''mic1'', ''mic2'', ''mic3'']
    sesenta_memory"
  have mem: "build_memory (cfg_parameters sesenta_configuration) (cfg_memory sesenta_configuration) = Some ?mem"
    by (simp add: build_memory_def sesenta_configuration_def build_region_entry range_values sesenta_memory_def)
  have regs: "build_registers ps (cfg_control sesenta_configuration) = Some (cfg_control sesenta_configuration)"
    "build_registers ps (cfg_status sesenta_configuration) = Some (cfg_status sesenta_configuration)"
    "build_registers ps (cfg_ps_control sesenta_configuration) = Some []" "build_registers ps (cfg_ps_status sesenta_configuration) = Some []" for ps
    by (simp_all add: build_registers_def sesenta_configuration_def build_register_plain)
  have cs: "constants_in ?mem ''control'' 0 (cfg_control sesenta_configuration) = Some [(''rst_regs'', 0), (''dma_gate'', 4), (''dma_gate1'', 8),
      (''n_samples'', 12), (''mic_select'', 16), (''led_select'', 20), (''start_capture'', 24)]"
    by (simp add: constants_in_def sesenta_configuration_def register_constants_def sesenta_memory_def region_def upt)
  have ss: "constants_in ?mem ''status'' 2 (cfg_status sesenta_configuration) = Some [(''mode'', 8), (''done_capture'', 12)]"
    by (simp add: constants_in_def sesenta_configuration_def register_constants_def sesenta_memory_def region_def upt)
  let ?reg = "[(''rst_regs'', 0), (''dma_gate'', 4), (''dma_gate1'', 8), (''n_samples'', 12), (''mic_select'', 16), (''led_select'', 20),
    (''start_capture'', 24), (''mode'', 8), (''done_capture'', 12), (''dna'', 0 :: u32)]"
  define h where "h = \<lparr>h_memory = ?mem, h_reg = ?reg\<rparr>"
  have "distinct (map fst ?mem)" "distinct (map fst ?reg)" by (simp_all add: sesenta_memory_def)
  then have 1: "memory_header_of sesenta_configuration = Some h"
    by (simp add: memory_header_of_def mem regs cs ss constants_in_def [where names = "[]"] h_def)
  have 2: "map snd (h_memory h) = sesenta_memory" by (simp add: sesenta_memory_def h_def)
  have 3: "map (\<lambda>m. memory_index m h)
      [''control'', ''status'', ''ram'', ''ram2'', ''dma'', ''dma1'', ''axi_hp1'', ''mic0'', ''mic1'', ''mic2'', ''mic3''] =
      map Some [mem_control, mem_status, mem_ram, mem_ram2, mem_dma, mem_dma1, mem_axi_hp1, mem_mic0, mem_mic1, mem_mic2, mem_mic3]"
    by (simp add: h_def memory_index_def sesenta_memory_def upt mem_control_def mem_status_def mem_ram_def mem_ram2_def mem_dma_def
        mem_dma1_def mem_axi_hp1_def mem_mic0_def mem_mic1_def mem_mic2_def mem_mic3_def)
  have 4: "map (map_of (h_reg h)) [''dma_gate'', ''dma_gate1'', ''n_samples'', ''mic_select'', ''led_select'', ''start_capture'', ''done_capture'', ''dna'']
      = map Some [reg_dma_gate, reg_dma_gate1, reg_n_samples, reg_mic_select, reg_led_select, reg_start_capture, reg_done_capture, 0]"
    by (simp add: h_def reg_dma_gate_def reg_dma_gate1_def reg_n_samples_def reg_mic_select_def reg_led_select_def reg_start_capture_def
        reg_done_capture_def)
  show ?thesis by (intro exI [of _ h] conjI 1 2 3 4)
qed

text \<open>
  The clocks: those without a parameter are left alone, no file stays open, and the instrument enables its one clock and sets it to
  100 MHz.
\<close>

lemma clock_settings_iff:
  "(clk, rate) \<in> set (clock_settings parameters) \<longleftrightarrow>
     clk \<in> {''fclk0'', ''fclk1'', ''fclk2'', ''fclk3''} \<and> (\<exists>v. map_of parameters clk = Some v \<and> rate = of_nat v)"
proof -
  have "(clk, rate) \<in> set (case map_of parameters c of None \<Rightarrow> [] | Some v \<Rightarrow> [(c, of_nat v)]) \<longleftrightarrow>
      clk = c \<and> (\<exists>v. map_of parameters clk = Some v \<and> rate = of_nat v)" for c
    by (cases "map_of parameters c") auto
  then show ?thesis unfolding clock_settings_def by (simp only: set_concat set_map list.set) blast
qed

lemma set_clocks_closes: "files_ok F handles \<Longrightarrow> handles (set_clocks F parameters w) = handles w"
proof -
  assume F: "files_ok F handles"
  have "handles (fold (\<lambda>(clk, rate). fclk_set F clk rate) cs w) = handles w" for cs
    by (induction cs arbitrary: w) (auto simp: fclk_set_closes [OF F])
  then show ?thesis by (simp add: set_clocks_def)
qed

lemma sesenta_clock:
  "snd (set_clocks file_log (cfg_parameters sesenta_configuration) ([], [])) =
     [(devcfg @ ''/fclk/fclk0/enable'', bytes_of_chars ''1'' @ [0]),
      (devcfg @ ''/fclk/fclk0/set_rate'', bytes_of_chars ''100000000'' @ [0])]"
proof -
  have "decimal 100000000 = ''100000000''" by (simp add: decimal.simps char_of_def bit_Suc_0_iff)
  then show ?thesis using fclk_set_order [of "''fclk0''" 100000000]
    by (simp add: set_clocks_def clock_settings_def sesenta_configuration_def)
qed

section \<open>The identifiers agree\<close>

lemma index_of_nth: "distinct xs \<Longrightarrow> i < length xs \<Longrightarrow> index_of (xs ! i) xs = Some i"
proof (induction xs arbitrary: i)
  case (Cons x xs)
  then show ?case by (cases i) (auto simp: nth_mem)
qed simp

lemma number_drivers_nth: "i < length ds \<Longrightarrow> number_drivers k ds ! i = (k + i, ds ! i)"
proof (induction ds arbitrary: i k)
  case (Cons d ds)
  then show ?case by (cases i) auto
qed simp

lemma find_driver_nth: "distinct (map basename paths) \<Longrightarrow> i < length paths \<Longrightarrow> find_driver k (basename (paths ! i)) paths = Some (k + i)"
proof (induction paths arbitrary: i k)
  case (Cons p paths)
  then show ?case
  proof (cases i)
    case (Suc j)
    then have "basename (paths ! j) \<in> set (map basename paths)" using Cons.prems by simp
    then have "basename p \<noteq> basename (paths ! j)" using Cons.prems by auto
    then show ?thesis using Suc Cons by simp
  qed simp
qed simp

text \<open>The two fields of the constant do not overlap.\<close>

lemma op_constant_fields:
  assumes "d < 2 ^ 16" and "j < 2 ^ 16"
  shows "ucast (drop_bit 16 (op_constant d j)) = (of_nat d :: u16)" and "ucast (op_constant d j AND 0xFFFF) = (of_nat j :: u16)"
proof -
  have v: "unat (op_constant d j) = d * 2 ^ 16 + j"
    using assms by (simp add: op_constant_def push_bit_eq_mult unat_word_ariths unat_of_nat)
  have d: "unat (drop_bit 16 (op_constant d j)) = d"
    using unat_drop_bit_eq [of 16 "op_constant d j"] assms unfolding v by (simp only:) (simp add: drop_bit_eq_div)
  have "of_nat (unat (drop_bit 16 (op_constant d j))) = (ucast (drop_bit 16 (op_constant d j)) :: u16)" by (rule of_nat_unat)
  then show "ucast (drop_bit 16 (op_constant d j)) = (of_nat d :: u16)" by (simp only: d)
  have "(0xFFFF :: u32) = mask 16" by (simp add: mask_eq_exp_minus_1)
  then have "unat (op_constant d j AND 0xFFFF) = take_bit 16 (unat (op_constant d j))"
    by (simp only: take_bit_eq_mask [symmetric] unsigned_take_bit_eq)
  then have j: "unat (op_constant d j AND 0xFFFF) = j" unfolding v take_bit_eq_mod using assms by simp
  have "of_nat (unat (op_constant d j AND 0xFFFF)) = (ucast (op_constant d j AND 0xFFFF) :: u16)" by (rule of_nat_unat)
  then show "ucast (op_constant d j AND 0xFFFF) = (of_nat j :: u16)" by (simp only: j)
qed

section \<open>Property\<close>



end
