(* ===== verification/Generator.thy ===== *)
theory Generator
  imports Type_Dispatch Instrument Build "HOL-Library.Sublist"
begin

text \<open>
  The generator of the interfaces (\<^verbatim>\<open>src/server/__init__.py\<close>) on the texts it works with: how it reads the methods of a driver,
  recognises the family of a type by its spelling, groups the arguments and writes the call. A method is given as \<open>CppHeaderParser\<close>
  documents it, which leaves a space before \<open>&\<close>. \<^term>\<open>None\<close> is an exception of the generator.
\<close>

section \<open>Strings of Python\<close>

definition is_space :: "char \<Rightarrow> bool" where
  "is_space c \<longleftrightarrow> (of_char c :: nat) \<in> {9, 10, 11, 12, 13, 32}"

definition strip :: "string \<Rightarrow> string" where
  "strip s = rev (dropWhile is_space (rev (dropWhile is_space s)))"

fun split_on :: "char \<Rightarrow> string \<Rightarrow> string list" where
  "split_on c [] = [[]]"
| "split_on c (x # xs) = (case split_on c xs of [] \<Rightarrow> [[x]] | p # ps \<Rightarrow> if x = c then [] # p # ps else (x # p) # ps)"

definition field :: "nat \<Rightarrow> string list \<Rightarrow> string option" where
  "field i fs = (if i < length fs then Some (fs ! i) else None)"

definition upper_char :: "char \<Rightarrow> char" where
  "upper_char c = (let n = of_char c :: nat in if 97 \<le> n \<and> n \<le> 122 then char_of (n - 32) else c)"

definition is_upper :: "char \<Rightarrow> bool" where
  "is_upper c \<longleftrightarrow> 65 \<le> (of_char c :: nat) \<and> (of_char c :: nat) \<le> 90"

fun join :: "string \<Rightarrow> string list \<Rightarrow> string" where
  "join sep [] = []"
| "join sep [s] = s"
| "join sep (s # ss) = s @ sep @ join sep ss"

section \<open>The methods of a driver\<close>

record cpp_param =
  pr_name :: string
  pr_type :: string

record cpp_method =
  m_name :: string
  m_template :: bool
  m_ret :: string
  m_params :: "cpp_param list"

record arg_info =
  ai_name :: string
  ai_type :: string
  ai_by_reference :: bool
  ai_const :: bool

record op_info =
  op_tag :: string
  op_name :: string
  op_ret :: string
  op_args :: "arg_info list"

definition FORBIDDEN_INTS :: "string list" where
  "FORBIDDEN_INTS = [''short'', ''int'', ''unsigned'', ''long'', ''unsigned short'', ''short unsigned'', ''unsigned int'', ''int unsigned'',
     ''unsigned long'', ''long unsigned'', ''long long'', ''unsigned long long'', ''long long unsigned'']"

definition check_type :: "string \<Rightarrow> unit option" where
  "check_type ty = (if ty \<in> set FORBIDDEN_INTS then None else Some ())"

definition parse_param :: "cpp_param \<Rightarrow> arg_info option" where
  "parse_param p = (
     let ty = strip (pr_type p);
         by_reference = (drop (length ty - 1) ty = ''&'');
         ty = (if by_reference then strip (take (length ty - 2) ty) else ty);
         is_const = (take 5 ty = ''const'');
         ty = (if is_const then strip (drop 5 ty) else ty)
     in do {
       _ \<leftarrow> check_type ty;
       Some \<lparr>ai_name = pr_name p, ai_type = ty, ai_by_reference = by_reference, ai_const = is_const\<rparr> })"

definition parse_header_operation :: "cpp_method \<Rightarrow> op_info option" where
  "parse_header_operation m = do {
     _ \<leftarrow> check_type (m_ret m);
     args \<leftarrow> build_all parse_param (m_params m);
     Some \<lparr>op_tag = map upper_char (m_name m), op_name = m_name m, op_ret = m_ret m, op_args = args\<rparr> }"

text \<open>Constructors, destructors and templates are left out; the others are numbered from 0.\<close>

definition parse_driver_header :: "string \<Rightarrow> cpp_method list \<Rightarrow> op_info list option" where
  "parse_driver_header cls methods = build_all parse_header_operation
     (filter (\<lambda>m. m_name m \<noteq> cls \<and> m_name m \<noteq> ''~'' @ cls \<and> \<not> m_template m) methods)"

function camel_words :: "string \<Rightarrow> string list" where
  "camel_words [] = []"
| "camel_words (c # cs) = (if is_upper c then (c # takeWhile (\<lambda>x. \<not> is_upper x) cs) # camel_words (dropWhile (\<lambda>x. \<not> is_upper x) cs)
     else camel_words cs)"
  by pat_completeness auto
termination
  by (relation "measure length") (auto simp: le_imp_less_Suc length_dropWhile_le)

definition driver_tag :: "string \<Rightarrow> string" where
  "driver_tag cls = map upper_char (join ''_'' (camel_words cls))"

section \<open>Families of types\<close>

definition is_std_array_text :: "string \<Rightarrow> bool" where
  "is_std_array_text ty \<longleftrightarrow> strip (hd (split_on CHR ''<'' ty)) \<in> {''std::array'', ''const std::array''}"

definition is_std_vector_text :: "string \<Rightarrow> bool" where
  "is_std_vector_text ty \<longleftrightarrow> strip (hd (split_on CHR ''<'' ty)) \<in> {''std::vector'', ''const std::vector''}"

definition is_std_string_text :: "string \<Rightarrow> bool" where
  "is_std_string_text ty \<longleftrightarrow> strip ty \<in> {''std::string'', ''const std::string''}"

datatype gen_pack = Gen_scalar "string list" | Gen_array string | Gen_vector string | Gen_string string

definition gen_scalar_pack :: "string list \<Rightarrow> gen_pack list" where
  "gen_scalar_pack args_list = (if args_list = [] then [] else [Gen_scalar args_list])"

text \<open>The packs and \<open>has_vector\<close>, from the types of the arguments.\<close>

fun gen_args_packs :: "string list \<Rightarrow> string list \<Rightarrow> gen_pack list \<times> bool" where
  "gen_args_packs [] args_list = (gen_scalar_pack args_list, False)"
| "gen_args_packs (ty # tys) args_list =
     (if is_std_array_text ty then
        let (ps, v) = gen_args_packs tys [] in (gen_scalar_pack args_list @ Gen_array ty # ps, v)
      else if is_std_vector_text ty \<or> is_std_string_text ty then
        let (ps, v) = gen_args_packs tys []
        in (gen_scalar_pack args_list @ (if is_std_vector_text ty then Gen_vector ty else Gen_string ty) # ps, True)
      else gen_args_packs tys (args_list @ [ty]))"

text \<open>The parameters of a template are what is between the brackets, at the commas.\<close>

definition template_args :: "string \<Rightarrow> string list option" where
  "template_args ty = do {
     f \<leftarrow> field 1 (split_on CHR ''<'' ty);
     Some (split_on CHR '','' (hd (split_on CHR ''>'' f))) }"

definition get_std_array_params :: "string \<Rightarrow> (string \<times> string) option" where
  "get_std_array_params ty = do {
     ts \<leftarrow> template_args ty; T \<leftarrow> field 0 ts; N \<leftarrow> field 1 ts; Some (strip T, strip N) }"

section \<open>The generated code\<close>

definition has_auto :: "string \<Rightarrow> bool" where
  "has_auto ret = sublist ''auto'' ret"

definition get_exact_ret_type :: "string \<Rightarrow> op_info \<Rightarrow> string" where
  "get_exact_ret_type cls op =
     (if has_auto (op_ret op) \<or> is_std_array_text (op_ret op) then
        ''decltype(std::declval<'' @ cls @ ''>().'' @ op_name op @ ''('' @
        join '' ,'' (map (\<lambda>a. ''std::declval<'' @ ai_type a @ ''>()'') (op_args op)) @ ''))''
      else op_ret op)"

definition build_func_call :: "string \<Rightarrow> op_info \<Rightarrow> string" where
  "build_func_call cls op = ''__'' @ cls @ ''.'' @ op_name op @ ''('' @
     join '', '' (map (\<lambda>a. ''args_'' @ op_name op @ ''.'' @ ai_name a) (op_args op)) @ '')''"

definition newline :: string where
  "newline = [char_of (10 :: nat)]"

definition generate_call :: "string \<Rightarrow> nat \<Rightarrow> nat \<Rightarrow> op_info \<Rightarrow> string" where
  "generate_call cls driver_id op_id op =
     (if op_ret op = ''void'' then ''    '' @ build_func_call cls op @ '';'' @ newline @ ''    return 0;'' @ newline
      else ''    return cmd.session->send<'' @ decimal driver_id @ '', '' @ decimal op_id @ ''>('' @ build_func_call cls op @ '');'' @ newline)"

text \<open>The size the generated code asserts to fit into the payload, for an operation without a vector or a string.\<close>

fun pack_size :: "pack \<Rightarrow> nat" where
  "pack_size (ScalarPack ts) = required_buffer_size ts"
| "pack_size (ArrayPack t n) = t * n"
| "pack_size _ = 0"

definition req_buff_size :: "pack list \<Rightarrow> nat" where
  "req_buff_size packs = sum_list (map pack_size packs)"

section \<open>What the spelling of a type means\<close>

definition scalar_names :: "(string \<times> scalar_ty) list" where
  "scalar_names = [(''uint8_t'', TU8), (''int8_t'', TI8), (''uint16_t'', TU16), (''int16_t'', TI16), (''uint32_t'', TU32), (''int32_t'', TI32),
     (''uint64_t'', TU64), (''int64_t'', TI64), (''float'', TFloat), (''double'', TDouble), (''bool'', TBool)]"

definition arg_ty_of_text :: "string \<Rightarrow> arg_ty option" where
  "arg_ty_of_text ty =
     (if is_std_array_text ty then do {
        (T, N) \<leftarrow> get_std_array_params ty;
        t \<leftarrow> map_of scalar_names T;
        if N \<noteq> [] \<and> list_all is_digit N then Some (TArray (size_of t) (to_int N)) else None }
      else if is_std_vector_text ty then do {
        ts \<leftarrow> template_args ty;
        t \<leftarrow> map_of scalar_names (strip (hd ts));
        Some (TVector (size_of t)) }
      else if is_std_string_text ty then Some TString
      else map_option TScalar (map_of scalar_names ty))"

definition pack_of_text :: "gen_pack \<Rightarrow> pack option" where
  "pack_of_text p = (case p of
       Gen_scalar tys \<Rightarrow> map_option ScalarPack (build_all (map_of scalar_names) tys)
     | Gen_array ty \<Rightarrow> map_option pack_of (arg_ty_of_text ty)
     | Gen_vector ty \<Rightarrow> map_option pack_of (arg_ty_of_text ty)
     | Gen_string ty \<Rightarrow> Some StringPack)"

section \<open>The packs\<close>

lemma build_all_append: "build_all f (xs @ ys) = do { us \<leftarrow> build_all f xs; vs \<leftarrow> build_all f ys; Some (us @ vs) }"
  by (induction xs) (simp_all add: bind_assoc bind_map_option)

lemma build_all_Nil_iff: "build_all f xs = Some [] \<longleftrightarrow> xs = []"
  by (cases xs) (simp_all add: bind_eq_Some_conv)

lemma pack_of_text_simps:
  "pack_of_text (Gen_scalar tys) = map_option ScalarPack (build_all (map_of scalar_names) tys)"
  "pack_of_text (Gen_array ty) = map_option pack_of (arg_ty_of_text ty)"
  "pack_of_text (Gen_vector ty) = map_option pack_of (arg_ty_of_text ty)" "pack_of_text (Gen_string ty) = Some StringPack"
  by (simp_all add: pack_of_text_def)

fun dynamic :: "arg_ty \<Rightarrow> bool" where
  "dynamic (TVector t) = True" | "dynamic TString = True" | "dynamic _ = False"

lemma gen_scalar_pack_meaning:
  "build_all (map_of scalar_names) acc = Some sacc \<Longrightarrow> build_all pack_of_text (gen_scalar_pack acc) = Some (scalar_pack sacc)"
  by (auto simp: gen_scalar_pack_def scalar_pack_def pack_of_text_simps build_all_Nil_iff)

lemma gen_args_packs_meaning:
  assumes "build_all arg_ty_of_text tys = Some ts" and "build_all (map_of scalar_names) acc = Some sacc"
  shows "build_all pack_of_text (fst (gen_args_packs tys acc)) = Some (build_args_packs ts sacc) \<and>
    snd (gen_args_packs tys acc) = list_ex dynamic ts"
  using assms
proof (induction tys arbitrary: ts acc sacc)
  case Nil
  then show ?case by (simp add: gen_scalar_pack_meaning)
next
  case (Cons ty tys)
  obtain t ts' where t: "arg_ty_of_text ty = Some t" "build_all arg_ty_of_text tys = Some ts'" "ts = t # ts'"
    using Cons.prems(1) by (auto simp: bind_eq_Some_conv)
  note sp = gen_scalar_pack_meaning [OF Cons.prems(2)]
  have IH: "build_all pack_of_text (fst (gen_args_packs tys [])) = Some (build_args_packs ts' [])"
    "snd (gen_args_packs tys []) = list_ex dynamic ts'"
    using Cons.IH [OF t(2), of "[]" "[]"] by simp_all
  show ?case
  proof (cases t)
    case (TScalar s)
    then have "\<not> is_std_array_text ty" "\<not> is_std_vector_text ty" "\<not> is_std_string_text ty" "map_of scalar_names ty = Some s"
      using t(1) by (auto simp: arg_ty_of_text_def bind_eq_Some_conv split: if_splits prod.splits)
    then show ?thesis using Cons.IH [OF t(2), of "acc @ [ty]" "sacc @ [s]"] Cons.prems(2) t(3) TScalar
      by (simp add: build_all_append)
  next
    case (TArray n k)
    then have "is_std_array_text ty"
      using t(1) by (auto simp: arg_ty_of_text_def bind_eq_Some_conv split: if_splits prod.splits)
    then show ?thesis using IH sp t TArray by (simp add: split_beta build_all_append pack_of_text_simps)
  next
    case (TVector n)
    then have "\<not> is_std_array_text ty" "is_std_vector_text ty"
      using t(1) by (auto simp: arg_ty_of_text_def bind_eq_Some_conv split: if_splits prod.splits)
    then show ?thesis using IH sp t TVector by (simp add: split_beta build_all_append pack_of_text_simps)
  next
    case TString
    then have "\<not> is_std_array_text ty" "\<not> is_std_vector_text ty" "is_std_string_text ty"
      using t(1) by (auto simp: arg_ty_of_text_def bind_eq_Some_conv split: if_splits prod.splits)
    then show ?thesis using IH sp t TString by (simp add: split_beta build_all_append pack_of_text_simps)
  qed
qed

section \<open>Arguments of a fixed size\<close>

lemma length_enc_scalar_ty: "length (enc_scalar v) = size_of (ty_of v)"
  by (cases v) simp_all

lemma pack_size_scalar: "sum_list (map pack_size (scalar_pack acc)) = required_buffer_size acc"
  by (simp add: scalar_pack_def)

lemma req_buff_size_args:
  assumes "list_all2 (arg_matches lim) ts args" and "\<not> list_ex dynamic ts"
  shows "req_buff_size (build_args_packs ts acc) = required_buffer_size acc + length (concat (map enc_arg args))"
  using assms
proof (induction ts arbitrary: args acc)
  case (Cons t ts)
  obtain a as where a: "args = a # as" "arg_matches lim t a" "list_all2 (arg_matches lim) ts as"
    using Cons.prems(1) by (auto simp: list_all2_Cons1)
  show ?case
  proof (cases t)
    case (TScalar s)
    then obtain v where "a = Scalar v" "ty_of v = s" using a(2) by (cases a) auto
    then show ?thesis using TScalar Cons.IH [OF a(3), of "acc @ [s]"] Cons.prems(2) a(1)
      by (simp add: length_enc_scalar_ty)
  next
    case (TArray n k)
    then obtain c where "a = Array c" "length c = n * k" using a(2) by (cases a) auto
    then show ?thesis using TArray Cons.IH [OF a(3), of "[]"] Cons.prems(2) a(1)
      by (simp add: req_buff_size_def pack_size_scalar)
  qed (use Cons.prems(2) in simp_all)
qed (simp add: req_buff_size_def pack_size_scalar)

section \<open>The instrument\<close>

text \<open>The public methods of the three drivers, as the parser returns them.\<close>

definition param :: "string \<Rightarrow> string \<Rightarrow> cpp_param" where
  "param name ty = \<lparr>pr_name = name, pr_type = ty\<rparr>"

definition u32_param :: "string \<Rightarrow> cpp_param" where
  "u32_param name = param name ''uint32_t''"

definition declared :: "string \<Rightarrow> string \<Rightarrow> cpp_param list \<Rightarrow> cpp_method" where
  "declared ret name params = \<lparr>m_name = name, m_template = False, m_ret = ret, m_params = params\<rparr>"

definition common_methods :: "cpp_method list" where
  "common_methods = [declared ''void'' ''Common'' [param ''ctx_'' ''Context &''], declared ''uint64_t'' ''get_dna'' [],
     declared ''void'' ''init'' [], declared ''std::string'' ''get_instrument_config'' []]"

definition dma_methods :: "cpp_method list" where
  "dma_methods = [declared ''void'' ''DmaS2MM'' [param ''ctx_'' ''Context &''],
     declared ''void'' ''setup_transfer'' [u32_param ''dest_addr'', u32_param ''dest_addr2'', u32_param ''length''],
     declared ''void'' ''wait_for_transfer'' [param ''dma_transfer_duration_seconds'' ''float'']]"

definition sesenta_methods :: "cpp_method list" where
  "sesenta_methods = [declared ''void'' ''Sesenta'' [param ''ctx_'' ''Context &''], declared ''void'' ''~Sesenta'' [],
     declared ''void'' ''dma_on'' [], declared ''void'' ''dma_off'' [], declared ''void'' ''dma1_on'' [], declared ''void'' ''dma1_off'' [],
     declared ''void'' ''set_nsamples'' [u32_param ''samples''], declared ''auto'' ''get_nsamples'' [],
     declared ''void'' ''start_dma_transfer'' [u32_param ''samples''],
     declared ''void'' ''split_mic_value'' [u32_param ''mic_value'', param ''mic1'' ''uint16_t &'', param ''mic2'' ''uint16_t &''],
     declared ''auto'' ''read_mics6'' [u32_param ''samples''], declared ''auto'' ''get_mics6'' [u32_param ''samples''],
     declared ''auto'' ''get_mics4'' [u32_param ''samples''], declared ''auto'' ''get_mics'' [u32_param ''samples''],
     declared ''auto'' ''get_mics_ith'' [u32_param ''samples'', u32_param ''mic_idx''],
     declared ''std::array<uint32_t, mic_size>'' ''get_mic_ith'' [u32_param ''mic_idx''],
     declared ''void'' ''set_mic_sel'' [u32_param ''sel''], declared ''auto'' ''get_mics_bram'' [u32_param ''dir''],
     declared ''void'' ''set_led_sel'' [u32_param ''sel''], declared ''uint32_t'' ''get_mic_size'' [],
     declared ''void'' ''start_beamforming'' []]"

definition signatures :: "op_info list \<Rightarrow> arg_ty list list option" where
  "signatures ops = build_all (\<lambda>op. build_all arg_ty_of_text (map ai_type (op_args op))) ops"

text \<open>The types of the results; those of the methods with \<open>auto\<close> are what the compiler deduces.\<close>

definition samples_type :: cpp_type where
  "samples_type = Vec (Number TI32)"

definition common_results :: "cpp_type option list" where
  "common_results = [Some (Number TU64), None, Some Basic_string]"

definition dma_results :: "cpp_type option list" where
  "dma_results = [None, None]"

definition sesenta_results :: "cpp_type option list" where
  "sesenta_results = [None, None, None, None, None, Some (Number TU32), None, None, Some samples_type, Some samples_type, Some samples_type,
     Some samples_type, Some samples_type, Some (Std_array (Number TU32) mic_size), None, Some samples_type, None, Some (Number TU32), None]"

text \<open>What the generator makes of a spelling.\<close>

lemma plain_text:
  "strip ''uint32_t'' = ''uint32_t''" "strip ''uint16_t &'' = ''uint16_t &''" "strip ''uint16_t'' = ''uint16_t''" "strip ''float'' = ''float''"
  by (simp_all add: strip_def is_space_def)

lemma sesenta_params:
  "parse_param (u32_param name) = Some \<lparr>ai_name = name, ai_type = ''uint32_t'', ai_by_reference = False, ai_const = False\<rparr>"
  "parse_param (param name ''uint16_t &'') = Some \<lparr>ai_name = name, ai_type = ''uint16_t'', ai_by_reference = True, ai_const = False\<rparr>"
  "parse_param (param name ''float'') = Some \<lparr>ai_name = name, ai_type = ''float'', ai_by_reference = False, ai_const = False\<rparr>"
  by (simp_all add: parse_param_def u32_param_def param_def plain_text check_type_def FORBIDDEN_INTS_def)

lemma text_arg_ty:
  "arg_ty_of_text ''uint32_t'' = Some (TScalar TU32)" "arg_ty_of_text ''uint16_t'' = Some (TScalar TU16)"
  "arg_ty_of_text ''float'' = Some (TScalar TFloat)"
  by (simp_all add: arg_ty_of_text_def is_std_array_text_def is_std_vector_text_def is_std_string_text_def plain_text scalar_names_def)

lemma result_text:
  "check_type ''void'' = Some ()" "check_type ''auto'' = Some ()" "check_type ''uint32_t'' = Some ()" "check_type ''uint64_t'' = Some ()"
  "check_type ''std::string'' = Some ()" "check_type ''std::array<uint32_t, mic_size>'' = Some ()"
  by (simp_all add: check_type_def FORBIDDEN_INTS_def)

text \<open>
  The generator accepts the methods of a driver, gives them the signatures \<open>sigs\<close> and the numbers of the names \<open>names\<close>, sends a
  result exactly for the methods that have one, and makes no two constants of the same name; every operation can be called from the
  client with values of the declared types.
\<close>

definition callable :: "arg_ty list \<Rightarrow> bool" where
  "callable sig \<longleftrightarrow> (\<exists>ss. sig = map TScalar ss \<and> call_compiles (map Number ss) (map Number ss))"

definition interface_of :: "string \<Rightarrow> cpp_method list \<Rightarrow> string list \<Rightarrow> arg_ty list list \<Rightarrow> cpp_type option list \<Rightarrow> bool" where
  "interface_of cls methods names sigs results \<longleftrightarrow> (case parse_driver_header cls methods of None \<Rightarrow> False
     | Some ops \<Rightarrow> signatures ops = Some sigs \<and> map op_name ops = names \<and> distinct (map op_tag ops) \<and>
         map (\<lambda>op. op_ret op = ''void'') ops = map (\<lambda>r. r = None) results \<and> list_all callable sigs)"

lemma callable_scalars: "list_all real_ty ss \<Longrightarrow> callable (map TScalar ss)"
proof -
  assume r: "list_all real_ty ss"
  have "serdes_serializable (Number s)" if "real_ty s" for s
    using that by (simp add: serdes_serializable_def compiles_as_def serdes_command_overloads_def serdes_trait_defs)
  moreover have "unpack_args (map Number ss) = map Number ss"
    by (cases "length ss = 1") (auto simp: unpack_many unpack_single decay_def length_Suc_conv)
  moreover have "map decay (map Number ss) = map Number ss" by (simp add: decay_def)
  ultimately show ?thesis using r
    unfolding callable_def call_compiles_def serdes_command_compiles_def
    by (intro exI [of _ ss]) (auto simp: list_all_iff)
qed

lemma scalar_signatures: "callable []" "real_ty s \<Longrightarrow> callable [TScalar s]" "real_ty s \<Longrightarrow> real_ty s' \<Longrightarrow> callable [TScalar s, TScalar s']"
  "real_ty s \<Longrightarrow> real_ty s' \<Longrightarrow> real_ty s'' \<Longrightarrow> callable [TScalar s, TScalar s', TScalar s'']"
  using callable_scalars [of "[]"] callable_scalars [of "[s]"] callable_scalars [of "[s, s']"] callable_scalars [of "[s, s', s'']"]
  by simp_all

lemmas interface_defs = interface_of_def parse_driver_header_def declared_def parse_header_operation_def result_text sesenta_params
  signatures_def text_arg_ty samples_type_def upper_char_def Let_def scalar_signatures

section \<open>The answers of the instrument\<close>

text \<open>An answer of the type an operation declares, which the server can send and the client can receive.\<close>

definition answer_fits :: "cpp_type option \<Rightarrow> arg option \<Rightarrow> bool" where
  "answer_fits t r = (case t of None \<Rightarrow> r = None
     | Some t \<Rightarrow> (case r of None \<Rightarrow> False | Some a \<Rightarrow> passed_as t a \<and> receivable t \<and> command_compiles [t]))"

lemma load_words_length: "load_words b d m p n w = Some (vs, w') \<Longrightarrow> length vs = n"
  by (induction n arbitrary: p w vs) (auto simp: bind_eq_Some_conv)

lemma get_mic_ith_length: "get_mic_ith b drv x w = Some (vs, w') \<Longrightarrow> length vs = mic_size"
  by (auto simp: get_mic_ith_def read_array_def bind_eq_Some_conv dest: load_words_length split: if_splits)

lemma answer_kinds:
  "answer_fits None None" "answer_fits (Some (Number TU32)) (Some (Scalar (U32 v)))" "answer_fits (Some (Number TU64)) (Some (Scalar (U64 x)))"
  "answer_fits (Some Basic_string) (Some (Container c))" "answer_fits (Some samples_type) (Some (Container (le_words vs)))"
  "length vs = mic_size \<Longrightarrow> answer_fits (Some (Std_array (Number TU32) mic_size)) (Some (Array (le_words vs)))"
proof -
  have "command_compiles [t]" if "wire_overload t \<noteq> None" "object_type t" "decay t = t" for t
    using that serializable_object(1) [of t] unpack_single [of t] by (cases t) (auto simp: command_compiles_def)
  note c = this [of "Number TU32"] this [of "Number TU64"] this [of Basic_string] this [of samples_type]
    this [of "Std_array (Number TU32) mic_size"]
  show "answer_fits None None" "answer_fits (Some (Number TU32)) (Some (Scalar (U32 v)))"
    "answer_fits (Some (Number TU64)) (Some (Scalar (U64 x)))" "answer_fits (Some Basic_string) (Some (Container c))"
    "answer_fits (Some samples_type) (Some (Container (le_words vs)))"
    "length vs = mic_size \<Longrightarrow> answer_fits (Some (Std_array (Number TU32) mic_size)) (Some (Array (le_words vs)))"
    using c by (simp_all add: answer_fits_def passed_as_def elements_fit_def samples_type_def decay_def)
qed

lemma ret_cases:
  "ret_void f w = Some (r, w') \<Longrightarrow> r = None" "ret_u32 g w = Some (r, w') \<Longrightarrow> \<exists>v. r = Some (Scalar (U32 v))"
  "ret_vector h w = Some (r, w') \<Longrightarrow> \<exists>vs. r = Some (Container (le_words vs))"
  by (auto simp: ret_void_def ret_u32_def ret_vector_def bind_eq_Some_conv split: prod.splits)

lemma with_u32_cases: "with_u32 args f w = Some y \<Longrightarrow> \<exists>x. f x w = Some y"
  by (auto simp: with_u32_def bind_eq_Some_conv)

lemma with_ret_cases:
  "with_u32 args (\<lambda>x. ret_void (f x)) w = Some (r, w') \<Longrightarrow> r = None"
  "with_u32 args (\<lambda>x. ret_vector (h x)) w = Some (r, w') \<Longrightarrow> \<exists>vs. r = Some (Container (le_words vs))"
  by (auto dest!: with_u32_cases dest: ret_cases)

lemma common_answers: "common_call P h_sts cfg op args w = Some (r, w') \<Longrightarrow> op < length common_results \<and> answer_fits (common_results ! op) r"
  by (auto simp: common_call_def common_results_def answer_kinds bind_eq_Some_conv split: if_splits prod.splits)

lemma dma_answers: "dma_call P drv op args w = Some (r, w') \<Longrightarrow> op < length dma_results \<and> answer_fits (dma_results ! op) r"
  by (auto simp: dma_call_def dma_results_def answer_kinds bind_eq_Some_conv dest!: ret_cases split: if_splits)

lemma sesenta_answers:
  assumes "sesenta_call P drv op args w = Some (r, w')" shows "op < length sesenta_results \<and> answer_fits (sesenta_results ! op) r"
proof -
  note eq = nth_Cons_numeral sesenta_results_def answer_kinds
  have arr: "answer_fits (Some (Std_array (Number TU32) mic_size)) r" if "with_u32 args (\<lambda>x (h, bf). do {
       (vs, h) \<leftarrow> get_mic_ith (p_bus P) drv x h; Some (Some (Array (le_words vs)), h, bf) }) w = Some (r, w')"
    using with_u32_cases [OF that] get_mic_ith_length by (fastforce simp: answer_kinds bind_eq_Some_conv split: prod.splits)
  have ith: "\<exists>vs. r = Some (Container (le_words vs))" if "with_u32 args (\<lambda>x w. do {
       y \<leftarrow> arg_u32 1 args; ret_vector (get_mics_ith (p_bus P) (p_sleep P) (p_ms P) drv x y) w }) w = Some (r, w')"
    using with_u32_cases [OF that] by (auto simp: bind_eq_Some_conv dest: ret_cases(3))
  show ?thesis
    using assms unfolding sesenta_call_def
    by (auto simp: eq split: if_splits prod.splits dest!: arr ith ret_cases with_ret_cases simp del: One_nat_def)
qed

section \<open>Properties\<close>




text \<open>
  C22: for arguments whose spelling it recognises, the generator makes the packs of the model, and finds out whether one of them has a
  length of its own. When none has and the size it asserts fits into the payload buffer, every command with arguments of these
  types fits, and has exactly this size.
\<close>
theorem generator_packs:
  assumes "build_all arg_ty_of_text tys = Some ts"
  shows "build_all pack_of_text (fst (gen_args_packs tys [])) = Some (build_args_packs ts []) \<and>
    (snd (gen_args_packs tys []) \<longleftrightarrow> list_ex dynamic ts) \<and>
    (\<not> snd (gen_args_packs tys []) \<and> req_buff_size (build_args_packs ts []) \<le> CMD_PAYLOAD_BUFFER_LEN \<and> list_all2 (arg_matches lim) ts args \<longrightarrow>
      length (concat (map enc_arg args)) = req_buff_size (build_args_packs ts []) \<and>
      length (concat (map enc_arg args)) \<le> CMD_PAYLOAD_BUFFER_LEN)"
  using gen_args_packs_meaning [OF assms, of "[]" "[]"] req_buff_size_args [of lim ts args "[]"] by auto

lemma array_text: "arg_ty_of_text ''std::array<float, 10>'' = Some (TArray 4 10)"
proof -
  have a: "is_std_array_text ''std::array<float, 10>''" by (simp add: is_std_array_text_def strip_def is_space_def)
  have p: "get_std_array_params ''std::array<float, 10>'' = Some (''float'', ''10'')"
    by (simp add: get_std_array_params_def template_args_def field_def strip_def is_space_def)
  have n: "to_int ''10'' = 10" "list_all is_digit ''10''" by (simp_all add: to_int_def is_digit_def)
  show ?thesis unfolding arg_ty_of_text_def p using a n by (simp add: scalar_names_def)
qed

theorem generator_packs_witness:
  "build_all pack_of_text (fst (gen_args_packs [''uint16_t'', ''uint32_t'', ''std::array<float, 10>'', ''uint32_t''] [])) =
     Some [ScalarPack [TU16, TU32], ArrayPack 4 10, ScalarPack [TU32]] \<and>
   length (concat (map enc_arg [Scalar (U16 1), Scalar (U32 2), Array (replicate 40 0), Scalar (U32 3)])) = 50"
proof -
  let ?tys = "[''uint16_t'', ''uint32_t'', ''std::array<float, 10>'', ''uint32_t'']"
  let ?ts = "[TScalar TU16, TScalar TU32, TArray 4 10, TScalar TU32]"
  have tys: "build_all arg_ty_of_text ?tys = Some ?ts" by (simp add: text_arg_ty array_text)
  have args: "list_all2 (arg_matches 100) ?ts [Scalar (U16 1), Scalar (U32 2), Array (replicate 40 0), Scalar (U32 3)]" by simp
  have packs: "build_args_packs ?ts [] = [ScalarPack [TU16, TU32], ArrayPack 4 10, ScalarPack [TU32]]" by (simp add: scalar_pack_def)
  note g = generator_packs [OF tys, of 100 "[Scalar (U16 1), Scalar (U32 2), Array (replicate 40 0), Scalar (U32 3)]", unfolded packs]
  have "\<not> snd (gen_args_packs ?tys [])" using conjunct1 [OF conjunct2 [OF g]] by simp
  moreover have "req_buff_size [ScalarPack [TU16, TU32], ArrayPack 4 10, ScalarPack [TU32]] = 50" by (simp add: req_buff_size_def)
  moreover have "(50 :: nat) \<le> CMD_PAYLOAD_BUFFER_LEN" by (simp add: CMD_PAYLOAD_BUFFER_LEN_def)
  ultimately show ?thesis using conjunct1 [OF g] conjunct2 [OF conjunct2 [OF g]] args by metis
qed

section \<open>The text of a call\<close>

definition get_mics_info :: op_info where
  "get_mics_info = \<lparr>op_tag = ''GET_MICS'', op_name = ''get_mics'', op_ret = ''auto'',
     op_args = [\<lparr>ai_name = ''samples'', ai_type = ''uint32_t'', ai_by_reference = False, ai_const = False\<rparr>]\<rparr>"

lemma decimal_4_11: "decimal 4 = ''4''" "decimal 11 = ''11''"
  by (simp_all add: decimal.simps char_of_def bit_Suc_0_iff)

lemma get_mics_call:
  "generate_call ''Sesenta'' 4 11 get_mics_info =
     ''    return cmd.session->send<4, 11>(__Sesenta.get_mics(args_get_mics.samples));'' @ newline"
  by (simp add: generate_call_def build_func_call_def get_mics_info_def decimal_4_11)

lemma get_mics_ret_type:
  "get_exact_ret_type ''Sesenta'' get_mics_info = ''decltype(std::declval<Sesenta>().get_mics(std::declval<uint32_t>()))''"
  by (simp add: get_exact_ret_type_def has_auto_def get_mics_info_def)

lemma dma_tag: "driver_tag ''DmaS2MM'' = ''DMA_S2_M_M''"
  by (simp add: driver_tag_def is_upper_def upper_char_def char_of_def bit_Suc_0_iff)

end
