(* ===== verification/WebSocket_Session.thy ===== *)
theory WebSocket_Session
  imports Session
begin

text \<open>
  A session over WebSocket from its construction to its end (\<^verbatim>\<open>src/server/core/session.hpp\<close>, \<^verbatim>\<open>websocket.cpp\<close>): the handshake, a
  command in each frame, and the end of the connection. In contrast to a TCP session the arguments of a command are in memory
  when it is executed, so an operation cannot lose its place in the stream.
\<close>

section \<open>Commands in frames\<close>

text \<open>The opcode and the key the client chooses for the frame of a command.\<close>

type_synonym ws_call = "byte \<times> byte list \<times> call"

fun enc_ws_call :: "ws_call \<Rightarrow> byte list" where
  "enc_ws_call (opc, key, c) = client_frame opc key (enc_call c)"

definition ws_calls :: "ws_call list \<Rightarrow> call list" where
  "ws_calls cs = map (\<lambda>(opc, key, c). c) cs"

fun frame_fits :: "ws_call \<Rightarrow> bool" where
  "frame_fits (opc, key, d, p, args) \<longleftrightarrow> opc \<in> {1, 2} \<and> length key = 4 \<and> (let n = 8 + length (concat (map enc_arg args)) in
     n \<le> WEBSOCK_READ_STR_LEN - 56 \<and> client_head_size n + n \<noteq> KOHERON_READ_STR_LEN)"

text \<open>
  What the loop relies on of \<open>driver_manager.execute\<close>: it takes the arguments from the payload, whatever is behind them, leaves the
  stream and the frame header alone and the connection open.
\<close>

definition executes_ws :: "('w \<Rightarrow> bool) \<Rightarrow> 'w executor \<Rightarrow> ('w \<Rightarrow> byte list) \<Rightarrow> ('w \<Rightarrow> call list) \<Rightarrow> call set \<Rightarrow> bool" where
  "executes_ws good execute peer history calls \<longleftrightarrow> (\<forall>cmd s w d p args junk.
     (d, p, args) \<in> calls \<longrightarrow> driver cmd = unat d \<longrightarrow> operation cmd = int (unat p) \<longrightarrow> payload_ok cmd \<longrightarrow>
     unread (payload cmd) = concat (map enc_arg args) @ junk \<longrightarrow> length (concat (map enc_arg args)) \<le> CMD_PAYLOAD_BUFFER_LEN \<longrightarrow>
     status s \<longrightarrow> sess_type s = WEBSOCK \<longrightarrow> ws_bufs (websock s) \<longrightarrow> \<not> connection_closed (websock s) \<longrightarrow> good w \<longrightarrow>
     (\<exists>r s' w'. execute cmd s w = Some (r, s', w') \<and> peer w' = peer w \<and> good w' \<and> history w' = history w @ [(d, p, args)] \<and>
        status s' \<and> sess_type s' = WEBSOCK \<and> ws_bufs (websock s') \<and> \<not> connection_closed (websock s') \<and>
        ws_header (websock s') = ws_header (websock s)))"

lemma executes_wsD:
  assumes "executes_ws good execute peer history calls" and "(d, p, args) \<in> calls" and "driver cmd = unat d"
    and "operation cmd = int (unat p)" and "payload_ok cmd" and "\<exists>junk. unread (payload cmd) = concat (map enc_arg args) @ junk"
    and "length (concat (map enc_arg args)) \<le> CMD_PAYLOAD_BUFFER_LEN" and "status s" and "sess_type s = WEBSOCK"
    and "ws_bufs (websock s)" and "\<not> connection_closed (websock s)" and "good w"
  obtains r s' w' where "execute cmd s w = Some (r, s', w')" and "peer w' = peer w" and "good w'"
    and "history w' = history w @ [(d, p, args)]" and "status s'" and "sess_type s' = WEBSOCK" and "ws_bufs (websock s')"
    and "\<not> connection_closed (websock s')" and "ws_header (websock s') = ws_header (websock s)"
  using assms unfolding executes_ws_def by metis

section \<open>The loop\<close>

lemma ws_read_command_keeps:
  assumes "reads_keep P rd" and "P w" and "ws_read_command rd sid w ws cmd = Some (r, ws', cmd', w')"
  shows "P w'"
  using assms(3) receive_cmd_keeps [OF assms(1,2)]
  by (auto simp: ws_read_command_def bind_eq_Some_conv split: if_splits)

lemma run_loop_ws:
  assumes rd: "stream_source rd peer" and eof: "at_end rd (\<lambda>w. peer w = [])"
    and sig: "\<And>w. \<not> sig w" and ex: "executes_ws good execute peer history calls"
    and keep: "\<And>w n. history (snd (rd w n)) = history w" "\<And>w n. good (snd (rd w n)) = good w"
    and cmd0: "command_ok cmd0" "buf_pos (header cmd0) = HEADER_START" "buf_pos (payload cmd0) = 0"
  shows "list_all frame_fits cs \<Longrightarrow> set (ws_calls cs) \<subseteq> calls \<Longrightarrow> peer w = concat (map enc_ws_call cs) \<Longrightarrow>
    status s \<Longrightarrow> sess_type s = WEBSOCK \<Longrightarrow> ws_bufs (websock s) \<Longrightarrow> \<not> connection_closed (websock s) \<Longrightarrow> good w \<Longrightarrow>
    cs \<noteq> [] \<or> 0 < payload_size (ws_header (websock s)) \<Longrightarrow>
    \<exists>s' w'. run_loop sig rd wr execute cmd0 w s = Some (0, s', w') \<and> history w' = history w @ ws_calls cs \<and> good w'"
proof (induction cs arbitrary: w s)
  case Nil
  have k: "reads_keep (\<lambda>w'. history w' = history w \<and> good w') rd" using keep by (simp add: reads_keep_def)
  have "peer w = []" "0 < payload_size (ws_header (websock s))" using Nil.prems(3,9) by simp_all
  from receive_cmd_closed(1) [OF eof this(1) Nil.prems(6,7) this(2), of cmd0]
  obtain ws' w' where 1: "receive_cmd rd w (websock s) cmd0 = Some (0, ws', cmd0, w')" "connection_closed ws'"
    by blast
  have "history w' = history w \<and> good w'" using receive_cmd_keeps [OF k _ 1(1)] Nil.prems(8) by simp
  then show ?case
    using sig Nil.prems(5) 1 by (simp add: run_loop.simps read_command_def ws_read_command_def ws_calls_def)
next
  case (Cons c cs)
  obtain opc key d p args where c: "c = (opc, key, d, p, args)" by (cases c)
  let ?body = "concat (map enc_arg args)"
  have w: "peer w = client_frame opc key (enc_header d p @ ?body) @ concat (map enc_ws_call cs)"
    using Cons.prems(3) c by simp
  have fit: "opc \<in> {1, 2}" "length key = 4" "8 + length ?body \<le> WEBSOCK_READ_STR_LEN - 56"
    "client_head_size (8 + length ?body) + 8 + length ?body \<noteq> KOHERON_READ_STR_LEN"
    using Cons.prems(1) c by (simp_all add: Let_def)
  have k: "reads_keep (\<lambda>w'. history w' = history w \<and> good w') rd" using keep by (simp add: reads_keep_def)
  obtain cmd1 ws1 w1 where 1: "ws_read_command rd (sess_id s) w (websock s) cmd0 = Some (8, ws1, cmd1, w1)"
      "peer w1 = concat (map enc_ws_call cs)" "ws_ok ws1" "\<not> connection_closed ws1"
      "payload_size (ws_header ws1) = int (8 + length ?body)" "driver cmd1 = unat d" "operation cmd1 = int (unat p)"
      "payload_ok cmd1" "\<exists>junk. unread (payload cmd1) = ?body @ junk"
    by (rule ws_read_command_frame [OF rd w fit(1,2) Cons.prems(6,7) fit(3,4) cmd0])
  have d1: "history w1 = history w" "good w1" using ws_read_command_keeps [OF k _ 1(1)] Cons.prems(8) by simp_all
  have lim: "length ?body \<le> CMD_PAYLOAD_BUFFER_LEN" using fit(3) by (simp add: buffer_lengths)
  let ?s1 = "s\<lparr>websock := ws1\<rparr>"
  have call: "(d, p, args) \<in> calls" using Cons.prems(2) c by (simp add: ws_calls_def)
  obtain r s2 w2 where 2: "execute cmd1 ?s1 w1 = Some (r, s2, w2)" "peer w2 = peer w1" "good w2"
      "history w2 = history w1 @ [(d, p, args)]" "status s2" "sess_type s2 = WEBSOCK" "ws_bufs (websock s2)"
      "\<not> connection_closed (websock s2)" "ws_header (websock s2) = ws_header (websock ?s1)"
    by (rule executes_wsD [OF ex call 1(6-9) lim, of ?s1 w1])
      (use Cons.prems(4,5) ws_ok_bufs [OF 1(3)] 1(4) d1(2) in simp_all)
  have "cs \<noteq> [] \<or> 0 < payload_size (ws_header (websock s2))" using 1(5) 2(9) by simp
  then obtain s' w' where 3: "run_loop sig rd wr execute cmd0 w2 s2 = Some (0, s', w')" "history w' = history w2 @ ws_calls cs" "good w'"
    using Cons.IH [of w2 s2] Cons.prems(1,2) 1(2) 2 by (auto simp: ws_calls_def)
  have "run_loop sig rd wr execute cmd0 w s = run_loop sig rd wr execute cmd0 w2 s2"
    using sig Cons.prems(5) 1(1) 2(1,5)
    by (subst run_loop.simps) (simp add: read_command_def)
  then show ?case using 3 2(4) d1 c by (simp add: ws_calls_def)
qed

section \<open>A concrete session\<close>

text \<open>The packets of the peer, the bytes sent to it, and the calls that were executed.\<close>

type_synonym ws_logged = "byte list list \<times> byte list \<times> call list"

definition logged_write :: "ws_logged writer" where
  "logged_write w xs = (case w of (pk, out, log) \<Rightarrow> (int (length xs), pk, out @ xs, log))"

definition ws_logging_exec :: "arg_ty list \<Rightarrow> ws_logged executor" where
  "ws_logging_exec ts cmd s w = do {
     (args, _) \<leftarrow> parse_args (ws_ops []) ts cmd;
     case args of
       None \<Rightarrow> Some (- 1, s, w)
     | Some as \<Rightarrow> Some (0, s, fst w, fst (snd w), snd (snd w) @ [(of_nat (driver cmd), word_of_int (operation cmd), as)]) }"

lemma logged_write_sink: "stream_sink logged_write (\<lambda>w. fst (snd w))"
  by (auto simp: stream_sink_def logged_write_def)

lemma logged_read_at_end: "at_end logged_read (\<lambda>w. concat (fst w) = [])"
proof -
  have "concat p = [] \<Longrightarrow> packet_read p n = (RdBytes [], [])" for p n
    by (induction p n rule: packet_read.induct) auto
  then show ?thesis by (simp add: at_end_def logged_read_def)
qed

lemma ws_logging_exec_executes:
  "executes_ws (\<lambda>_. True) (ws_logging_exec ts) (\<lambda>w. concat (fst w)) (\<lambda>w. snd (snd w))
    {(d, p, args). list_all2 (arg_matches CMD_PAYLOAD_BUFFER_LEN) ts args}"
  unfolding executes_ws_def
proof (intro allI impI, elim CollectE case_prodE, goal_cases)
  case (1 cmd s w d p args junk)
  then obtain cmd' where "parse_args (ws_ops []) ts cmd = Some (Some args, cmd')"
    using ws.parse_args_enc [of ts args cmd junk "[]"] by auto
  with 1 show ?case by (simp add: ws_logging_exec_def)
qed

section \<open>Properties\<close>

text \<open>
  C6: a WebSocket session from its construction: after the handshake it executes the command of every frame its client sent, exactly
  once and in the order they were sent, keeps the invariant the operations rely on, and ends with 0 when the client closes the
  connection. Without a frame the result is not determined, because the header of the last frame is not initialised.
\<close>
theorem ws_session_run:
  assumes "stream_source rd peer" and "at_end rd (\<lambda>w. peer w = [])" and "stream_sink wr sent"
    and "\<And>w. \<not> sig w" and "executes_ws good execute peer history calls"
    and "\<And>w n. history (snd (rd w n)) = history w" and "\<And>w n. good (snd (rd w n)) = good w"
    and "\<And>w xs. peer (snd (wr w xs)) = peer w \<and> history (snd (wr w xs)) = history w \<and> good (snd (wr w xs)) = good w"
    and "command_ok cmd0" and "buf_pos (header cmd0) = HEADER_START" and "buf_pos (payload cmd0) = 0"
    and "length send_mem = WEBSOCK_SEND_BUF_LEN"
    and "rd w WEBSOCK_READ_STR_LEN = (RdBytes req, w1)" and "0 \<notin> set req" and "length req < WEBSOCK_READ_STR_LEN"
    and "length req \<noteq> KOHERON_READ_STR_LEN" and "find_sub (crlf @ crlf) req 0 \<noteq> None"
    and "req = pre @ WSKeyIdentifier @ key @ post" and "length key = 24" and "find_sub WSKeyIdentifier req 0 = Some (length pre)"
    and "peer w1 = concat (map enc_ws_call cs)" and "cs \<noteq> []" and "list_all frame_fits cs" and "set (ws_calls cs) \<subseteq> calls"
    and "good w"
  shows "\<exists>s' w'. session_run sig rd wr execute cmd0 w (new_session WEBSOCK fd sid hdr send_mem scal_mem) = Some (0, s', w') \<and>
    history w' = history w @ ws_calls cs \<and> good w'"
proof -
  let ?s = "new_session WEBSOCK fd sid hdr send_mem scal_mem"
  let ?ws = "set_id fd (new_websocket hdr send_mem)"
  have ws: "ws_bufs ?ws" "\<not> connection_closed ?ws" "read_str_len ?ws = 0" "\<forall>x \<in> set (read_str ?ws). x = 0"
    using new_websocket_bufs [OF assms(12)] by (simp_all add: set_id_def new_websocket_def)
  obtain r ws' w2 where 1: "authenticate rd wr w ?ws = Some (r, ws', w2)" "0 < r" "ws_bufs ws'" "\<not> connection_closed ws'"
    using authenticate_request [where rd = rd and wr = wr and w = w and sent = sent, OF assms(3) ws assms(13-20)] by blast
  have "keeps (\<lambda>w'. peer w' = concat (map enc_ws_call cs) \<and> history w' = history w \<and> good w') (authenticate rd wr w ?ws)"
    by (rule authenticate_keeps) (use assms(6) [of w WEBSOCK_READ_STR_LEN] assms(7) [of w WEBSOCK_READ_STR_LEN] assms(8,13,21,25) in simp_all)
  then have 2: "peer w2 = concat (map enc_ws_call cs)" "history w2 = history w" "good w2" using 1(1) by simp_all
  let ?s1 = "?s\<lparr>websock := ws'\<rparr>"
  have "session_run sig rd wr execute cmd0 w ?s = run_loop sig rd wr execute cmd0 w2 ?s1"
    using 1(1,2) by (simp add: session_run_def init_socket_def new_session_def)
  moreover have "\<exists>s' w'. run_loop sig rd wr execute cmd0 w2 ?s1 = Some (0, s', w') \<and> history w' = history w2 @ ws_calls cs \<and> good w'"
  proof (rule run_loop_ws [where peer = peer and history = history and good = good and calls = calls and cs = cs, OF assms(1,2,4-7,9-11,23,24) 2(1)])
    show "status ?s1" "sess_type ?s1 = WEBSOCK" by (simp_all add: new_session_def)
    show "ws_bufs (websock ?s1)" "\<not> connection_closed (websock ?s1)" using 1(3,4) by simp_all
    show "good w2" by (rule 2(3))
    show "cs \<noteq> [] \<or> 0 < payload_size (ws_header (websock ?s1))" using assms(22) by simp
  qed
  ultimately show ?thesis using 2(2) by simp
qed

definition example_frames :: "ws_call list" where
  "example_frames = [(2, [1, 2, 3, 4], 2, 1, [Scalar (U32 5)]), (2, [9, 0, 0, 7], 2, 1, [Scalar (U32 6)])]"

definition garbage_header :: frame_header where
  "garbage_header = \<lparr>header_size = 4294967295, mask_offset = - 1, payload_size = - 7, fin = False, masked = True, opcode = 9\<rparr>"

theorem ws_session_run_witness:
  "\<exists>s' w'. session_run (\<lambda>_. False) logged_read logged_write (ws_logging_exec [TScalar TU32]) example_cmd
      (example_request # map enc_ws_call example_frames, [], [])
      (new_session WEBSOCK 3 0 garbage_header (replicate WEBSOCK_SEND_BUF_LEN 0) (replicate 1024 7)) = Some (0, s', w') \<and>
    snd (snd w') = [(2, 1, [Scalar (U32 5)]), (2, 1, [Scalar (U32 6)])]"
proof -
  let ?w = "(example_request # map enc_ws_call example_frames, [], []) :: ws_logged"
  have "\<exists>s' w'. session_run (\<lambda>_. False) logged_read logged_write (ws_logging_exec [TScalar TU32]) example_cmd ?w
      (new_session WEBSOCK 3 0 garbage_header (replicate WEBSOCK_SEND_BUF_LEN 0) (replicate 1024 7)) = Some (0, s', w') \<and>
    snd (snd w') = snd (snd ?w) @ ws_calls example_frames \<and> True"
  proof (rule ws_session_run [where peer = "\<lambda>w. concat (fst w)" and sent = "\<lambda>w. fst (snd w)" and good = "\<lambda>_. True" and
        calls = "{(d, p, args). list_all2 (arg_matches CMD_PAYLOAD_BUFFER_LEN) [TScalar TU32] args}" and
        pre = "bytes_of ''GET / HTTP/1.1'' @ crlf" and key = "bytes_of ''dGhlIHNhbXBsZSBub25jZQ==''" and post = "crlf @ crlf" and
        req = example_request and ?w1.0 = "([] # map enc_ws_call example_frames, [], [])"])
    show "logged_read ?w WEBSOCK_READ_STR_LEN = (RdBytes example_request, [] # map enc_ws_call example_frames, [], [])"
      by (simp add: logged_read_def example_request_def bytes_of_def crlf_def WSKeyIdentifier_def buffer_lengths)
    show "list_all frame_fits example_frames"
      by (simp add: example_frames_def buffer_lengths client_head_size_def)
  qed (rule ws_logging_exec_executes logged_read_stream logged_read_at_end logged_write_sink |
      simp add: logged_read_keeps logged_write_def example_cmd_def new_command_def command_ok_def example_request_def bytes_of_def
        crlf_def WSKeyIdentifier_def buffer_lengths example_frames_def ws_calls_def split: prod.split)+
  then show ?thesis by (simp add: ws_calls_def example_frames_def)
qed

end
