(* ===== verification/Threads.thy ===== *)
theory Threads
  imports Drivers_Manager
begin

text \<open>
  The threads of the sessions over the drivers manager and the drivers (\<^verbatim>\<open>src/server/core/drivers_manager.cpp\<close>,
  \<^verbatim>\<open>src/server/templates/interface_driver.cpp\<close>), step by step: \<open>is_started\<close> is tested without a lock and again under the recursive
  mutex of the manager, and a driver reads the arguments of a command into its own structure and runs the operation under a
  mutex of its own. Every rule is one access to shared state, and threads interleave between any two of them. (The language
  does not promise this for \<open>is_started\<close>, a plain array of \<open>bool\<close> that is read without the lock; the processor does.)
\<close>

section \<open>Allocation in steps\<close>

text \<open>
  The constructors that are running, the innermost first. \<open>Construct k ds\<close> still has to get the drivers \<open>ds\<close>; a constructed
  driver is published in \<open>device_list\<close> and then marked in \<open>is_started\<close>.
\<close>

datatype frame = Construct nat "nat list" | Publish nat | Mark nat

primrec frame_driver :: "frame \<Rightarrow> nat" where
  "frame_driver (Construct k ds) = k"
| "frame_driver (Publish k) = k"
| "frame_driver (Mark k) = k"

text \<open>\<open>alloc_driver\<close> and \<open>DriverContainer::alloc\<close> up to the constructor.\<close>

definition alloc_enter :: "(nat \<Rightarrow> nat list) \<Rightarrow> nat \<Rightarrow> driver_manager \<Rightarrow> frame list \<times> driver_manager" where
  "alloc_enter deps k s =
     (if m_started s ! k then ([], s)
      else if c_started (container s) ! k then ([Publish k], s)
      else if c_starting (container s) ! k then ([], s\<lparr>dm_exit_all := True\<rparr>)
      else ([Construct k (deps k)], set_container (\<lambda>c. c\<lparr>c_starting := (c_starting c)[k := True]\<rparr>) s))"

definition dereference :: "nat \<Rightarrow> driver_manager \<Rightarrow> driver_manager" where
  "dereference d s = (if driver_tuple (container s) ! d then s else s\<lparr>null_ref := True\<rparr>)"

fun alloc_step :: "(nat \<Rightarrow> nat list) \<Rightarrow> frame list \<Rightarrow> driver_manager \<Rightarrow> frame list \<times> driver_manager" where
  "alloc_step deps [] s = ([], s)"
| "alloc_step deps (Construct k [] # st) s =
     (Publish k # st, set_container (\<lambda>c. c\<lparr>driver_tuple := (driver_tuple c)[k := True],
        c_starting := (c_starting c)[k := False], c_started := (c_started c)[k := True]\<rparr>) (s\<lparr>built := built s @ [k]\<rparr>))"
| "alloc_step deps (Construct k (d # ds) # st) s =
     (if m_started s ! d then (Construct k ds # st, dereference d s)
      else let (fs, s) = alloc_enter deps d s in
        if fs = [] then (Construct k ds # st, dereference d s) else (fs @ Construct k (d # ds) # st, s))"
| "alloc_step deps (Publish k # st) s = (Mark k # st, s\<lparr>device_list := (device_list s)[k := True]\<rparr>)"
| "alloc_step deps (Mark k # st) s = (st, s\<lparr>m_started := (m_started s)[k := True]\<rparr>)"

section \<open>The threads\<close>

text \<open>
  Where a session thread is: waiting for a command, before the test of \<open>is_started\<close>, waiting for the mutex of the manager,
  in \<open>alloc_driver\<close> with that mutex, before the driver, and with the mutex of the driver: reading the arguments of the operation
  \<open>p\<close>, of which it has got some, or in the method.
\<close>

datatype 'v pc =
    Reading
  | Test nat nat
  | Want nat nat
  | Alloc nat nat "frame list"
  | Device nat nat
  | Parse nat nat "'v list"
  | Method nat nat "'v list"

text \<open>
  \<open>slots k p i\<close> is the argument \<open>i\<close> in the structure \<open>args_p\<close> of driver \<open>k\<close>. \<open>calls\<close> and \<open>asked\<close> are histories: the calls of methods
  with the arguments they read, and the commands each client has had executed.
\<close>

record 'v threads_state =
  mgr :: driver_manager
  mgr_owner :: "nat option"
  drv_owner :: "nat \<Rightarrow> nat option"
  at :: "nat \<Rightarrow> 'v pc"
  slots :: "nat \<Rightarrow> nat \<Rightarrow> nat \<Rightarrow> 'v"
  calls :: "(nat \<times> nat \<times> nat \<times> 'v list) list"
  asked :: "nat \<Rightarrow> (nat \<times> nat \<times> 'v list) list"

abbreviation goto :: "nat \<Rightarrow> 'v pc \<Rightarrow> 'v threads_state \<Rightarrow> 'v threads_state" where
  "goto t c s \<equiv> s\<lparr>at := (at s)(t := c)\<rparr>"

text \<open>\<open>arity k p\<close> is the number of arguments of an operation.\<close>

inductive mt_step :: "(nat \<Rightarrow> nat list) \<Rightarrow> nat \<Rightarrow> (nat \<Rightarrow> nat \<Rightarrow> nat) \<Rightarrow> nat \<Rightarrow> 'v threads_state \<Rightarrow> 'v threads_state \<Rightarrow> bool"
  for deps n arity t where
  header: "at s t = Reading \<Longrightarrow> k < n \<Longrightarrow> mt_step deps n arity t s (goto t (Test k p) s)"
| is_started: "at s t = Test k p \<Longrightarrow> m_started (mgr s) ! k \<Longrightarrow> mt_step deps n arity t s (goto t (Device k p) s)"
| not_started: "at s t = Test k p \<Longrightarrow> \<not> m_started (mgr s) ! k \<Longrightarrow> mt_step deps n arity t s (goto t (Want k p) s)"
| lock_manager: "at s t = Want k p \<Longrightarrow> mgr_owner s = None \<Longrightarrow> alloc_enter deps k (mgr s) = (st, m) \<Longrightarrow>
    mt_step deps n arity t s (goto t (Alloc k p st) (s\<lparr>mgr := m, mgr_owner := Some t\<rparr>))"
| allocate: "at s t = Alloc k p (f # st) \<Longrightarrow> alloc_step deps (f # st) (mgr s) = (st', m) \<Longrightarrow>
    mt_step deps n arity t s (goto t (Alloc k p st') (s\<lparr>mgr := m\<rparr>))"
| unlock_manager: "at s t = Alloc k p [] \<Longrightarrow> mt_step deps n arity t s (goto t (Device k p) (s\<lparr>mgr_owner := None\<rparr>))"
| no_device: "at s t = Device k p \<Longrightarrow> \<not> device_list (mgr s) ! k \<Longrightarrow>
    mt_step deps n arity t s (goto t Reading (s\<lparr>mgr := (mgr s)\<lparr>null_ref := True\<rparr>\<rparr>))"
| lock_driver: "at s t = Device k p \<Longrightarrow> device_list (mgr s) ! k \<Longrightarrow> drv_owner s k = None \<Longrightarrow>
    mt_step deps n arity t s (goto t (Parse k p []) (s\<lparr>drv_owner := (drv_owner s)(k := Some t)\<rparr>))"
| argument: "at s t = Parse k p got \<Longrightarrow> length got < arity k p \<Longrightarrow>
    mt_step deps n arity t s (goto t (Parse k p (got @ [v]))
      (s\<lparr>slots := (slots s)(k := (slots s k)(p := (slots s k p)(length got := v)))\<rparr>))"
| refuse: "at s t = Parse k p got \<Longrightarrow>
    mt_step deps n arity t s (goto t Reading (s\<lparr>drv_owner := (drv_owner s)(k := None)\<rparr>))"
| call_method: "at s t = Parse k p got \<Longrightarrow> length got = arity k p \<Longrightarrow> mt_step deps n arity t s (goto t (Method k p got) s)"
| return_method: "at s t = Method k p got \<Longrightarrow>
    mt_step deps n arity t s (goto t Reading (s\<lparr>drv_owner := (drv_owner s)(k := None),
      calls := calls s @ [(t, k, p, map (slots s k p) [0 ..< arity k p])], asked := (asked s)(t := asked s t @ [(k, p, got)])\<rparr>))"

inductive_cases mt_stepE: "mt_step deps n arity t s s'"

definition threads_start :: "nat \<Rightarrow> (nat \<Rightarrow> nat \<Rightarrow> nat \<Rightarrow> 'v) \<Rightarrow> 'v threads_state" where
  "threads_start n mem = \<lparr>mgr = new_driver_manager n, mgr_owner = None, drv_owner = (\<lambda>k. None), at = (\<lambda>t. Reading), slots = mem,
     calls = [], asked = (\<lambda>t. [])\<rparr>"

definition any_step :: "(nat \<Rightarrow> nat list) \<Rightarrow> nat \<Rightarrow> (nat \<Rightarrow> nat \<Rightarrow> nat) \<Rightarrow> 'v threads_state \<Rightarrow> 'v threads_state \<Rightarrow> bool" where
  "any_step deps n arity s s' \<longleftrightarrow> (\<exists>t. mt_step deps n arity t s s')"

section \<open>The invariant of an allocation\<close>

text \<open>The constructors \<open>st\<close> are waiting for driver \<open>k\<close>; the drivers \<open>B\<close> are constructed.\<close>

fun waits_for :: "(nat \<Rightarrow> nat list) \<Rightarrow> nat set \<Rightarrow> nat \<Rightarrow> frame list \<Rightarrow> bool" where
  "waits_for deps B k [] \<longleftrightarrow> True"
| "waits_for deps B k (Construct j ds # st) \<longleftrightarrow> ds \<noteq> [] \<and> hd ds = k \<and> set ds \<subseteq> set (deps j) \<and> set (deps j) \<subseteq> B \<union> set ds \<and>
     waits_for deps B j st"
| "waits_for deps B k (f # st) \<longleftrightarrow> False"

fun nested :: "(nat \<Rightarrow> nat list) \<Rightarrow> nat set \<Rightarrow> frame list \<Rightarrow> bool" where
  "nested deps B [] \<longleftrightarrow> True"
| "nested deps B (Construct k ds # st) \<longleftrightarrow> set ds \<subseteq> set (deps k) \<and> set (deps k) \<subseteq> B \<union> set ds \<and> k \<notin> B \<and> waits_for deps B k st"
| "nested deps B (Publish k # st) \<longleftrightarrow> k \<in> B \<and> waits_for deps B k st"
| "nested deps B (Mark k # st) \<longleftrightarrow> k \<in> B \<and> waits_for deps B k st"

definition constructing :: "frame list \<Rightarrow> nat set" where
  "constructing st = {k. \<exists>ds. Construct k ds \<in> set st}"

definition alloc_ok :: "(nat \<Rightarrow> nat list) \<Rightarrow> nat \<Rightarrow> frame list \<Rightarrow> driver_manager \<Rightarrow> bool" where
  "alloc_ok deps n st s \<longleftrightarrow> length (m_started s) = n \<and> length (device_list s) = n \<and>
     length (c_started (container s)) = n \<and> length (c_starting (container s)) = n \<and> length (driver_tuple (container s)) = n \<and>
     distinct (built s) \<and> set (built s) \<subseteq> {..<n} \<and> dep_closed deps (built s) \<and> \<not> null_ref s \<and> \<not> dm_exit_all s \<and>
     nested deps (set (built s)) st \<and> constructing st \<subseteq> {..<n} - set (built s) \<and>
     (\<forall>k < n. (c_started (container s) ! k \<longleftrightarrow> k \<in> set (built s)) \<and> (driver_tuple (container s) ! k \<longleftrightarrow> k \<in> set (built s)) \<and>
       (c_starting (container s) ! k \<longleftrightarrow> k \<in> constructing st) \<and>
       (device_list s ! k \<longleftrightarrow> k \<in> set (built s) \<and> Publish k \<notin> set st) \<and>
       (m_started s ! k \<longleftrightarrow> k \<in> set (built s) \<and> Publish k \<notin> set st \<and> Mark k \<notin> set st))"

lemma constructing_simps [simp]:
  "constructing [] = {}" "constructing (Construct k ds # st) = insert k (constructing st)"
  "constructing (Publish k # st) = constructing st" "constructing (Mark k # st) = constructing st"
  by (auto simp: constructing_def)

lemma waits_for_frames: "waits_for deps B k st \<Longrightarrow> Publish j \<notin> set st \<and> Mark j \<notin> set st"
  by (induction deps B k st rule: waits_for.induct) auto

lemma waits_for_path: "waits_for deps B k st \<Longrightarrow> j \<in> constructing st \<Longrightarrow> (k, j) \<in> (dep_rel deps)\<^sup>+"
proof (induction deps B k st rule: waits_for.induct)
  case (2 deps B k j' ds st)
  then have "k \<in> set (deps j')" using hd_in_set [of ds] by auto
  then have k: "(k, j') \<in> dep_rel deps" by (simp add: dep_rel_def)
  show ?case
  proof (cases "j = j'")
    case False
    then have "(j', j) \<in> (dep_rel deps)\<^sup>+" using 2 by auto
    then show ?thesis using k by (rule trancl_into_trancl2 [rotated])
  qed (use k in auto)
qed auto

lemma waits_for_mono: "waits_for deps B k st \<Longrightarrow> B \<subseteq> B' \<Longrightarrow> waits_for deps B' k st"
  by (induction deps B k st rule: waits_for.induct) auto

lemma waits_for_fresh:
  "acyclic (dep_rel deps) \<Longrightarrow> waits_for deps B k st \<Longrightarrow> k \<notin> constructing st"
  using waits_for_path [of deps B k st k] by (auto simp: acyclic_def)

text \<open>What an allocation keeps: the drivers that are there stay.\<close>

definition extends :: "driver_manager \<Rightarrow> driver_manager \<Rightarrow> bool" where
  "extends s s' \<longleftrightarrow> (\<exists>new. built s' = built s @ new) \<and> (\<forall>k < length (m_started s). m_started s ! k \<longrightarrow> m_started s' ! k) \<and>
     (\<forall>k < length (device_list s). device_list s ! k \<longrightarrow> device_list s' ! k)"

lemma extends_refl: "extends s s"
  by (simp add: extends_def)

lemma alloc_enter_ok:
  assumes ok: "alloc_ok deps n st s" and k: "k < n" "waits_for deps (set (built s)) k st" and acyc: "acyclic (dep_rel deps)"
    and e: "alloc_enter deps k s = (fs, s')"
  shows "alloc_ok deps n (fs @ st) s' \<and> extends s s' \<and> (if m_started s ! k then fs = [] \<and> s' = s else fs = [Construct k (deps k)])"
proof -
  have st: "Publish j \<notin> set st" "Mark j \<notin> set st" for j using waits_for_frames [OF k(2)] by simp_all
  have fresh: "k \<notin> constructing st" by (rule waits_for_fresh [OF acyc k(2)])
  show ?thesis
  proof (cases "m_started s ! k")
    case True
    then show ?thesis using e ok by (simp add: alloc_enter_def extends_refl)
  next
    case False
    then have nb: "k \<notin> set (built s)" using ok k(1) st by (simp add: alloc_ok_def)
    then have "alloc_enter deps k s = ([Construct k (deps k)], set_container (\<lambda>c. c\<lparr>c_starting := (c_starting c)[k := True]\<rparr>) s)"
      using ok k(1) False fresh by (simp add: alloc_enter_def alloc_ok_def)
    moreover have "alloc_ok deps n (Construct k (deps k) # st) (set_container (\<lambda>c. c\<lparr>c_starting := (c_starting c)[k := True]\<rparr>) s)"
      using ok k nb st fresh by (auto simp: alloc_ok_def nth_list_update)
    ultimately show ?thesis using e False by (simp add: extends_def)
  qed
qed

text \<open>The three ways in which the innermost constructor goes on.\<close>

lemma alloc_ok_constructed:
  assumes ok: "alloc_ok deps n (Construct k [] # st) s" and k: "k < n" "k \<notin> set (built s)" "k \<notin> constructing st"
    and st: "\<And>j. Publish j \<notin> set st" "\<And>j. Mark j \<notin> set st" and w: "waits_for deps (insert k (set (built s))) k st"
    and deps: "set (deps k) \<subseteq> set (built s)"
  shows "alloc_ok deps n (Publish k # st) (set_container (\<lambda>c. c\<lparr>driver_tuple := (driver_tuple c)[k := True],
    c_starting := (c_starting c)[k := False], c_started := (c_started c)[k := True]\<rparr>) (s\<lparr>built := built s @ [k]\<rparr>))"
proof -
  have flags: "\<forall>j < n. (c_started (container s) ! j \<longleftrightarrow> j \<in> set (built s)) \<and> (driver_tuple (container s) ! j \<longleftrightarrow> j \<in> set (built s)) \<and>
      (c_starting (container s) ! j \<longleftrightarrow> j \<in> constructing (Construct k [] # st)) \<and>
      (device_list s ! j \<longleftrightarrow> j \<in> set (built s)) \<and> (m_started s ! j \<longleftrightarrow> j \<in> set (built s))"
    using ok st by (simp add: alloc_ok_def)
  have sub: "constructing st \<subseteq> {..<n} - set (built s)" using ok by (simp add: alloc_ok_def)
  show ?thesis
    using ok k w deps sub unfolding alloc_ok_def
    by (intro conjI) (use flags st k in \<open>auto simp: dep_closed_snoc nth_list_update\<close>)
qed

lemma alloc_ok_published:
  assumes ok: "alloc_ok deps n (Publish k # st) s" and k: "k < n" "k \<in> set (built s)"
    and st: "\<And>j. Publish j \<notin> set st" "\<And>j. Mark j \<notin> set st"
  shows "alloc_ok deps n (Mark k # st) (s\<lparr>device_list := (device_list s)[k := True]\<rparr>)"
proof -
  have flags: "\<forall>j < n. (c_started (container s) ! j \<longleftrightarrow> j \<in> set (built s)) \<and> (driver_tuple (container s) ! j \<longleftrightarrow> j \<in> set (built s)) \<and>
      (c_starting (container s) ! j \<longleftrightarrow> j \<in> constructing st) \<and>
      (device_list s ! j \<longleftrightarrow> j \<in> set (built s) \<and> j \<noteq> k) \<and> (m_started s ! j \<longleftrightarrow> j \<in> set (built s) \<and> j \<noteq> k)"
    using ok st by (simp add: alloc_ok_def)
  show ?thesis
    using ok k unfolding alloc_ok_def by (intro conjI) (use flags st k in \<open>auto simp: nth_list_update\<close>)
qed

lemma alloc_ok_marked:
  assumes ok: "alloc_ok deps n (Mark k # st) s" and k: "k < n" "k \<in> set (built s)"
    and st: "\<And>j. Publish j \<notin> set st" "\<And>j. Mark j \<notin> set st" and nest: "nested deps (set (built s)) st"
  shows "alloc_ok deps n st (s\<lparr>m_started := (m_started s)[k := True]\<rparr>)"
proof -
  have flags: "\<forall>j < n. (c_started (container s) ! j \<longleftrightarrow> j \<in> set (built s)) \<and> (driver_tuple (container s) ! j \<longleftrightarrow> j \<in> set (built s)) \<and>
      (c_starting (container s) ! j \<longleftrightarrow> j \<in> constructing st) \<and>
      (device_list s ! j \<longleftrightarrow> j \<in> set (built s)) \<and> (m_started s ! j \<longleftrightarrow> j \<in> set (built s) \<and> j \<noteq> k)"
    using ok st by (simp add: alloc_ok_def)
  show ?thesis
    using ok k nest unfolding alloc_ok_def by (intro conjI) (use flags st k in \<open>auto simp: nth_list_update\<close>)
qed

lemma alloc_step_ok:
  assumes ok: "alloc_ok deps n (f # st) s" and deps: "\<And>k. k < n \<Longrightarrow> set (deps k) \<subseteq> {..<n}" and acyc: "acyclic (dep_rel deps)"
    and e: "alloc_step deps (f # st) s = (st', s')"
  shows "alloc_ok deps n st' s' \<and> extends s s' \<and> (if st' = [] then m_started s' ! frame_driver f else frame_driver (last st') = frame_driver (last (f # st)))"
proof (cases f)
  case (Construct k ds)
  then have w: "waits_for deps (set (built s)) k st" and k: "k < n" "k \<notin> set (built s)"
    and ds: "set ds \<subseteq> set (deps k)" "set (deps k) \<subseteq> set (built s) \<union> set ds"
    using ok by (auto simp: alloc_ok_def)
  have st: "Publish j \<notin> set st" "Mark j \<notin> set st" for j using waits_for_frames [OF w] by simp_all
  have fresh: "k \<notin> constructing st" by (rule waits_for_fresh [OF acyc w])
  show ?thesis
  proof (cases ds)
    case Nil
    let ?s = "set_container (\<lambda>c. c\<lparr>driver_tuple := (driver_tuple c)[k := True],
        c_starting := (c_starting c)[k := False], c_started := (c_started c)[k := True]\<rparr>) (s\<lparr>built := built s @ [k]\<rparr>)"
    have "waits_for deps (insert k (set (built s))) k st" by (rule waits_for_mono [OF w]) auto
    then have "alloc_ok deps n (Publish k # st) ?s"
      using alloc_ok_constructed [of deps n k st s] ok Construct Nil k ds st fresh by simp
    then show ?thesis using Construct Nil e by (auto simp: extends_def)
  next
    case (Cons d ds')
    then have d: "d < n" using ds(1) deps [OF k(1)] by auto
    show ?thesis
    proof (cases "m_started s ! d")
      case True
      then have "d \<in> set (built s)" using ok d by (simp add: alloc_ok_def)
      moreover from this have "dereference d s = s" using ok d by (simp add: alloc_ok_def dereference_def)
      ultimately show ?thesis
        using Construct Cons True e ok by (auto simp: alloc_ok_def extends_refl)
    next
      case False
      obtain fs m where m: "alloc_enter deps d s = (fs, m)" by (cases "alloc_enter deps d s") auto
      have 1: "alloc_ok deps n (Construct k ds # st) s" using ok Construct by simp
      have 2: "waits_for deps (set (built s)) d (Construct k ds # st)" using Cons ds w by simp
      have "alloc_ok deps n (fs @ Construct k ds # st) m \<and> extends s m \<and> fs = [Construct d (deps d)]"
        using alloc_enter_ok [OF 1 d 2 acyc m] False by auto
      then show ?thesis using Construct Cons False e m by auto
    qed
  qed
next
  case (Publish k)
  then have w: "waits_for deps (set (built s)) k st" and k: "k \<in> set (built s)" "k < n" using ok by (auto simp: alloc_ok_def)
  have st: "Publish j \<notin> set st" "Mark j \<notin> set st" for j using waits_for_frames [OF w] by simp_all
  have "alloc_ok deps n (Mark k # st) (s\<lparr>device_list := (device_list s)[k := True]\<rparr>)"
    using alloc_ok_published [of deps n k st s] ok Publish k st by simp
  moreover have "length (device_list s) = n" using ok by (simp add: alloc_ok_def)
  ultimately show ?thesis using Publish e k by (auto simp: extends_def nth_list_update)
next
  case (Mark k)
  then have w: "waits_for deps (set (built s)) k st" and k: "k \<in> set (built s)" "k < n" using ok by (auto simp: alloc_ok_def)
  have st: "Publish j \<notin> set st" "Mark j \<notin> set st" for j using waits_for_frames [OF w] by simp_all
  have "nested deps (set (built s)) st"
  proof (cases st)
    case (Cons g st1)
    then obtain j ds where g: "g = Construct j ds" using w by (cases g) auto
    then have "j \<in> constructing (f # st)" using Mark Cons by simp
    then have "j \<notin> set (built s)" using ok by (auto simp: alloc_ok_def)
    then show ?thesis using w Cons g by simp
  qed simp
  then have "alloc_ok deps n st (s\<lparr>m_started := (m_started s)[k := True]\<rparr>)"
    using alloc_ok_marked [of deps n k st s] ok Mark k st by simp
  moreover have "length (m_started s) = n" using ok by (simp add: alloc_ok_def)
  ultimately show ?thesis using Mark e k by (auto simp: extends_def nth_list_update)
qed

section \<open>The invariant of the threads\<close>

primrec in_driver :: "'v pc \<Rightarrow> nat option" where
  "in_driver Reading = None"
| "in_driver (Test k p) = None"
| "in_driver (Want k p) = None"
| "in_driver (Alloc k p st) = None"
| "in_driver (Device k p) = None"
| "in_driver (Parse k p got) = Some k"
| "in_driver (Method k p got) = Some k"

primrec stack_of :: "'v pc \<Rightarrow> frame list option" where
  "stack_of Reading = None"
| "stack_of (Test k p) = None"
| "stack_of (Want k p) = None"
| "stack_of (Alloc k p st) = Some st"
| "stack_of (Device k p) = None"
| "stack_of (Parse k p got) = None"
| "stack_of (Method k p got) = None"

definition got_ok :: "(nat \<Rightarrow> nat \<Rightarrow> nat \<Rightarrow> 'v) \<Rightarrow> nat \<Rightarrow> nat \<Rightarrow> 'v list \<Rightarrow> bool" where
  "got_ok sl k p got \<longleftrightarrow> (\<forall>i < length got. sl k p i = got ! i)"

primrec thread_ok :: "nat \<Rightarrow> (nat \<Rightarrow> nat \<Rightarrow> nat) \<Rightarrow> driver_manager \<Rightarrow> (nat \<Rightarrow> nat \<Rightarrow> nat \<Rightarrow> 'v) \<Rightarrow> 'v pc \<Rightarrow> bool" where
  "thread_ok n arity m sl Reading \<longleftrightarrow> True"
| "thread_ok n arity m sl (Test k p) \<longleftrightarrow> k < n"
| "thread_ok n arity m sl (Want k p) \<longleftrightarrow> k < n"
| "thread_ok n arity m sl (Alloc k p st) \<longleftrightarrow> k < n \<and> (if st = [] then m_started m ! k else frame_driver (last st) = k)"
| "thread_ok n arity m sl (Device k p) \<longleftrightarrow> k < n \<and> m_started m ! k"
| "thread_ok n arity m sl (Parse k p got) \<longleftrightarrow> k < n \<and> m_started m ! k \<and> got_ok sl k p got \<and> length got \<le> arity k p"
| "thread_ok n arity m sl (Method k p got) \<longleftrightarrow> k < n \<and> m_started m ! k \<and> got_ok sl k p got \<and> length got = arity k p"

definition calls_of :: "nat \<Rightarrow> 'v threads_state \<Rightarrow> (nat \<times> nat \<times> 'v list) list" where
  "calls_of t s = map snd (filter (\<lambda>c. fst c = t) (calls s))"

definition mt_ok :: "(nat \<Rightarrow> nat list) \<Rightarrow> nat \<Rightarrow> (nat \<Rightarrow> nat \<Rightarrow> nat) \<Rightarrow> 'v threads_state \<Rightarrow> bool" where
  "mt_ok deps n arity s \<longleftrightarrow>
     (\<exists>st. alloc_ok deps n st (mgr s) \<and> (\<forall>t. mgr_owner s = Some t \<longrightarrow> stack_of (at s t) = Some st) \<and> (mgr_owner s = None \<longrightarrow> st = [])) \<and>
     (\<forall>t. stack_of (at s t) \<noteq> None \<longrightarrow> mgr_owner s = Some t) \<and>
     (\<forall>t k. in_driver (at s t) = Some k \<longleftrightarrow> drv_owner s k = Some t) \<and>
     (\<forall>t. thread_ok n arity (mgr s) (slots s) (at s t)) \<and>
     (\<forall>t. calls_of t s = asked s t)"

lemma mt_okI:
  assumes "alloc_ok deps n st (mgr s)" and "\<And>t. mgr_owner s = Some t \<Longrightarrow> stack_of (at s t) = Some st" and "mgr_owner s = None \<Longrightarrow> st = []"
    and "\<And>t. stack_of (at s t) \<noteq> None \<Longrightarrow> mgr_owner s = Some t" and "\<And>t k. in_driver (at s t) = Some k \<longleftrightarrow> drv_owner s k = Some t"
    and "\<And>t. thread_ok n arity (mgr s) (slots s) (at s t)" and "\<And>t. calls_of t s = asked s t"
  shows "mt_ok deps n arity s"
proof -
  have 1: "\<exists>st. alloc_ok deps n st (mgr s) \<and> (\<forall>t. mgr_owner s = Some t \<longrightarrow> stack_of (at s t) = Some st) \<and> (mgr_owner s = None \<longrightarrow> st = [])"
    using assms(1) by (intro exI [of _ st]) (simp add: assms(2,3))
  show ?thesis unfolding mt_ok_def by (intro conjI allI 1 assms(5-7) impI) (erule assms(4))
qed

lemma mt_okE:
  assumes "mt_ok deps n arity s"
  obtains st where "alloc_ok deps n st (mgr s)" and "\<forall>t. mgr_owner s = Some t \<longrightarrow> stack_of (at s t) = Some st"
    and "mgr_owner s = None \<longrightarrow> st = []"
proof -
  from assms [unfolded mt_ok_def, THEN conjunct1] obtain st where 1: "alloc_ok deps n st (mgr s) \<and>
      (\<forall>t. mgr_owner s = Some t \<longrightarrow> stack_of (at s t) = Some st) \<and> (mgr_owner s = None \<longrightarrow> st = [])" by (rule exE)
  show thesis by (rule that [OF 1 [THEN conjunct1] 1 [THEN conjunct2, THEN conjunct1] 1 [THEN conjunct2, THEN conjunct2]])
qed

lemma mt_okD:
  assumes "mt_ok deps n arity s"
  shows "stack_of (at s t) \<noteq> None \<Longrightarrow> mgr_owner s = Some t" and "in_driver (at s t) = Some k \<longleftrightarrow> drv_owner s k = Some t"
    and "thread_ok n arity (mgr s) (slots s) (at s t)" and "calls_of t s = asked s t"
  using assms unfolding mt_ok_def by simp_all

lemma mt_ok_stack:
  assumes "mt_ok deps n arity s" and "at s t = Alloc k p st"
  shows "alloc_ok deps n st (mgr s)" and "mgr_owner s = Some t"
proof -
  show o: "mgr_owner s = Some t" using assms unfolding mt_ok_def by (metis option.distinct(1) stack_of.simps(4))
  obtain st' where "alloc_ok deps n st' (mgr s)" "stack_of (at s t) = Some st'" using assms(1) o unfolding mt_ok_def by blast
  then show "alloc_ok deps n st (mgr s)" using assms(2) by simp
qed

lemma mt_ok_free: "mt_ok deps n arity s \<Longrightarrow> mgr_owner s = None \<Longrightarrow> alloc_ok deps n [] (mgr s)"
  unfolding mt_ok_def by blast

text \<open>A started driver stays started, and is in the list of devices.\<close>

lemma thread_ok_extends:
  assumes "thread_ok n arity m sl c" and "extends m m'" and "length (m_started m) = n" and "stack_of c = None"
  shows "thread_ok n arity m' sl c"
  using assms by (cases c) (auto simp: extends_def)

lemma started_device: "alloc_ok deps n st m \<Longrightarrow> k < n \<Longrightarrow> m_started m ! k \<Longrightarrow> device_list m ! k \<and> k \<in> set (built m)"
  by (simp add: alloc_ok_def)

lemma mt_ok_move:
  assumes ok: "mt_ok deps n arity s" and c: "stack_of c = None" "in_driver c = in_driver (at s t)" "thread_ok n arity (mgr s) (slots s) c"
    and t: "stack_of (at s t) = None"
  shows "mt_ok deps n arity (goto t c s)"
proof -
  obtain st where st: "alloc_ok deps n st (mgr s)" "\<forall>t. mgr_owner s = Some t \<longrightarrow> stack_of (at s t) = Some st" "mgr_owner s = None \<longrightarrow> st = []"
    by (rule mt_okE [OF ok])
  show ?thesis
  proof (rule mt_okI [where st = st])
    show "alloc_ok deps n st (mgr (goto t c s))" using st(1) by simp
    show "stack_of (at (goto t c s) t') = Some st" if "mgr_owner (goto t c s) = Some t'" for t'
      using st(2) [rule_format, of t'] that t by (cases "t' = t") simp_all
    show "st = []" if "mgr_owner (goto t c s) = None" using st(3) that by simp
    show "mgr_owner (goto t c s) = Some t'" if "stack_of (at (goto t c s) t') \<noteq> None" for t'
    proof (cases "t' = t")
      case False
      then have "stack_of (at s t') \<noteq> None" using that by simp
      then show ?thesis using mt_okD(1) [OF ok] by simp
    qed (use that c(1) in simp)
    show "in_driver (at (goto t c s) t') = Some k \<longleftrightarrow> drv_owner (goto t c s) k = Some t'" for t' k
      using mt_okD(2) [OF ok, of t' k] c(2) by (cases "t' = t") simp_all
    show "thread_ok n arity (mgr (goto t c s)) (slots (goto t c s)) (at (goto t c s) t')" for t'
      using mt_okD(3) [OF ok, of t'] c(3) by simp
    show "calls_of t' (goto t c s) = asked (goto t c s) t'" for t' using mt_okD(4) [OF ok, of t'] by (simp add: calls_of_def)
  qed
qed

lemma mt_ok_manager:
  assumes ok: "mt_ok deps n arity s" and own: "mgr_owner s = None \<or> mgr_owner s = Some t" and d: "in_driver (at s t) = None"
    and m: "alloc_ok deps n st m" "extends (mgr s) m" and c: "thread_ok n arity m (slots s) (Alloc k p st)"
  shows "mt_ok deps n arity (goto t (Alloc k p st) (s\<lparr>mgr := m, mgr_owner := Some t\<rparr>))" (is "mt_ok _ _ _ ?s")
proof (rule mt_okI [where st = st])
  have other: "stack_of (at s t') = None" if "t' \<noteq> t" for t' using mt_okD(1) [OF ok, of t'] own that by (cases "stack_of (at s t')") auto
  have len: "length (m_started (mgr s)) = n" by (rule mt_okE [OF ok]) (simp add: alloc_ok_def)
  show "alloc_ok deps n st (mgr ?s)" using m(1) by simp
  show "stack_of (at ?s t') = Some st" if "mgr_owner ?s = Some t'" for t' using that by simp
  show "st = []" if "mgr_owner ?s = None" using that by simp
  show "mgr_owner ?s = Some t'" if "stack_of (at ?s t') \<noteq> None" for t'
    using that other [of t'] by (cases "t' = t") simp_all
  show "in_driver (at ?s t') = Some j \<longleftrightarrow> drv_owner ?s j = Some t'" for t' j
    using mt_okD(2) [OF ok, of t' j] d by (cases "t' = t") simp_all
  show "thread_ok n arity (mgr ?s) (slots ?s) (at ?s t')" for t'
    using c thread_ok_extends [OF mt_okD(3) [OF ok, of t'] m(2) len] other [of t'] by (cases "t' = t") simp_all
  show "calls_of t' ?s = asked ?s t'" for t' using mt_okD(4) [OF ok, of t'] by (simp add: calls_of_def)
qed

lemma mt_ok_unlock:
  assumes ok: "mt_ok deps n arity s" and t: "at s t = Alloc k p []"
  shows "mt_ok deps n arity (goto t (Device k p) (s\<lparr>mgr_owner := None\<rparr>))" (is "mt_ok _ _ _ ?s")
proof (rule mt_okI [where st = "[]"])
  have own: "mgr_owner s = Some t" by (rule mt_ok_stack [OF ok t])
  show "alloc_ok deps n [] (mgr ?s)" using mt_ok_stack(1) [OF ok t] by simp
  show "stack_of (at ?s t') = Some []" if "mgr_owner ?s = Some t'" for t' using that by simp
  show "mgr_owner ?s = Some t'" if "stack_of (at ?s t') \<noteq> None" for t'
    using that mt_okD(1) [OF ok, of t'] own by (cases "t' = t") auto
  show "in_driver (at ?s t') = Some j \<longleftrightarrow> drv_owner ?s j = Some t'" for t' j
    using mt_okD(2) [OF ok, of t' j] t by (cases "t' = t") simp_all
  show "thread_ok n arity (mgr ?s) (slots ?s) (at ?s t')" for t'
    using mt_okD(3) [OF ok, of t'] t by (cases "t' = t") simp_all
  show "calls_of t' ?s = asked ?s t'" for t' using mt_okD(4) [OF ok, of t'] by (simp add: calls_of_def)
qed simp

text \<open>
  What a thread does with the mutex of a driver: it takes it, writes the arguments while it holds it, and gives it back, when
  it may have called the method. Nobody else is in the driver, so nobody else's arguments are touched.
\<close>

lemma mt_ok_driver:
  assumes ok: "mt_ok deps n arity s" and t: "stack_of (at s t) = None" "stack_of c = None" and k: "drv_owner s k = None \<or> drv_owner s k = Some t"
    and d: "\<And>j. in_driver (at s t) = Some j \<Longrightarrow> j = k" "in_driver c = map_option (\<lambda>_. k) own" "own = None \<or> own = Some t"
    and sl: "\<And>j. j \<noteq> k \<Longrightarrow> sl j = slots s j" and c: "thread_ok n arity (mgr s) sl c"
    and h: "\<And>t'. map snd (filter (\<lambda>c. fst c = t') cs) = ask t'"
  shows "mt_ok deps n arity (goto t c (s\<lparr>drv_owner := (drv_owner s)(k := own), slots := sl, calls := cs, asked := ask\<rparr>))"
    (is "mt_ok _ _ _ ?s")
proof -
  obtain st where st: "alloc_ok deps n st (mgr s)" "\<forall>t. mgr_owner s = Some t \<longrightarrow> stack_of (at s t) = Some st" "mgr_owner s = None \<longrightarrow> st = []"
    by (rule mt_okE [OF ok])
  have out: "in_driver (at s t') \<noteq> Some k" if "t' \<noteq> t" for t' using mt_okD(2) [OF ok, of t' k] k that by auto
  show ?thesis
  proof (rule mt_okI [where st = st])
    show "alloc_ok deps n st (mgr ?s)" using st(1) by simp
    show "stack_of (at ?s t') = Some st" if "mgr_owner ?s = Some t'" for t'
      using st(2) [rule_format, of t'] that t(1) by (cases "t' = t") simp_all
    show "st = []" if "mgr_owner ?s = None" using st(3) that by simp
    show "mgr_owner ?s = Some t'" if "stack_of (at ?s t') \<noteq> None" for t'
      using mt_okD(1) [OF ok, of t'] that t(2) by (cases "t' = t") simp_all
    show "in_driver (at ?s t') = Some j \<longleftrightarrow> drv_owner ?s j = Some t'" for t' j
      using mt_okD(2) [OF ok, of t' j] d out [of t'] by (cases "t' = t"; cases "j = k") auto
    show "thread_ok n arity (mgr ?s) (slots ?s) (at ?s t')" for t'
    proof (cases "t' = t")
      case False
      then have "in_driver (at s t') \<noteq> Some k" by (rule out)
      then show ?thesis using mt_okD(3) [OF ok, of t'] sl False by (cases "at s t'") (auto simp: got_ok_def)
    qed (use c in simp)
    show "calls_of t' ?s = asked ?s t'" for t' using h [of t'] by (simp add: calls_of_def)
  qed
qed

lemma mt_step_ok:
  assumes ok: "mt_ok deps n arity s" and deps: "\<And>k. k < n \<Longrightarrow> set (deps k) \<subseteq> {..<n}" and acyc: "acyclic (dep_rel deps)"
    and step: "mt_step deps n arity t s s'"
  shows "mt_ok deps n arity s'"
  using step
proof (cases rule: mt_step.cases)
  case (header k p)
  then show ?thesis using mt_ok_move [OF ok, of "Test k p" t] by simp
next
  case (is_started k p)
  then show ?thesis using mt_ok_move [OF ok, of "Device k p" t] mt_okD(3) [OF ok, of t] by simp
next
  case (not_started k p)
  then show ?thesis using mt_ok_move [OF ok, of "Want k p" t] mt_okD(3) [OF ok, of t] by simp
next
  case (lock_manager k p st m)
  have k: "k < n" using mt_okD(3) [OF ok, of t] lock_manager(2) by simp
  have e: "alloc_ok deps n (st @ []) m \<and> extends (mgr s) m \<and> (if m_started (mgr s) ! k then st = [] \<and> m = mgr s else st = [Construct k (deps k)])"
    by (rule alloc_enter_ok [OF mt_ok_free [OF ok lock_manager(3)] k _ acyc lock_manager(4)]) simp
  then have "thread_ok n arity m (slots s) (Alloc k p st)" using k by (auto split: if_splits)
  then show ?thesis
    using mt_ok_manager [OF ok, of t st m k p] lock_manager e by simp
next
  case (allocate k p f st st' m)
  have e: "alloc_ok deps n st' m \<and> extends (mgr s) m \<and>
      (if st' = [] then m_started m ! frame_driver f else frame_driver (last st') = frame_driver (last (f # st)))"
    by (rule alloc_step_ok [OF mt_ok_stack(1) [OF ok allocate(2)] deps acyc allocate(3)])
  have "st' = [] \<Longrightarrow> st = []" using allocate(3) by (cases f) (auto split: list.splits if_splits prod.splits simp: Let_def elim: alloc_step.elims)
  then have "thread_ok n arity m (slots s) (Alloc k p st')" using e mt_okD(3) [OF ok, of t] allocate(2) by auto
  then have "mt_ok deps n arity (goto t (Alloc k p st') (s\<lparr>mgr := m, mgr_owner := Some t\<rparr>))"
    using mt_ok_manager [OF ok, of t st' m k p] mt_ok_stack(2) [OF ok allocate(2)] allocate(2) e by simp
  moreover have "s\<lparr>mgr := m, mgr_owner := Some t\<rparr> = s\<lparr>mgr := m\<rparr>" using mt_ok_stack(2) [OF ok allocate(2)] by simp
  ultimately show ?thesis using allocate(1) by simp
next
  case (unlock_manager k p)
  then show ?thesis using mt_ok_unlock [OF ok] by simp
next
  case (no_device k p)
  have "\<not> device_list (mgr s) ! k \<Longrightarrow> False"
    using started_device [of deps n _ "mgr s" k] mt_okD(3) [OF ok, of t] no_device(2) by (rule_tac mt_okE [OF ok]) auto
  then show ?thesis using no_device(3) by blast
next
  case (lock_driver k p)
  then show ?thesis
    using mt_ok_driver [OF ok, of t "Parse k p []" k "Some t" "slots s" "calls s" "asked s"] mt_okD(3) [OF ok, of t] mt_okD(4) [OF ok]
    by (simp add: got_ok_def calls_of_def)
next
  case (argument k p got v)
  let ?sl = "(slots s)(k := (slots s k)(p := (slots s k p)(length got := v)))"
  have own: "drv_owner s k = Some t" using mt_okD(2) [OF ok, of t k] argument(2) by simp
  have 1: "thread_ok n arity (mgr s) ?sl (Parse k p (got @ [v]))"
    using mt_okD(3) [OF ok, of t] argument(2,3) by (auto simp: got_ok_def nth_append less_Suc_eq)
  have "mt_ok deps n arity (goto t (Parse k p (got @ [v]))
      (s\<lparr>drv_owner := (drv_owner s)(k := Some t), slots := ?sl, calls := calls s, asked := asked s\<rparr>))"
  proof (rule mt_ok_driver [OF ok _ _ _ _ _ _ _ 1])
    show "map snd (filter (\<lambda>c. fst c = t') (calls s)) = asked s t'" for t' using mt_okD(4) [OF ok, of t'] by (simp add: calls_of_def)
  qed (simp_all add: argument(2) own)
  moreover have "(drv_owner s)(k := Some t) = drv_owner s" by (rule fun_upd_idem) (rule own)
  ultimately show ?thesis using argument(1) by simp
next
  case (refuse k p got)
  have own: "drv_owner s k = Some t" using mt_okD(2) [OF ok, of t k] refuse(2) by simp
  have "mt_ok deps n arity (goto t Reading (s\<lparr>drv_owner := (drv_owner s)(k := None), slots := slots s, calls := calls s, asked := asked s\<rparr>))"
  proof (rule mt_ok_driver [OF ok])
    show "map snd (filter (\<lambda>c. fst c = t') (calls s)) = asked s t'" for t' using mt_okD(4) [OF ok, of t'] by (simp add: calls_of_def)
  qed (simp_all add: refuse(2) own)
  then show ?thesis using refuse(1) by simp
next
  case (call_method k p got)
  then show ?thesis using mt_ok_move [OF ok, of "Method k p got" t] mt_okD(3) [OF ok, of t] by simp
next
  case (return_method k p got)
  have own: "drv_owner s k = Some t" using mt_okD(2) [OF ok, of t k] return_method(2) by simp
  have "map (slots s k p) [0 ..< arity k p] = got"
    using mt_okD(3) [OF ok, of t] return_method(2) by (intro nth_equalityI) (simp_all add: got_ok_def)
  then have s': "s' = goto t Reading (s\<lparr>drv_owner := (drv_owner s)(k := None), slots := slots s, calls := calls s @ [(t, k, p, got)],
      asked := (asked s)(t := asked s t @ [(k, p, got)])\<rparr>)"
    using return_method(1) by simp
  show ?thesis
    unfolding s'
  proof (rule mt_ok_driver [OF ok])
    show "map snd (filter (\<lambda>c. fst c = t') (calls s @ [(t, k, p, got)])) = ((asked s)(t := asked s t @ [(k, p, got)])) t'" for t'
      using mt_okD(4) [OF ok, of t'] by (simp add: calls_of_def)
  qed (simp_all add: return_method(2) own)
qed

lemma mt_ok_start: "mt_ok deps n arity (threads_start n mem)"
  by (rule mt_okI [where st = "[]"])
    (simp_all add: threads_start_def alloc_ok_def new_driver_manager_def new_driver_container_def dep_closed_def calls_of_def)

lemma mt_ok_steps:
  assumes "(any_step deps n arity)\<^sup>*\<^sup>* s s'" and "mt_ok deps n arity s"
    and "\<And>k. k < n \<Longrightarrow> set (deps k) \<subseteq> {..<n}" and "acyclic (dep_rel deps)"
  shows "mt_ok deps n arity s'"
  using assms(1,2)
proof (induction rule: rtranclp_induct)
  case (step s1 s2)
  then obtain t where "mt_step deps n arity t s1 s2" by (auto simp: any_step_def)
  then show ?case using mt_step_ok [OF step.IH [OF step.prems] assms(3,4)] by blast
qed

section \<open>Allocations end\<close>

text \<open>What is left to do: the frames that are open, and the constructors that have not been entered.\<close>

primrec frame_work :: "frame \<Rightarrow> nat" where
  "frame_work (Construct k ds) = length ds + 3"
| "frame_work (Publish k) = 2"
| "frame_work (Mark k) = 1"

definition work :: "(nat \<Rightarrow> nat list) \<Rightarrow> nat \<Rightarrow> frame list \<Rightarrow> driver_manager \<Rightarrow> nat" where
  "work deps n st s = sum_list (map frame_work st) + (\<Sum>k \<in> {..<n} - set (built s) - constructing st. length (deps k) + 4)"

lemma alloc_step_work:
  assumes ok: "alloc_ok deps n (f # st) s" and deps: "\<And>k. k < n \<Longrightarrow> set (deps k) \<subseteq> {..<n}" and acyc: "acyclic (dep_rel deps)"
    and e: "alloc_step deps (f # st) s = (st', s')"
  shows "work deps n st' s' < work deps n (f # st) s"
proof (cases f)
  case (Construct k ds)
  then have w: "waits_for deps (set (built s)) k st" and k: "k < n" and ds: "set ds \<subseteq> set (deps k)" "set (deps k) \<subseteq> set (built s) \<union> set ds"
    using ok by (auto simp: alloc_ok_def)
  show ?thesis
  proof (cases ds)
    case Nil
    have A: "{..<n} - insert k (set (built s)) - constructing st = {..<n} - set (built s) - insert k (constructing st)" by (rule set_eqI) auto
    have "st' = Publish k # st" "set (built s') = insert k (set (built s))" using Construct Nil e by auto
    then show ?thesis using Construct Nil by (simp add: work_def A)
  next
    case (Cons d ds')
    have d: "d < n" using ds(1) deps [OF k] Cons by auto
    show ?thesis
    proof (cases "m_started s ! d")
      case True
      then have "st' = Construct k ds' # st" "built s' = built s" using Construct Cons e by (auto simp: dereference_def split: if_splits)
      then show ?thesis using Construct Cons by (simp add: work_def)
    next
      case False
      obtain fs m where m: "alloc_enter deps d s = (fs, m)" by (cases "alloc_enter deps d s") auto
      have 1: "alloc_ok deps n (Construct k ds # st) s" using ok Construct by simp
      have 2: "waits_for deps (set (built s)) d (Construct k ds # st)" using Cons ds w by simp
      have fs: "fs = [Construct d (deps d)]" and new: "alloc_ok deps n (fs @ Construct k ds # st) m"
        using alloc_enter_ok [OF 1 d 2 acyc m] False by auto
      have built: "built m = built s" using m by (auto simp: alloc_enter_def split: if_splits)
      let ?A = "{..<n} - set (built s) - constructing (Construct k ds # st)"
      have "d \<notin> set (built s)" using new by (simp add: fs alloc_ok_def built)
      then have dA: "d \<in> ?A" using d waits_for_fresh [OF acyc 2] by simp
      have "(\<Sum>j \<in> ?A. length (deps j) + 4) = length (deps d) + 4 + (\<Sum>j \<in> ?A - {d}. length (deps j) + 4)"
        by (rule sum.remove [OF _ dA]) simp
      moreover have "?A - {d} = {..<n} - set (built s) - constructing (Construct d (deps d) # Construct k ds # st)" by auto
      moreover have "st' = Construct d (deps d) # Construct k ds # st" "s' = m" using Construct Cons False e m fs by simp_all
      ultimately show ?thesis using Construct built by (simp add: work_def)
    qed
  qed
next
  case (Publish k)
  then show ?thesis using e by (auto simp: work_def)
next
  case (Mark k)
  then show ?thesis using e by (auto simp: work_def)
qed

lemma allocation_returns:
  assumes "mt_ok deps n arity s" and "at s t = Alloc k p st"
    and deps: "\<And>k. k < n \<Longrightarrow> set (deps k) \<subseteq> {..<n}" and acyc: "acyclic (dep_rel deps)"
  shows "\<exists>s'. (mt_step deps n arity t)\<^sup>*\<^sup>* s s' \<and> at s' t = Device k p \<and> mgr_owner s' = None"
  using assms(1,2)
proof (induction "work deps n st (mgr s)" arbitrary: s st rule: less_induct)
  case less
  show ?case
  proof (cases st)
    case Nil
    then have "mt_step deps n arity t s (goto t (Device k p) (s\<lparr>mgr_owner := None\<rparr>))"
      using less.prems(2) mt_step.unlock_manager by blast
    then show ?thesis by (intro exI [of _ "goto t (Device k p) (s\<lparr>mgr_owner := None\<rparr>)"]) (simp add: r_into_rtranclp)
  next
    case (Cons f st1)
    obtain st' m where e: "alloc_step deps (f # st1) (mgr s) = (st', m)" by (cases "alloc_step deps (f # st1) (mgr s)") auto
    let ?s = "goto t (Alloc k p st') (s\<lparr>mgr := m\<rparr>)"
    have step: "mt_step deps n arity t s ?s" by (rule mt_step.allocate [OF less.prems(2) [unfolded Cons] e])
    have "work deps n st' (mgr ?s) < work deps n st (mgr s)"
      using alloc_step_work [OF _ deps acyc e] mt_ok_stack(1) [OF less.prems] Cons by simp
    then obtain s' where "(mt_step deps n arity t)\<^sup>*\<^sup>* ?s s'" "at s' t = Device k p" "mgr_owner s' = None"
      using less.hyps [of st' ?s] mt_step_ok [OF less.prems(1) deps acyc step] by auto
    then show ?thesis using step by (meson converse_rtranclp_into_rtranclp)
  qed
qed

text \<open>A thread that has a command can go on, unless it waits for a mutex that somebody holds.\<close>

lemma thread_progress:
  assumes ok: "mt_ok deps n arity s" and t: "at s t \<noteq> Reading"
  shows "(\<exists>s'. mt_step deps n arity t s s') \<or> (\<exists>k p u. at s t = Want k p \<and> mgr_owner s = Some u) \<or>
    (\<exists>k p u. at s t = Device k p \<and> drv_owner s k = Some u)"
proof (cases "at s t")
  case (Want k p)
  then show ?thesis
    by (cases "mgr_owner s"; cases "alloc_enter deps k (mgr s)") (use mt_step.lock_manager in blast)+
next
  case (Alloc k p st)
  then show ?thesis
    by (cases st; cases "alloc_step deps st (mgr s)")
      (use mt_step.allocate [of s t k p] mt_step.unlock_manager [of s t k p] in fast)+
next
  case (Device k p)
  show ?thesis
  proof (cases "drv_owner s k")
    case None
    then show ?thesis using mt_step.lock_driver [OF Device _ None] mt_step.no_device [OF Device] by blast
  qed (use Device in blast)
next
  case (Test k p)
  then show ?thesis
    using mt_step.is_started [OF Test] mt_step.not_started [OF Test] by (cases "m_started (mgr s) ! k") (blast, blast)
next
  case (Parse k p got)
  then show ?thesis using mt_step.refuse [OF Parse] by blast
next
  case (Method k p got)
  then show ?thesis using mt_step.return_method [OF Method] by blast
qed (use t in simp)

section \<open>Running the threads\<close>

text \<open>The step of a thread, given what its client sends, or that it sends nothing that can be accepted.\<close>

datatype 'v input = Header nat nat | Value 'v | Refusal | Go

definition mt_exec :: "(nat \<Rightarrow> nat list) \<Rightarrow> nat \<Rightarrow> (nat \<Rightarrow> nat \<Rightarrow> nat) \<Rightarrow> nat \<Rightarrow> 'v input \<Rightarrow> 'v threads_state \<Rightarrow> 'v threads_state option" where
  "mt_exec deps n arity t inp s = (case at s t of
     Reading \<Rightarrow> (case inp of Header k p \<Rightarrow> if k < n then Some (goto t (Test k p) s) else None | _ \<Rightarrow> None)
   | Test k p \<Rightarrow> Some (goto t (if m_started (mgr s) ! k then Device k p else Want k p) s)
   | Want k p \<Rightarrow> if mgr_owner s = None
       then (case alloc_enter deps k (mgr s) of (st, m) \<Rightarrow> Some (goto t (Alloc k p st) (s\<lparr>mgr := m, mgr_owner := Some t\<rparr>))) else None
   | Alloc k p st \<Rightarrow> if st = [] then Some (goto t (Device k p) (s\<lparr>mgr_owner := None\<rparr>))
       else (case alloc_step deps st (mgr s) of (st', m) \<Rightarrow> Some (goto t (Alloc k p st') (s\<lparr>mgr := m\<rparr>)))
   | Device k p \<Rightarrow> if \<not> device_list (mgr s) ! k then Some (goto t Reading (s\<lparr>mgr := (mgr s)\<lparr>null_ref := True\<rparr>\<rparr>))
       else if drv_owner s k = None then Some (goto t (Parse k p []) (s\<lparr>drv_owner := (drv_owner s)(k := Some t)\<rparr>)) else None
   | Parse k p got \<Rightarrow> (case inp of
         Value v \<Rightarrow> if length got < arity k p
           then Some (goto t (Parse k p (got @ [v])) (s\<lparr>slots := (slots s)(k := (slots s k)(p := (slots s k p)(length got := v)))\<rparr>)) else None
       | Refusal \<Rightarrow> Some (goto t Reading (s\<lparr>drv_owner := (drv_owner s)(k := None)\<rparr>))
       | Go \<Rightarrow> if length got = arity k p then Some (goto t (Method k p got) s) else None
       | Header _ _ \<Rightarrow> None)
   | Method k p got \<Rightarrow> Some (goto t Reading (s\<lparr>drv_owner := (drv_owner s)(k := None),
       calls := calls s @ [(t, k, p, map (slots s k p) [0 ..< arity k p])], asked := (asked s)(t := asked s t @ [(k, p, got)])\<rparr>)))"

lemma mt_exec_step:
  assumes "mt_exec deps n arity t inp s = Some s'"
  shows "mt_step deps n arity t s s'"
proof (cases "at s t")
  case Reading
  then show ?thesis using assms mt_step.header [OF Reading] by (auto simp: mt_exec_def split: input.splits if_splits)
next
  case (Test k p)
  then show ?thesis using assms mt_step.is_started [OF Test] mt_step.not_started [OF Test] by (auto simp: mt_exec_def split: if_splits)
next
  case (Want k p)
  then show ?thesis using assms mt_step.lock_manager [OF Want] by (auto simp: mt_exec_def split: if_splits prod.splits)
next
  case (Alloc k p st)
  then show ?thesis
    using assms mt_step.unlock_manager [of s t k p] mt_step.allocate [of s t k p]
    by (cases st) (auto simp: mt_exec_def split: prod.splits)
next
  case (Device k p)
  then show ?thesis using assms mt_step.no_device [OF Device] mt_step.lock_driver [OF Device] by (auto simp: mt_exec_def split: if_splits)
next
  case (Parse k p got)
  then show ?thesis
    using assms mt_step.argument [OF Parse] mt_step.refuse [OF Parse] mt_step.call_method [OF Parse]
    by (auto simp: mt_exec_def split: if_splits input.splits)
next
  case (Method k p got)
  then show ?thesis using assms mt_step.return_method [OF Method] by (auto simp: mt_exec_def)
qed

fun mt_run :: "(nat \<Rightarrow> nat list) \<Rightarrow> nat \<Rightarrow> (nat \<Rightarrow> nat \<Rightarrow> nat) \<Rightarrow> (nat \<times> 'v input) list \<Rightarrow> 'v threads_state \<Rightarrow> 'v threads_state option" where
  "mt_run deps n arity [] s = Some s"
| "mt_run deps n arity ((t, inp) # sched) s = Option.bind (mt_exec deps n arity t inp s) (mt_run deps n arity sched)"

lemma mt_run_steps: "mt_run deps n arity sched s = Some s' \<Longrightarrow> (any_step deps n arity)\<^sup>*\<^sup>* s s'"
proof (induction sched arbitrary: s)
  case (Cons x sched)
  obtain t inp where x: "x = (t, inp)" by (cases x)
  then obtain s1 where 1: "mt_exec deps n arity t inp s = Some s1" "mt_run deps n arity sched s1 = Some s'"
    using Cons.prems by (auto simp: bind_eq_Some_conv)
  have "any_step deps n arity s s1" using mt_exec_step [OF 1(1)] by (auto simp: any_step_def)
  then show ?case using Cons.IH [OF 1(2)] by (rule converse_rtranclp_into_rtranclp)
qed simp

text \<open>Two sessions race for the driver \<open>Sesenta\<close>, which nobody has started; the first one gets half of its arguments.\<close>

definition example_schedule :: "(nat \<times> nat input) list" where
  "example_schedule = [(0, Header 2 5), (1, Header 2 7), (1, Go), (0, Go)] @ replicate 11 (0, Go) @ [(1, Go), (0, Value 42)]"

section \<open>Properties\<close>


definition example_state :: "nat threads_state" where
  "example_state = (case mt_run sesenta_deps 3 (\<lambda>k p. 2) example_schedule (threads_start 3 (\<lambda>k p i. 0)) of Some s \<Rightarrow> s)"

lemma example_place: "at example_state 0 = Parse 2 5 [42]"
  by code_simp

lemma example_reaches: "(any_step sesenta_deps 3 (\<lambda>k p. 2))\<^sup>*\<^sup>* (threads_start 3 (\<lambda>k p i. 0)) example_state"
proof -
  have "mt_run sesenta_deps 3 (\<lambda>k p. 2) example_schedule (threads_start 3 (\<lambda>k p i. 0)) \<noteq> None" by code_simp
  then show ?thesis by (auto simp: example_state_def intro: mt_run_steps)
qed

lemma sesenta_deps_range: "k < 3 \<Longrightarrow> set (sesenta_deps k) \<subseteq> {..<3}"
  by (auto simp: sesenta_deps_def split: if_splits)


definition calls_in :: "nat \<Rightarrow> 'v threads_state \<Rightarrow> (nat \<times> nat \<times> nat \<times> 'v list) list" where
  "calls_in k s = filter (\<lambda>c. fst (snd c) = k) (calls s)"

text \<open>A step of another thread than \<open>t\<close>.\<close>

definition other_step :: "(nat \<Rightarrow> nat list) \<Rightarrow> nat \<Rightarrow> (nat \<Rightarrow> nat \<Rightarrow> nat) \<Rightarrow> nat \<Rightarrow> 'v threads_state \<Rightarrow> 'v threads_state \<Rightarrow> bool" where
  "other_step deps n arity t s s' \<longleftrightarrow> (\<exists>u. u \<noteq> t \<and> mt_step deps n arity u s s')"

lemma other_step_keeps:
  assumes ok: "mt_ok deps n arity s" and d: "in_driver (at s t) = Some k" and step: "mt_step deps n arity u s s'" and u: "u \<noteq> t"
  shows "at s' t = at s t \<and> calls_in k s' = calls_in k s"
proof -
  have "j \<noteq> k" if "in_driver (at s u) = Some j" for j using mt_okD(2) [OF ok, of u j] mt_okD(2) [OF ok, of t k] that d u by auto
  with step u show ?thesis by (cases rule: mt_step.cases) (auto simp: calls_in_def)
qed

lemma other_steps_keep:
  assumes "(other_step deps n arity t)\<^sup>*\<^sup>* s s'" and ok: "mt_ok deps n arity s" and d: "in_driver (at s t) = Some k"
    and deps: "\<And>k. k < n \<Longrightarrow> set (deps k) \<subseteq> {..<n}" and acyc: "acyclic (dep_rel deps)"
  shows "mt_ok deps n arity s' \<and> at s' t = at s t \<and> calls_in k s' = calls_in k s"
  using assms(1)
proof (induction rule: rtranclp_induct)
  case (step s1 s2)
  then obtain u where u: "u \<noteq> t" "mt_step deps n arity u s1 s2" by (auto simp: other_step_def)
  then show ?case
    using other_step_keeps [of deps n arity s1 t k u s2] mt_step_ok [OF _ deps acyc u(2)] step.IH d by auto
qed (use ok in simp)


text \<open>The second session finds the driver started, and waits for its mutex.\<close>

definition example_after :: "nat threads_state" where
  "example_after = (case mt_exec sesenta_deps 3 (\<lambda>k p. 2) 1 Go example_state of Some s \<Rightarrow> s)"

lemma example_after_step: "other_step sesenta_deps 3 (\<lambda>k p. 2) 0 example_state example_after"
proof -
  have "mt_exec sesenta_deps 3 (\<lambda>k p. 2) 1 Go example_state \<noteq> None" by code_simp
  then have "mt_exec sesenta_deps 3 (\<lambda>k p. 2) 1 Go example_state = Some example_after" by (auto simp: example_after_def)
  from mt_exec_step [OF this] show ?thesis unfolding other_step_def by (intro exI [of _ 1]) simp
qed


end
