(* ===== verification/Modulation.thy ===== *)
theory Modulation
  imports Memory_Manager
begin

text \<open>
  \<^verbatim>\<open>src/server/drivers/modulation.hpp\<close>: the waveforms of the two converters of a laser board. A setter marks its channel as
  changed; the next \<open>get_modulation_status\<close> computes the waveforms of the changed channels and writes them to the block of the
  channel, two samples to a word.

  The arithmetic of \<open>float\<close> is a parameter, a record \<open>'f wfm_flt\<close>; a conversion to an integer is \<^term>\<open>None\<close> where the language
  does not define it. The parameters \<open>prm::wfm_size\<close> and \<open>prm::sampling_rate\<close> come from the configuration of an instrument.
\<close>

section \<open>The driver\<close>

record 'f wfm_flt =
  wf_add :: "'f \<Rightarrow> 'f \<Rightarrow> 'f"
  wf_sub :: "'f \<Rightarrow> 'f \<Rightarrow> 'f"
  wf_mul :: "'f \<Rightarrow> 'f \<Rightarrow> 'f"
  wf_div :: "'f \<Rightarrow> 'f \<Rightarrow> 'f"
  wf_cos :: "'f \<Rightarrow> 'f"
  wf_abs :: "'f \<Rightarrow> 'f"
  wf_pi :: 'f
  wf_of_int :: "int \<Rightarrow> 'f"
  wf_to_u32 :: "'f \<Rightarrow> u32 option"
  wf_to_int :: "'f \<Rightarrow> int option"

record wfm_prm =
  wfm_size :: u32
  sampling_rate :: u32

record 'f modulation =
  waveform_type :: "u32 list"
  dac_amplitude :: "'f list"
  dac_frequency :: "'f list"
  dac_offset :: "'f list"
  modulation_changed :: "bool list"
  dac_map :: handle

text \<open>\<open>modulation_changed\<close> has no initialiser: the constructor leaves what memory holds.\<close>

definition new_modulation :: "'f wfm_flt \<Rightarrow> bool list \<Rightarrow> handle \<Rightarrow> 'f modulation" where
  "new_modulation F memory dac = \<lparr>waveform_type = [0, 0], dac_amplitude = [wf_of_int F 0, wf_of_int F 0],
     dac_frequency = [wf_of_int F 0, wf_of_int F 0], dac_offset = [wf_of_int F 0, wf_of_int F 0],
     modulation_changed = memory, dac_map = dac\<rparr>"

text \<open>Accesses of the arrays of two elements, which the code does not check.\<close>

definition array_get :: "'a list \<Rightarrow> u32 \<Rightarrow> 'a option" where
  "array_get xs i = (if unat i < length xs then Some (xs ! unat i) else None)"

definition array_set :: "'a list \<Rightarrow> u32 \<Rightarrow> 'a \<Rightarrow> 'a list option" where
  "array_set xs i x = (if unat i < length xs then Some (xs[unat i := x]) else None)"

definition mark_changed :: "u32 \<Rightarrow> 'f modulation \<Rightarrow> 'f modulation option" where
  "mark_changed channel s = do {
     c \<leftarrow> array_set (modulation_changed s) channel True;
     Some (s\<lparr>modulation_changed := c\<rparr>) }"

definition set_waveform_type :: "u32 \<Rightarrow> u32 \<Rightarrow> 'f modulation \<Rightarrow> 'f modulation option" where
  "set_waveform_type channel wfm_type s = do {
     a \<leftarrow> array_set (waveform_type s) channel wfm_type;
     mark_changed channel (s\<lparr>waveform_type := a\<rparr>) }"

definition set_dac_amplitude :: "u32 \<Rightarrow> 'f \<Rightarrow> 'f modulation \<Rightarrow> 'f modulation option" where
  "set_dac_amplitude channel amplitude_value s = do {
     a \<leftarrow> array_set (dac_amplitude s) channel amplitude_value;
     mark_changed channel (s\<lparr>dac_amplitude := a\<rparr>) }"

definition set_dac_frequency :: "u32 \<Rightarrow> 'f \<Rightarrow> 'f modulation \<Rightarrow> 'f modulation option" where
  "set_dac_frequency channel frequency_value s = do {
     a \<leftarrow> array_set (dac_frequency s) channel frequency_value;
     mark_changed channel (s\<lparr>dac_frequency := a\<rparr>) }"

definition set_dac_offset :: "u32 \<Rightarrow> 'f \<Rightarrow> 'f modulation \<Rightarrow> 'f modulation option" where
  "set_dac_offset channel offset_value s = do {
     a \<leftarrow> array_set (dac_offset s) channel offset_value;
     mark_changed channel (s\<lparr>dac_offset := a\<rparr>) }"

section \<open>Waveforms\<close>

definition wf_of_u32 :: "'f wfm_flt \<Rightarrow> u32 \<Rightarrow> 'f" where
  "wf_of_u32 F x = wf_of_int F (uint x)"

text \<open>The value at sample \<open>i\<close> of each waveform, before the amplitude and the offset are applied.\<close>

definition sine_at :: "'f wfm_flt \<Rightarrow> wfm_prm \<Rightarrow> 'f \<Rightarrow> u32 \<Rightarrow> 'f option" where
  "sine_at F P freq i = Some (wf_cos F (wf_div F (wf_mul F (wf_mul F (wf_mul F (wf_of_int F 2) (wf_pi F)) (wf_of_u32 F i)) freq)
     (wf_of_u32 F (sampling_rate P))))"

definition triangle_at :: "'f wfm_flt \<Rightarrow> u32 \<Rightarrow> u32 \<Rightarrow> 'f option" where
  "triangle_at F period i =
     (if period = 0 then None
      else Some (wf_sub F (wf_mul F (wf_of_int F 4)
        (wf_div F (wf_abs F (wf_sub F (wf_of_u32 F (i mod period)) (wf_div F (wf_of_u32 F period) (wf_of_int F 2)))) (wf_of_u32 F period)))
        (wf_of_int F 1)))"

text \<open>\<open>%\<close> of the language, with the sign of the dividend.\<close>

definition c_rem2 :: "int \<Rightarrow> int" where
  "c_rem2 k = (if 0 \<le> k then k mod 2 else - ((- k) mod 2))"

definition square_at :: "'f wfm_flt \<Rightarrow> wfm_prm \<Rightarrow> 'f \<Rightarrow> u32 \<Rightarrow> 'f option" where
  "square_at F P freq i = do {
     k \<leftarrow> wf_to_int F (wf_div F (wf_mul F (wf_of_u32 F (2 * i)) freq) (wf_of_u32 F (sampling_rate P)));
     Some (wf_of_int F (1 - 2 * c_rem2 k)) }"

text \<open>One loop over the samples, \<open>dac_data[i] = dac_amplitude[channel] * at(i) + dac_offset[channel]\<close>.\<close>

definition fill_waveform :: "'f wfm_flt \<Rightarrow> 'f \<Rightarrow> 'f \<Rightarrow> (u32 \<Rightarrow> 'f option) \<Rightarrow> u32 \<Rightarrow> 'f list \<Rightarrow> 'f list option" where
  "fill_waveform F amplitude off at n dac_data = for_loop 0 (unat n) (\<lambda>i dac_data. do {
     v \<leftarrow> at (word_of_nat i);
     array_set dac_data (word_of_nat i) (wf_add F (wf_mul F amplitude v) off) }) dac_data"

text \<open>
  \<open>memory\<close> is what the array of \<open>prm::wfm_size\<close> elements holds before it is filled; an unknown waveform leaves it so.
\<close>

definition get_float_dac_waveform :: "'f wfm_flt \<Rightarrow> wfm_prm \<Rightarrow> 'f list \<Rightarrow> u32 \<Rightarrow> 'f modulation \<Rightarrow> 'f list option" where
  "get_float_dac_waveform F P memory channel s = do {
     ty \<leftarrow> array_get (waveform_type s) channel;
     a \<leftarrow> array_get (dac_amplitude s) channel;
     freq \<leftarrow> array_get (dac_frequency s) channel;
     off \<leftarrow> array_get (dac_offset s) channel;
     if ty = 0 then fill_waveform F a off (sine_at F P freq) (wfm_size P) memory
     else if ty = 1 then do {
       period \<leftarrow> wf_to_u32 F (wf_div F (wf_of_u32 F (sampling_rate P)) freq);
       fill_waveform F a off (triangle_at F period) (wfm_size P) memory }
     else if ty = 2 then fill_waveform F a off (square_at F P freq) (wfm_size P) memory
     else Some memory }"

section \<open>The words of the converter\<close>

definition dac_sample :: "'f wfm_flt \<Rightarrow> 'f \<Rightarrow> u32 option" where
  "dac_sample F x = do {
     u \<leftarrow> wf_to_u32 F (wf_add F (wf_mul F (wf_of_int F 8192) x) (wf_of_int F 8192));
     Some (u mod 16384 + 8192) }"

definition dac_word :: "'f wfm_flt \<Rightarrow> 'f list \<Rightarrow> nat \<Rightarrow> u32 option" where
  "dac_word F dac_data i = do {
     x \<leftarrow> array_get dac_data (word_of_nat (2 * i + 1));
     y \<leftarrow> array_get dac_data (word_of_nat (2 * i));
     lo \<leftarrow> dac_sample F x;
     hi \<leftarrow> dac_sample F y;
     Some (lo + push_bit 16 hi) }"

definition dac_words :: "'f wfm_flt \<Rightarrow> wfm_prm \<Rightarrow> 'f list \<Rightarrow> u32 list option" where
  "dac_words F P dac_data = for_loop 0 (unat (wfm_size P div 2)) (\<lambda>i arr. do {
     v \<leftarrow> dac_word F dac_data i;
     Some (arr @ [v]) }) []"

definition set_dac_buffer :: "'w bus \<Rightarrow> wfm_prm \<Rightarrow> u32 \<Rightarrow> u32 list \<Rightarrow> 'f modulation \<Rightarrow> 'w \<Rightarrow> 'w option" where
  "set_dac_buffer b P channel arr s w = via b (dac_map s) set_ptr 0 arr (wfm_size P div 2) channel w"

definition set_dac_waveform :: "'w bus \<Rightarrow> 'f wfm_flt \<Rightarrow> wfm_prm \<Rightarrow> 'f list \<Rightarrow> u32 \<Rightarrow> 'f modulation \<Rightarrow> 'w \<Rightarrow> 'w option" where
  "set_dac_waveform b F P memory channel s w = do {
     dac_data \<leftarrow> get_float_dac_waveform F P memory channel s;
     arr \<leftarrow> dac_words F P dac_data;
     via b (dac_map s) set_ptr 0 arr (wfm_size P div 2) channel w }"

definition get_dac_buffer :: "'w bus \<Rightarrow> wfm_prm \<Rightarrow> u32 \<Rightarrow> 'f modulation \<Rightarrow> 'w \<Rightarrow> (u32 list \<times> 'w) option" where
  "get_dac_buffer b P channel s w = via b (dac_map s) read_array (unat (wfm_size P div 2)) 0 channel w"

text \<open>One round of the loop of \<open>get_modulation_status\<close>.\<close>

definition update_channel ::
  "'w bus \<Rightarrow> 'f wfm_flt \<Rightarrow> wfm_prm \<Rightarrow> 'f list \<Rightarrow> u32 \<Rightarrow> 'f modulation \<times> 'w \<Rightarrow> ('f modulation \<times> 'w) option" where
  "update_channel b F P memory channel = (\<lambda>(s, w). do {
     c \<leftarrow> array_get (modulation_changed s) channel;
     if c then do {
       w \<leftarrow> set_dac_waveform b F P memory channel s w;
       c \<leftarrow> array_set (modulation_changed s) channel False;
       Some (s\<lparr>modulation_changed := c\<rparr>, w) }
     else Some (s, w) })"

type_synonym 'f modulation_status = "(u32 \<times> u32) \<times> ('f \<times> 'f) \<times> ('f \<times> 'f) \<times> ('f \<times> 'f)"

definition both :: "'a list \<Rightarrow> ('a \<times> 'a) option" where
  "both xs = do { x \<leftarrow> array_get xs 0; y \<leftarrow> array_get xs 1; Some (x, y) }"

definition get_modulation_status ::
  "'w bus \<Rightarrow> 'f wfm_flt \<Rightarrow> wfm_prm \<Rightarrow> 'f list \<Rightarrow> 'f modulation \<Rightarrow> 'w \<Rightarrow> ('f modulation_status \<times> 'f modulation \<times> 'w) option" where
  "get_modulation_status b F P memory s w = do {
     (s, w) \<leftarrow> for_loop 0 2 (\<lambda>channel. update_channel b F P memory (word_of_nat channel)) (s, w);
     t \<leftarrow> both (waveform_type s);
     a \<leftarrow> both (dac_amplitude s);
     f \<leftarrow> both (dac_frequency s);
     d \<leftarrow> both (dac_offset s);
     Some ((t, a, f, d), s, w) }"

section \<open>Setters\<close>

definition modulation_ok :: "'f modulation \<Rightarrow> bool" where
  "modulation_ok s \<longleftrightarrow> length (waveform_type s) = 2 \<and> length (dac_amplitude s) = 2 \<and> length (dac_frequency s) = 2 \<and>
     length (dac_offset s) = 2 \<and> length (modulation_changed s) = 2"

lemma new_modulation_ok: "length memory = 2 \<Longrightarrow> modulation_ok (new_modulation F memory dac)"
  by (simp add: modulation_ok_def new_modulation_def)

lemmas setter_defs = set_waveform_type_def set_dac_amplitude_def set_dac_frequency_def set_dac_offset_def mark_changed_def
  array_set_def modulation_ok_def word_less_nat_alt

text \<open>A setter marks the channel; a channel that is not one of the two is written outside of the arrays.\<close>

lemma setters_mark:
  assumes "modulation_ok s" and "channel < 2"
  shows "\<exists>s'. set_waveform_type channel ty s = Some s' \<and> modulation_ok s' \<and> modulation_changed s' ! unat channel"
    and "\<exists>s'. set_dac_amplitude channel x s = Some s' \<and> modulation_ok s' \<and> modulation_changed s' ! unat channel"
    and "\<exists>s'. set_dac_frequency channel x s = Some s' \<and> modulation_ok s' \<and> modulation_changed s' ! unat channel"
    and "\<exists>s'. set_dac_offset channel x s = Some s' \<and> modulation_ok s' \<and> modulation_changed s' ! unat channel"
  using assms by (simp_all add: setter_defs)

lemma setters_unchecked:
  assumes "modulation_ok s" and "\<not> channel < 2"
  shows "set_waveform_type channel ty s = None" and "set_dac_amplitude channel x s = None"
    and "set_dac_frequency channel x s = None" and "set_dac_offset channel x s = None"
  using assms by (simp_all add: setter_defs)

section \<open>Samples and words\<close>

lemma array_get_nat: "i < length xs \<Longrightarrow> length xs < 2 ^ 32 \<Longrightarrow> array_get xs (word_of_nat i) = Some (xs ! i)"
  by (simp add: array_get_def unat_of_nat)

lemma array_set_nat: "i < length xs \<Longrightarrow> length xs < 2 ^ 32 \<Longrightarrow> array_set xs (word_of_nat i) x = Some (xs[i := x])"
  by (simp add: array_set_def unat_of_nat)

lemma unat_lt_2p32: "unat (n :: u32) < 2 ^ 32"
  using unsigned_less [of n] by simp

text \<open>The loop fills every element, when the waveform is defined there.\<close>

lemma fill_waveform_all:
  assumes len: "length memory = unat n" and at: "\<And>i. i < unat n \<Longrightarrow> at (word_of_nat i) = Some (v i)"
  shows "fill_waveform F a off at n memory = Some (map (\<lambda>i. wf_add F (wf_mul F a (v i)) off) [0..<unat n])"
proof -
  let ?f = "\<lambda>i. wf_add F (wf_mul F a (v i)) off"
  let ?I = "\<lambda>k d. length d = unat n \<and> (\<forall>j < k. d ! j = ?f j)"
  have "\<exists>d. fill_waveform F a off at n memory = Some d \<and> ?I (unat n) d"
    unfolding fill_waveform_def
  proof (rule for_loop_inv [where I = ?I])
    fix k d assume "k < unat n" "?I k d"
    then show "\<exists>d'. Option.bind (at (word_of_nat k)) (\<lambda>v. array_set d (word_of_nat k) (wf_add F (wf_mul F a v) off)) = Some d' \<and> ?I (Suc k) d'"
      using at [of k] unat_lt_2p32 [of n] by (simp add: array_set_nat less_Suc_eq)
  qed (simp_all add: len)
  then obtain d where "fill_waveform F a off at n memory = Some d" "?I (unat n) d" by blast
  moreover from this(2) have "d = map ?f [0..<unat n]" by (intro nth_equalityI) simp_all
  ultimately show ?thesis by simp
qed

text \<open>
  A triangle is undefined as soon as its period is zero samples, that is when the frequency is above the sampling rate, and when
  the quotient is not a number of 32 bits, as for the frequency 0 a channel starts with.
\<close>

lemma triangle_undefined:
  assumes "array_get (waveform_type s) channel = Some 1" and "array_get (dac_frequency s) channel = Some freq"
    and "wf_to_u32 F (wf_div F (wf_of_u32 F (sampling_rate P)) freq) \<in> {None, Some 0}" and "0 < wfm_size P"
  shows "get_float_dac_waveform F P memory channel s = None"
proof -
  have "0 < unat (wfm_size P)" using assms(4) by (simp add: word_less_nat_alt)
  then have "fill_waveform F a off (triangle_at F 0) (wfm_size P) memory = None" for a off
    by (simp add: fill_waveform_def for_loop.simps [of 0] triangle_at_def)
  then show ?thesis
    using assms(1-3) by (auto simp: get_float_dac_waveform_def bind_eq_None_conv)
qed

text \<open>The two samples of a word do not overlap, and each is the two's complement of its value in 14 bits.\<close>

lemma dac_sample_bits:
  assumes "dac_sample F x = Some v"
  shows "v < 2 ^ 15" and "\<exists>u. wf_to_u32 F (wf_add F (wf_mul F (wf_of_int F 8192) x) (wf_of_int F 8192)) = Some u \<and>
    take_bit 14 v = take_bit 14 (u + 8192)"
proof -
  obtain u where u: "wf_to_u32 F (wf_add F (wf_mul F (wf_of_int F 8192) x) (wf_of_int F 8192)) = Some u" "v = u mod 16384 + 8192"
    using assms by (auto simp: dac_sample_def bind_eq_Some_conv)
  have m: "u mod 16384 = take_bit 14 u" by (simp add: take_bit_eq_mod)
  have "unat (take_bit 14 u) < 2 ^ 14" unfolding unsigned_take_bit_eq by (rule take_bit_nat_less_exp)
  then have "unat v = unat (take_bit 14 u) + 8192" unfolding u(2) m by (simp add: unat_word_ariths)
  then show "v < 2 ^ 15" using \<open>unat (take_bit 14 u) < 2 ^ 14\<close> by (simp add: word_less_nat_alt)
  show "\<exists>u. wf_to_u32 F (wf_add F (wf_mul F (wf_of_int F 8192) x) (wf_of_int F 8192)) = Some u \<and>
    take_bit 14 v = take_bit 14 (u + 8192)"
  proof (intro exI conjI)
    have "take_bit 14 (take_bit 14 x + 8192) = take_bit 14 (x + 8192)" for x :: int
      by (simp add: take_bit_eq_mod mod_simps)
    then show "take_bit 14 v = take_bit 14 (u + 8192)"
      unfolding u(2) m by transfer (simp add: take_bit_take_bit min_def)
  qed (rule u(1))
qed

lemma dac_word_halves:
  assumes "dac_word F d i = Some v" and "Suc (2 * i) < length d" and "length d < 2 ^ 32"
  shows "dac_sample F (d ! Suc (2 * i)) = Some (take_bit 16 v)" and "dac_sample F (d ! (2 * i)) = Some (drop_bit 16 v)"
proof -
  obtain lo hi where s: "dac_sample F (d ! Suc (2 * i)) = Some lo" "dac_sample F (d ! (2 * i)) = Some hi"
    and v: "v = lo + push_bit 16 hi"
    using assms array_get_nat [of "Suc (2 * i)" d] array_get_nat [of "2 * i" d]
    by (auto simp: dac_word_def bind_eq_Some_conv simp del: of_nat_Suc of_nat_mult)
  have b: "bit lo n \<Longrightarrow> n < 15" "bit hi n \<Longrightarrow> n < 15" for n
    using less_mask_eq [of lo 15] less_mask_eq [of hi 15] dac_sample_bits(1) [OF s(1)] dac_sample_bits(1) [OF s(2)]
      bit_and_iff [of lo "mask 15" n] bit_and_iff [of hi "mask 15" n]
    by (simp_all add: bit_mask_iff)
  have v': "v = lo OR push_bit 16 hi"
    unfolding v by (rule disjunctive_add) (auto simp: bit_simps dest: b)
  have "take_bit 16 v = lo" "drop_bit 16 v = hi"
    unfolding v' by (rule bit_word_eqI; auto simp: bit_simps dest: b)+
  then show "dac_sample F (d ! Suc (2 * i)) = Some (take_bit 16 v)" "dac_sample F (d ! (2 * i)) = Some (drop_bit 16 v)"
    using s by simp_all
qed

text \<open>The words of a waveform, when every sample converts.\<close>

lemma dac_words_all:
  assumes "\<And>i. i < unat (wfm_size P div 2) \<Longrightarrow> dac_word F d i = Some (v i)"
  shows "dac_words F P d = Some (map v [0..<unat (wfm_size P div 2)])"
proof -
  let ?n = "unat (wfm_size P div 2)" and ?body = "\<lambda>i arr. Option.bind (dac_word F d i) (\<lambda>v. Some (arr @ [v]))"
  have "\<exists>arr. for_loop 0 ?n ?body [] = Some arr \<and> arr = map v [0..<?n]"
    by (rule for_loop_inv [where I = "\<lambda>k arr. arr = map v [0..<k]"]) (use assms in simp_all)
  then show ?thesis by (simp add: dac_words_def)
qed

lemma dac_words_length:
  assumes "dac_words F P d = Some arr"
  shows "length arr = unat (wfm_size P div 2)"
proof -
  have "length arr = 0 + unat (wfm_size P div 2)"
    by (rule for_loop_partial [OF assms [unfolded dac_words_def], where I = "\<lambda>k arr. length arr = 0 + k"])
      (auto simp: bind_eq_Some_conv)
  then show ?thesis by simp
qed

section \<open>Status updates the converters\<close>

text \<open>
  The map of the converters has two blocks; \<open>R\<close> are the words that keep what is written to them, and the two waveforms are among
  them.
\<close>

definition word_at :: "handle \<Rightarrow> nat \<Rightarrow> nat \<Rightarrow> u32" where
  "word_at h c j = get_base_addr (fst h) + get_range (fst h) * word_of_nat c + 4 * word_of_nat j"

definition dac_hw :: "'w bus \<Rightarrow> ('w \<Rightarrow> u32 \<Rightarrow> u32) \<Rightarrow> u32 set \<Rightarrow> wfm_prm \<Rightarrow> handle \<Rightarrow> nat \<Rightarrow> bool" where
  "dac_hw b peek R P h k \<longleftrightarrow> storage b peek R \<and> mapped (fst h) (snd h) k \<and> is_writable (fst h) \<and> is_readable (fst h) \<and>
     unat (get_base_addr (fst h)) mod 2 ^ k = 0 \<and> unat (get_range (fst h)) mod 4 = 0 \<and> get_n_blocks (fst h) = 2 \<and>
     unat (get_range (fst h)) * 2 = 2 ^ k \<and> 0 < wfm_size P div 2 \<and> 4 * unat (wfm_size P div 2) \<le> unat (get_range (fst h)) \<and>
     (\<forall>c < 2. \<forall>j < unat (wfm_size P div 2). word_at h c j \<in> R)"

definition waveform_words :: "'f wfm_flt \<Rightarrow> wfm_prm \<Rightarrow> 'f list \<Rightarrow> u32 \<Rightarrow> 'f modulation \<Rightarrow> u32 list option" where
  "waveform_words F P memory channel s = Option.bind (get_float_dac_waveform F P memory channel s) (dac_words F P)"

lemma waveform_words_changed [simp]:
  "waveform_words F P memory channel (s\<lparr>modulation_changed := c\<rparr>) = waveform_words F P memory channel s"
  by (simp add: waveform_words_def get_float_dac_waveform_def)

lemma waveform_words_length: "waveform_words F P memory channel s = Some arr \<Longrightarrow> length arr = unat (wfm_size P div 2)"
  by (auto simp: waveform_words_def bind_eq_Some_conv dest: dac_words_length)

text \<open>The two waveforms do not overlap.\<close>

lemma blocks_apart:
  assumes hw: "dac_hw b peek R P h k" and "i < unat (wfm_size P div 2)" and "j < unat (wfm_size P div 2)"
  shows "word_at h 0 i \<noteq> word_at h 1 j"
proof
  assume eq: "word_at h 0 i = word_at h 1 j"
  let ?r = "get_range (fst h)"
  have k: "k < 32" and room: "4 * unat (wfm_size P div 2) \<le> unat ?r" and r: "unat ?r * 2 = 2 ^ k"
    using hw by (simp_all add: dac_hw_def mapped_def)
  have "(2::nat) ^ k \<le> 2 ^ 31" by (rule power_increasing) (use k in simp_all)
  then have r31: "unat ?r * 2 \<le> 2 ^ 31" using r by simp
  have "get_base_addr (fst h) + 4 * word_of_nat i = get_base_addr (fst h) + (?r + 4 * word_of_nat j)"
    using eq by (simp add: word_at_def add.assoc)
  then have "(4 * word_of_nat i :: u32) = ?r + 4 * word_of_nat j" by (simp only: add_left_cancel)
  moreover have "(4 * word_of_nat i :: u32) = word_of_nat (4 * i)" "?r + 4 * word_of_nat j = word_of_nat (unat ?r + 4 * j)" by simp_all
  ultimately have "unat (word_of_nat (4 * i) :: u32) = unat (word_of_nat (unat ?r + 4 * j) :: u32)" by (simp only:)
  moreover have lt: "4 * i < unat ?r" "unat ?r + 4 * j < 2 * unat ?r" using assms(2,3) room by linarith+
  moreover have "4 * i < 2 ^ LENGTH(32)" "unat ?r + 4 * j < 2 ^ LENGTH(32)" using lt r31 by simp_all
  ultimately have "4 * i = unat ?r + 4 * j" by (simp only: unat_of_nat mod_less)
  then show False using lt(1) by linarith
qed

text \<open>One channel: a changed channel is written to its block, and nothing else is.\<close>

lemma update_channel_ok:
  assumes hw: "dac_hw b peek R P (dac_map s) k" and ok: "modulation_ok s" and c: "c < 2"
    and words: "modulation_changed s ! c \<Longrightarrow> waveform_words F P memory (word_of_nat c) s = Some arr"
  shows "\<exists>w'. update_channel b F P memory (word_of_nat c) (s, w) =
      Some (s\<lparr>modulation_changed := (modulation_changed s)[c := False]\<rparr>, w') \<and>
    (\<forall>j < unat (wfm_size P div 2). peek w' (word_at (dac_map s) c j) =
      (if modulation_changed s ! c then arr ! j else peek w (word_at (dac_map s) c j))) \<and>
    (\<forall>a \<in> R. a \<notin> word_at (dac_map s) c ` {..<unat (wfm_size P div 2)} \<longrightarrow> peek w' a = peek w a)"
proof (cases "modulation_changed s ! c")
  case False
  then have "(modulation_changed s)[c := False] = modulation_changed s"
    using ok c by (simp add: modulation_ok_def list_update_same_conv)
  then show ?thesis
    using False ok c by (intro exI [of _ w]) (simp add: update_channel_def array_get_nat modulation_ok_def)
next
  case True
  let ?h = "dac_map s" and ?n = "unat (wfm_size P div 2)"
  note W = words [OF True]
  note len = waveform_words_length [OF W]
  have st: "storage b peek R" and mp: "mapped (fst ?h) (snd ?h) k" and rw: "is_writable (fst ?h)" "is_readable (fst ?h)"
    and al: "unat (get_base_addr (fst ?h)) mod 2 ^ k = 0" "unat (get_range (fst ?h)) mod 4 = 0" "unat (0 :: u32) mod 4 = 0"
    and nb: "get_n_blocks (fst ?h) = 2" and r: "unat (get_range (fst ?h)) * 2 = 2 ^ k" and n: "0 < wfm_size P div 2"
    and room: "4 * ?n \<le> unat (get_range (fst ?h))" and R: "\<And>j. j < ?n \<Longrightarrow> word_at ?h c j \<in> R"
    using hw c by (auto simp: dac_hw_def)
  have c2: "word_of_nat c < (2 :: u32)" using c by (auto simp: less_2_cases_iff)
  have "arr \<noteq> []" using n len by (auto simp: word_less_nat_alt)
  moreover have "get_base_addr (fst ?h) + get_range (fst ?h) * word_of_nat c + 0 + 4 * word_of_nat j = word_at ?h c j" for j
    by (simp add: word_at_def)
  ultimately obtain w' where w': "via b ?h set_ptr 0 arr (word_of_nat ?n) (word_of_nat c) w = Some w'"
    "\<forall>j < ?n. peek w' (word_at ?h c j) = arr ! j"
    "\<forall>a \<in> R. a \<notin> word_at ?h c ` {..<?n} \<longrightarrow> peek w' a = peek w a"
    using set_ptr_read_array [OF st mp rw al, of "word_of_nat c" arr "get_base_addr (fst ?h) + get_range (fst ?h) * word_of_nat c + 0" w]
      c2 nb r room R len by (auto simp del: add_0_right)
  then show ?thesis
    using True W ok c
    by (intro exI [of _ w'])
      (auto simp: update_channel_def array_get_nat array_set_nat modulation_ok_def set_dac_waveform_def waveform_words_def bind_eq_Some_conv)
qed

text \<open>
  The status is what the setters wrote. Afterwards no channel is marked, the block of a channel that was marked holds the words of
  its waveform, and nothing else has been written: a second call writes nothing.
\<close>

lemma get_modulation_status_ok:
  assumes hw: "dac_hw b peek R P (dac_map s) k" and ok: "modulation_ok s"
    and words: "\<And>c. c < 2 \<Longrightarrow> modulation_changed s ! c \<Longrightarrow> waveform_words F P memory (word_of_nat c) s = Some (arr c)"
  shows "\<exists>w'. get_modulation_status b F P memory s w = Some (((waveform_type s ! 0, waveform_type s ! 1),
      (dac_amplitude s ! 0, dac_amplitude s ! 1), (dac_frequency s ! 0, dac_frequency s ! 1), (dac_offset s ! 0, dac_offset s ! 1)),
      s\<lparr>modulation_changed := [False, False]\<rparr>, w') \<and>
    (\<forall>c < 2. \<forall>j < unat (wfm_size P div 2). peek w' (word_at (dac_map s) c j) =
      (if modulation_changed s ! c then arr c ! j else peek w (word_at (dac_map s) c j))) \<and>
    (\<forall>a \<in> R. (\<forall>c < 2. modulation_changed s ! c \<longrightarrow> a \<notin> word_at (dac_map s) c ` {..<unat (wfm_size P div 2)}) \<longrightarrow>
      peek w' a = peek w a)"
proof -
  let ?n = "unat (wfm_size P div 2)" and ?A = "word_at (dac_map s)" and ?u = "update_channel b F P memory"
  let ?s1 = "s\<lparr>modulation_changed := (modulation_changed s)[0 := False]\<rparr>"
  have len: "length (modulation_changed s) = 2" using ok by (simp add: modulation_ok_def)
  then obtain x y where xy: "modulation_changed s = [x, y]" by (auto simp: numeral_2_eq_2 length_Suc_conv)
  obtain w1 where 1: "?u 0 (s, w) = Some (?s1, w1)"
    "\<And>j. j < ?n \<Longrightarrow> peek w1 (?A 0 j) = (if x then arr 0 ! j else peek w (?A 0 j))"
    "\<And>a. a \<in> R \<Longrightarrow> a \<notin> ?A 0 ` {..<?n} \<Longrightarrow> peek w1 a = peek w a"
    using update_channel_ok [OF hw ok, of 0 F memory "arr 0" w] words [of 0] by (auto simp: xy)
  have "modulation_ok ?s1" using ok by (simp add: modulation_ok_def)
  then obtain w2 where 2: "?u 1 (?s1, w1) = Some (s\<lparr>modulation_changed := [False, False]\<rparr>, w2)"
    "\<And>j. j < ?n \<Longrightarrow> peek w2 (?A 1 j) = (if y then arr 1 ! j else peek w1 (?A 1 j))"
    "\<And>a. a \<in> R \<Longrightarrow> a \<notin> ?A 1 ` {..<?n} \<Longrightarrow> peek w2 a = peek w1 a"
    using update_channel_ok [of b peek R P ?s1 k 1 F memory "arr 1" w1] hw words [of 1] by (auto simp: xy)
  have inR: "?A c j \<in> R" if "c < 2" "j < ?n" for c j using hw that by (simp add: dac_hw_def)
  have apart: "?A 0 j \<notin> ?A 1 ` {..<?n}" "?A 1 j \<notin> ?A 0 ` {..<?n}" if "j < ?n" for j
    using blocks_apart [OF hw] that by (auto simp: eq_commute)
  have loop: "for_loop 0 2 (\<lambda>c. ?u (word_of_nat c)) (s, w) = Some (s\<lparr>modulation_changed := [False, False]\<rparr>, w2)"
    using 1(1) 2(1) by (simp add: for_loop.simps [of 0] for_loop.simps [of "Suc 0"])
  have "peek w2 (?A c j) = (if modulation_changed s ! c then arr c ! j else peek w (?A c j))" if c: "c < 2" and j: "j < ?n" for c j
  proof -
    consider "c = 0" | "c = 1" using c by linarith
    then show ?thesis
      using 1(2,3) 2(2,3) apart [OF j] inR [OF _ j] j by cases (simp_all add: xy)
  qed
  moreover have "peek w2 a = peek w a"
    if a: "a \<in> R" "\<forall>c < 2. modulation_changed s ! c \<longrightarrow> a \<notin> ?A c ` {..<?n}" for a
  proof -
    have a01: "x \<Longrightarrow> a \<notin> ?A 0 ` {..<?n}" "y \<Longrightarrow> a \<notin> ?A 1 ` {..<?n}"
      using a(2)[rule_format, of 0] a(2)[rule_format, of 1] by (auto simp: xy)
    have "peek w1 a = peek w a" using 1(2) 1(3) [OF a(1)] a01(1) by fastforce
    moreover have "peek w2 a = peek w1 a" using 2(2) 2(3) [OF a(1)] a01(2) by fastforce
    ultimately show ?thesis by simp
  qed
  moreover have "both (waveform_type s) = Some (waveform_type s ! 0, waveform_type s ! 1)"
    "both (dac_amplitude s) = Some (dac_amplitude s ! 0, dac_amplitude s ! 1)"
    "both (dac_frequency s) = Some (dac_frequency s ! 0, dac_frequency s ! 1)"
    "both (dac_offset s) = Some (dac_offset s ! 0, dac_offset s ! 1)"
    using ok by (simp_all add: both_def array_get_def modulation_ok_def)
  ultimately show ?thesis
    by (intro exI [of _ w2]) (simp add: get_modulation_status_def loop)
qed

end
