(* ===== verification/Session_Manager.thy ===== *)
theory Session_Manager
  imports Commands "HOL-Library.Multiset"
begin

text \<open>
  \<^verbatim>\<open>src/server/core/session_manager.hpp\<close> and \<^verbatim>\<open>session_manager.cpp\<close>: the pool of the sessions, the
  identifiers they get and give back, and the threads that own them (\<open>session_thread_call\<close> of
  \<^verbatim>\<open>server.hpp\<close>).

  \<open>std::map\<close> is a list of pairs in the order of the keys. A session object carries a serial number,
  its identity, which the program does not have: it tells a session from another one that was later
  created with the same identifier. \<open>create_session\<close> and \<open>delete_session\<close> hold the mutex, so the
  interleavings of threads are sequences of whole operations.
\<close>

section \<open>The pool\<close>

record pooled =
  serial :: nat
  p_fd :: int
  p_type :: SockType
  p_exit :: bool

record session_manager =
  session_pool :: "(int \<times> pooled) list"
  reusable_ids :: "int list"
  number_of_sessions :: int
  closed_fds :: "int list"

definition new_session_manager :: session_manager where
  "new_session_manager = \<lparr>session_pool = [], reusable_ids = [], number_of_sessions = 0, closed_fds = []\<rparr>"

text \<open>\<open>std::map::insert\<close> keeps an element that is already there.\<close>

fun pool_insert :: "int \<Rightarrow> 'a \<Rightarrow> (int \<times> 'a) list \<Rightarrow> (int \<times> 'a) list" where
  "pool_insert k v [] = [(k, v)]"
| "pool_insert k v ((k', v') # m) =
     (if k < k' then (k, v) # (k', v') # m
      else if k = k' then (k', v') # m
      else (k', v') # pool_insert k v m)"

definition is_reusable_id :: "int \<Rightarrow> session_manager \<Rightarrow> bool" where
  "is_reusable_id sid sm \<longleftrightarrow> list_ex (\<lambda>r. r = sid) (reusable_ids sm)"

definition get_session_ids :: "session_manager \<Rightarrow> int list" where
  "get_session_ids sm = map fst (session_pool sm)"

definition is_id_in_session_ids :: "int \<Rightarrow> session_manager \<Rightarrow> bool" where
  "is_id_in_session_ids sid sm \<longleftrightarrow> list_ex (\<lambda>c. c = sid) (get_session_ids sm)"

text \<open>\<open>session_pool.at(id)\<close> throws when there is no such session.\<close>

definition get_session :: "int \<Rightarrow> session_manager \<Rightarrow> pooled option" where
  "get_session sid sm = map_of (session_pool sm) sid"

definition get_number_of_sessions :: "session_manager \<Rightarrow> nat" where
  "get_number_of_sessions sm = length (session_pool sm)"

definition create_session :: "nat \<Rightarrow> SockType \<Rightarrow> int \<Rightarrow> session_manager \<Rightarrow> int \<times> session_manager" where
  "create_session k socket_type comm_fd sm = (
     let (new_id, reusable) = (if reusable_ids sm = [] then (number_of_sessions sm, [])
           else (last (reusable_ids sm), butlast (reusable_ids sm)))
     in (new_id, sm\<lparr>reusable_ids := reusable,
          session_pool := pool_insert new_id \<lparr>serial = k, p_fd = comm_fd, p_type = socket_type, p_exit = False\<rparr>
            (session_pool sm),
          number_of_sessions := number_of_sessions sm + 1\<rparr>))"

definition delete_session :: "int \<Rightarrow> session_manager \<Rightarrow> session_manager" where
  "delete_session sid sm =
     (if \<not> is_id_in_session_ids sid sm then sm
      else sm\<lparr>closed_fds := closed_fds sm @ (case get_session sid sm of Some s \<Rightarrow> [p_fd s] | None \<Rightarrow> []),
        session_pool := filter (\<lambda>(k, _). k \<noteq> sid) (session_pool sm),
        reusable_ids := reusable_ids sm @ [sid],
        number_of_sessions := number_of_sessions sm - 1\<rparr>)"

definition delete_all :: "session_manager \<Rightarrow> session_manager" where
  "delete_all sm = (if session_pool sm = [] then sm else fold delete_session (get_session_ids sm) sm)"

definition exit_comm :: "session_manager \<Rightarrow> session_manager" where
  "exit_comm sm = sm\<lparr>session_pool := map (\<lambda>(k, s). (k, s\<lparr>p_exit := True\<rparr>)) (session_pool sm)\<rparr>"

section \<open>The invariant\<close>

text \<open>
  Identifiers in use and identifiers to be reused partition an initial segment of the integers; the
  counter is the size of the pool, and the keys are in order.
\<close>

definition sm_ok :: "session_manager \<Rightarrow> bool" where
  "sm_ok sm \<longleftrightarrow> sorted_wrt (<) (get_session_ids sm) \<and> distinct (reusable_ids sm) \<and>
     set (get_session_ids sm) \<inter> set (reusable_ids sm) = {} \<and>
     set (get_session_ids sm) \<union> set (reusable_ids sm)
       = {0 ..< int (length (session_pool sm) + length (reusable_ids sm))} \<and>
     number_of_sessions sm = int (length (session_pool sm))"

lemma ids_insert: "set (map fst (pool_insert k v m)) = insert k (set (map fst m))"
  by (induction k v m rule: pool_insert.induct) (simp_all add: insert_commute)

lemma sorted_insert: "sorted_wrt (<) (map fst m) \<Longrightarrow> sorted_wrt (<) (map fst (pool_insert k v m))"
proof (induction m)
  case (Cons a m)
  then show ?case using ids_insert [of k v m] by (cases a) auto
qed simp

lemma length_insert: "k \<notin> set (map fst m) \<Longrightarrow> length (pool_insert k v m) = Suc (length m)"
  by (induction m) auto

lemma map_of_insert:
  "k \<notin> set (map fst m) \<Longrightarrow> map_of (pool_insert k v m) = (map_of m)(k \<mapsto> v)"
  by (induction m) (auto simp: fun_upd_twist)

lemma sm_ok_new: "sm_ok new_session_manager"
  by (simp add: sm_ok_def new_session_manager_def get_session_ids_def)

lemma id_in_ids: "is_id_in_session_ids sid sm \<longleftrightarrow> sid \<in> set (get_session_ids sm)"
  by (auto simp: is_id_in_session_ids_def list_ex_iff)

lemma get_session_ids_iff: "sid \<in> set (get_session_ids sm) \<longleftrightarrow> (\<exists>s. get_session sid sm = Some s)"
  using map_of_eq_None_iff [of "session_pool sm" sid] 
  by (cases "map_of (session_pool sm) sid") (simp_all add: get_session_ids_def get_session_def)

text \<open>A new session gets an identifier nobody has.\<close>

lemma create_session_fresh:
  assumes "sm_ok sm" and "create_session k ty fd sm = (sid, sm')"
  shows "sid \<notin> set (get_session_ids sm)" and "0 \<le> sid"
    and "sid \<le> int (length (session_pool sm) + length (reusable_ids sm))"
proof -
  have "sid \<notin> set (get_session_ids sm) \<and> 0 \<le> sid \<and>
      sid \<le> int (length (session_pool sm) + length (reusable_ids sm))"
  proof (cases "reusable_ids sm = []")
    case True
    then have "sid = int (length (session_pool sm))"
      "set (get_session_ids sm) = {0 ..< int (length (session_pool sm))}"
      using assms by (auto simp: create_session_def sm_ok_def)
    then show ?thesis using True by simp
  next
    case False
    then have "sid \<in> set (reusable_ids sm)" using assms(2) by (auto simp: create_session_def)
    moreover from this assms(1) have "sid \<in> {0 ..< int (length (session_pool sm) + length (reusable_ids sm))}"
      unfolding sm_ok_def by blast
    ultimately show ?thesis using assms(1) by (auto simp: sm_ok_def)
  qed
  then show "sid \<notin> set (get_session_ids sm)" "0 \<le> sid"
    "sid \<le> int (length (session_pool sm) + length (reusable_ids sm))" by blast+
qed

lemma create_session_ok:
  assumes "sm_ok sm" and "create_session k ty fd sm = (sid, sm')"
  shows "sm_ok sm'"
    and "get_session sid sm' = Some \<lparr>serial = k, p_fd = fd, p_type = ty, p_exit = False\<rparr>"
    and "j \<noteq> sid \<Longrightarrow> get_session j sm' = get_session j sm"
    and "get_number_of_sessions sm' = Suc (get_number_of_sessions sm)"
proof -
  note fresh = create_session_fresh [OF assms]
  have pool: "session_pool sm' = pool_insert sid \<lparr>serial = k, p_fd = fd, p_type = ty, p_exit = False\<rparr> (session_pool sm)"
    using assms(2) by (auto simp: create_session_def Let_def split: if_splits)
  have nid: "sid \<notin> set (map fst (session_pool sm))" using fresh(1) by (simp add: get_session_ids_def)
  show "get_session sid sm' = Some \<lparr>serial = k, p_fd = fd, p_type = ty, p_exit = False\<rparr>"
    "j \<noteq> sid \<Longrightarrow> get_session j sm' = get_session j sm"
    using map_of_insert [OF nid] by (simp_all add: get_session_def pool)
  show "get_number_of_sessions sm' = Suc (get_number_of_sessions sm)"
    using length_insert [OF nid] by (simp add: get_number_of_sessions_def pool)
  have ids: "set (get_session_ids sm') = insert sid (set (get_session_ids sm))"
    using ids_insert by (simp add: get_session_ids_def pool)
  have srt: "sorted_wrt (<) (get_session_ids sm')"
    using assms(1) sorted_insert [of "session_pool sm"] by (simp add: get_session_ids_def pool sm_ok_def)
  have len: "length (session_pool sm') = Suc (length (session_pool sm))"
    using length_insert [OF nid] by (simp add: pool)
  have num: "number_of_sessions sm' = number_of_sessions sm + 1"
    using assms(2) by (auto simp: create_session_def Let_def split: if_splits)
  show "sm_ok sm'"
  proof (cases "reusable_ids sm = []")
    case True
    then have "reusable_ids sm' = []" "sid = int (length (session_pool sm))"
      using assms by (auto simp: create_session_def Let_def sm_ok_def)
    then show ?thesis using assms(1) True ids srt len num by (auto simp: sm_ok_def)
  next
    case False
    define rs where "rs = butlast (reusable_ids sm)"
    have rs: "reusable_ids sm = rs @ [sid]" "reusable_ids sm' = rs"
      using assms(2) False by (auto simp: create_session_def Let_def rs_def)
    have "set (get_session_ids sm') \<union> set rs = set (get_session_ids sm) \<union> set (reusable_ids sm)"
      using ids rs by auto
    moreover have "length (session_pool sm') + length rs = length (session_pool sm) + length (reusable_ids sm)"
      using len rs by simp
    ultimately show ?thesis
      using assms(1) ids srt num rs len unfolding sm_ok_def by auto
  qed
qed

text \<open>Deleting gives the identifier back; for an identifier that is not in use nothing happens.\<close>

lemma map_of_filter_key: "map_of (filter (\<lambda>(k, _). k \<noteq> x) m) = (map_of m)(x := None)"
  by (induction m) (auto simp: fun_eq_iff)

lemma ids_filter: "map fst (filter (\<lambda>(k, _). k \<noteq> x) m) = filter (\<lambda>k. k \<noteq> x) (map fst m)"
  by (induction m) auto

lemma delete_session_absent: "sid \<notin> set (get_session_ids sm) \<Longrightarrow> delete_session sid sm = sm"
  by (simp add: delete_session_def id_in_ids)

lemma delete_session_ids:
  "get_session_ids (delete_session sid sm) = filter (\<lambda>k. k \<noteq> sid) (get_session_ids sm)"
proof (cases "sid \<in> set (get_session_ids sm)")
  case True
  then show ?thesis by (simp add: delete_session_def id_in_ids) (simp add: get_session_ids_def ids_filter)
next
  case False
  then have "filter (\<lambda>k. k \<noteq> sid) (get_session_ids sm) = get_session_ids sm" by (auto simp: filter_id_conv)
  then show ?thesis using delete_session_absent [OF False] by simp
qed

lemma get_session_delete:
  "get_session j (delete_session sid sm) = (if j = sid then None else get_session j sm)"
proof (cases "sid \<in> set (get_session_ids sm)")
  case True
  then show ?thesis by (simp add: delete_session_def id_in_ids get_session_def map_of_filter_key)
next
  case False
  then have "get_session sid sm = None" using get_session_ids_iff [of sid sm] by auto
  then show ?thesis using delete_session_absent [OF False] by simp
qed

lemma sorted_distinct: "sm_ok sm \<Longrightarrow> distinct (get_session_ids sm)"
  by (simp add: sm_ok_def strict_sorted_iff)

lemma delete_session_ok:
  assumes "sm_ok sm"
  shows "sm_ok (delete_session sid sm)"
proof (cases "sid \<in> set (get_session_ids sm)")
  case False
  then show ?thesis using assms delete_session_absent by simp
next
  case True
  let ?sm = "delete_session sid sm" and ?ids = "get_session_ids sm"
  have ids: "get_session_ids ?sm = filter (\<lambda>k. k \<noteq> sid) ?ids" by (rule delete_session_ids)
  have re: "reusable_ids ?sm = reusable_ids sm @ [sid]" "number_of_sessions ?sm = number_of_sessions sm - 1"
    using True by (simp_all add: delete_session_def id_in_ids)
  have len: "Suc (length (session_pool ?sm)) = length (session_pool sm)"
  proof -
    have "length (session_pool ?sm) = length (removeAll sid ?ids)"
      using arg_cong [OF ids, of length] by (simp add: get_session_ids_def removeAll_filter_not_eq eq_commute)
    also have "\<dots> = length (remove1 sid ?ids)" using sorted_distinct [OF assms] by (simp add: distinct_remove1_removeAll)
    also have "Suc \<dots> = length ?ids" using True by (simp add: length_remove1) (metis Suc_pred length_pos_if_in_set)
    finally show ?thesis by (simp add: get_session_ids_def)
  qed
  have "set (get_session_ids ?sm) \<union> set (reusable_ids ?sm) = set ?ids \<union> set (reusable_ids sm)"
    using True by (auto simp: ids re)
  moreover have "length (session_pool ?sm) + length (reusable_ids ?sm) = length (session_pool sm) + length (reusable_ids sm)"
    using len re by simp
  moreover have "set (get_session_ids ?sm) \<inter> set (reusable_ids ?sm) = {}" "distinct (reusable_ids ?sm)"
    using assms True by (auto simp: ids re sm_ok_def)
  moreover have "sorted_wrt (<) (get_session_ids ?sm)"
    using assms by (simp add: ids sm_ok_def sorted_wrt_filter)
  ultimately show ?thesis using assms len re(2) by (simp add: sm_ok_def)
qed

lemma fold_delete:
  "sm_ok sm \<Longrightarrow> sm_ok (fold delete_session xs sm) \<and>
    get_session_ids (fold delete_session xs sm) = filter (\<lambda>k. k \<notin> set xs) (get_session_ids sm)"
  by (induction xs arbitrary: sm) (auto simp: delete_session_ok delete_session_ids intro: filter_cong)

lemma delete_all_ok:
  assumes "sm_ok sm"
  shows "sm_ok (delete_all sm)" and "session_pool (delete_all sm) = []" and "number_of_sessions (delete_all sm) = 0"
proof -
  show ok: "sm_ok (delete_all sm)"
    using assms fold_delete by (simp add: delete_all_def)
  have "get_session_ids (delete_all sm) = []"
    using fold_delete [OF assms, of "get_session_ids sm"]
    by (auto simp: delete_all_def get_session_ids_def filter_empty_conv)
  then show "session_pool (delete_all sm) = []" by (simp add: get_session_ids_def)
  then show "number_of_sessions (delete_all sm) = 0" using ok by (simp add: sm_ok_def)
qed

lemma exit_comm_ok:
  "sm_ok sm \<Longrightarrow> sm_ok (exit_comm sm)"
  "get_session sid (exit_comm sm) = map_option (\<lambda>s. s\<lparr>p_exit := True\<rparr>) (get_session sid sm)"
proof -
  have ids: "get_session_ids (exit_comm sm) = get_session_ids sm"
    by (simp add: get_session_ids_def exit_comm_def comp_def case_prod_unfold)
  show "sm_ok sm \<Longrightarrow> sm_ok (exit_comm sm)" using ids by (simp add: sm_ok_def exit_comm_def)
  have "map_of (map (\<lambda>(k, s). (k, f s)) m) x = map_option f (map_of m x)" for f :: "pooled \<Rightarrow> pooled" and m x
    by (induction m) auto
  then show "get_session sid (exit_comm sm) = map_option (\<lambda>s. s\<lparr>p_exit := True\<rparr>) (get_session sid sm)"
    by (simp add: get_session_def exit_comm_def)
qed

section \<open>The threads of the sessions\<close>

text \<open>
  What a session thread relies on: the identifier it got stays its own until it deletes it.
  The interface gives the laws, the threads are the client.
\<close>

locale session_registry =
  fixes create :: "'k \<Rightarrow> 's \<Rightarrow> int \<times> 's"
    and delete :: "int \<Rightarrow> 's \<Rightarrow> 's"
    and owner :: "int \<Rightarrow> 's \<Rightarrow> 'k option"
    and ok :: "'s \<Rightarrow> bool"
  assumes create_ok: "ok s \<Longrightarrow> create k s = (i, s') \<Longrightarrow> ok s'"
    and create_fresh: "ok s \<Longrightarrow> create k s = (i, s') \<Longrightarrow> owner i s = None"
    and create_owner: "ok s \<Longrightarrow> create k s = (i, s') \<Longrightarrow> owner j s' = (if j = i then Some k else owner j s)"
    and delete_ok: "ok s \<Longrightarrow> ok (delete i s)"
    and delete_owner: "ok s \<Longrightarrow> owner j (delete i s) = (if j = i then None else owner j s)"
begin

definition owns :: "('k \<times> int) set \<Rightarrow> 's \<Rightarrow> bool" where
  "owns ts s \<longleftrightarrow> ok s \<and> (\<forall>k i. (k, i) \<in> ts \<longrightarrow> owner i s = Some k)"

lemma owns_start: "owns ts s \<Longrightarrow> create k s = (i, s') \<Longrightarrow> owns (insert (k, i) ts) s'"
  unfolding owns_def using create_ok [of s k i s'] create_fresh [of s k i s'] create_owner [of s k i s'] by auto

lemma owns_functional: "owns ts s \<Longrightarrow> (k, i) \<in> ts \<Longrightarrow> (k', i) \<in> ts \<Longrightarrow> k = k'"
  unfolding owns_def by (metis option.inject)

lemma owns_finish: "owns ts s \<Longrightarrow> (k, i) \<in> ts \<Longrightarrow> owns (ts - {(k, i)}) (delete i s)"
proof -
  assume o: "owns ts s" and i: "(k, i) \<in> ts"
  have "owner j (delete i s) = Some k'" if "(k', j) \<in> ts - {(k, i)}" for k' j
  proof -
    have "j \<noteq> i" using that owns_functional [OF o i] by auto
    then show ?thesis using that o delete_owner [of s j i] by (simp add: owns_def)
  qed
  then show "owns (ts - {(k, i)}) (delete i s)" using o delete_ok by (simp add: owns_def)
qed

end

text \<open>The connection of a session: its serial number, its type and its socket.\<close>

type_synonym connection = "nat \<times> SockType \<times> int"

definition open_session :: "connection \<Rightarrow> session_manager \<Rightarrow> int \<times> session_manager" where
  "open_session = (\<lambda>(k, ty, fd) sm. create_session k ty fd sm)"

definition connection_of :: "int \<Rightarrow> session_manager \<Rightarrow> connection option" where
  "connection_of sid sm = map_option (\<lambda>s. (serial s, p_type s, p_fd s)) (get_session sid sm)"

interpretation pool: session_registry open_session delete_session connection_of sm_ok
proof
  fix s :: session_manager and k :: connection and i s'
  assume ok: "sm_ok s" and c: "open_session k s = (i, s')"
  obtain n ty fd where k: "k = (n, ty, fd)" by (cases k)
  with c have c': "create_session n ty fd s = (i, s')" by (simp add: open_session_def)
  show "sm_ok s'" by (rule create_session_ok(1) [OF ok c'])
  show "connection_of i s = None"
    using create_session_fresh(1) [OF ok c'] get_session_ids_iff [of i s] by (cases "get_session i s") (auto simp: connection_of_def)
  show "connection_of j s' = (if j = i then Some k else connection_of j s)" for j
    using create_session_ok(2,3) [OF ok c'] by (simp add: connection_of_def k)
next
  fix s :: session_manager and i j
  assume "sm_ok s"
  then show "sm_ok (delete_session i s)" by (rule delete_session_ok)
  show "connection_of j (delete_session i s) = (if j = i then None else connection_of j s)"
    by (simp add: connection_of_def get_session_delete)
qed

text \<open>
  \<open>session_thread_call\<close>: a thread creates its session, and deletes it by its identifier when \<open>run\<close> has
  returned. The main thread may call \<open>delete_all\<close> at any time.
\<close>

type_synonym threads = "session_manager \<times> (connection \<times> int) list"

inductive thread_step :: "threads \<Rightarrow> threads \<Rightarrow> bool" where
  start: "open_session k sm = (sid, sm') \<Longrightarrow> thread_step (sm, ts) (sm', (k, sid) # ts)"
| finish: "(k, sid) \<in> set ts \<Longrightarrow> thread_step (sm, ts) (delete_session sid sm, removeAll (k, sid) ts)"

inductive server_step :: "threads \<Rightarrow> threads \<Rightarrow> bool" where
  thread: "thread_step s s' \<Longrightarrow> server_step s s'"
| shutdown: "server_step (sm, ts) (delete_all sm, ts)"

inductive_cases thread_stepE: "thread_step (sm, ts) s'"

definition initial :: threads where "initial = (new_session_manager, [])"

lemma thread_step_owns:
  assumes "thread_step s s'" and "pool.owns (set (snd s)) (fst s)"
  shows "pool.owns (set (snd s')) (fst s')"
  using assms
proof (induction rule: thread_step.induct)
  case (start k sm sid sm' ts)
  then show ?case using pool.owns_start [of "set ts" sm k sid sm'] by simp
next
  case (finish k sid ts sm)
  then show ?case using pool.owns_finish [of "set ts" sm k sid] by simp
qed

lemma reachable_owns: "thread_step\<^sup>*\<^sup>* initial s \<Longrightarrow> pool.owns (set (snd s)) (fst s)"
proof (induction rule: rtranclp_induct)
  case base
  then show ?case by (simp add: initial_def pool.owns_def sm_ok_new)
qed (blast intro: thread_step_owns)

section \<open>The abstract registry\<close>

text \<open>
  What the pool promises, without its lists: a map from identifiers to connections, each with the flag that tells its thread to
  stop, and the sockets closed so far. A new connection gets any identifier that is free.
\<close>

record registry =
  live :: "int \<rightharpoonup> connection \<times> bool"
  closed :: "int multiset"

definition empty_registry :: registry where
  "empty_registry = \<lparr>live = Map.empty, closed = {#}\<rparr>"

abbreviation socket_of :: "connection \<times> bool \<Rightarrow> int" where
  "socket_of c \<equiv> snd (snd (fst c))"

datatype sm_op = Open connection | Delete int | Delete_All | Exit_Comm

inductive reg_step :: "sm_op \<Rightarrow> int option \<Rightarrow> registry \<Rightarrow> registry \<Rightarrow> bool" where
  "live r i = None \<Longrightarrow> 0 \<le> i \<Longrightarrow> reg_step (Open c) (Some i) r (r\<lparr>live := (live r)(i \<mapsto> (c, False))\<rparr>)"
| "live r i = None \<Longrightarrow> reg_step (Delete i) None r r"
| "live r i = Some c \<Longrightarrow> reg_step (Delete i) None r \<lparr>live = (live r)(i := None), closed = add_mset (socket_of c) (closed r)\<rparr>"
| "reg_step Delete_All None r \<lparr>live = Map.empty, closed = closed r + image_mset (\<lambda>i. socket_of (the (live r i))) (mset_set (dom (live r)))\<rparr>"
| "reg_step Exit_Comm None r (r\<lparr>live := (\<lambda>i. map_option (\<lambda>(c, _). (c, True)) (live r i))\<rparr>)"

inductive reg_run :: "sm_op list \<Rightarrow> int option list \<Rightarrow> registry \<Rightarrow> registry \<Rightarrow> bool" where
  reg_nil: "reg_run [] [] r r"
| reg_cons: "reg_step p x r r1 \<Longrightarrow> reg_run ps xs r1 r2 \<Longrightarrow> reg_run (p # ps) (x # xs) r r2"

text \<open>The operations of the pool and what they return.\<close>

fun sm_exec :: "sm_op \<Rightarrow> session_manager \<Rightarrow> int option \<times> session_manager" where
  "sm_exec (Open c) sm = (let (i, sm) = open_session c sm in (Some i, sm))"
| "sm_exec (Delete i) sm = (None, delete_session i sm)"
| "sm_exec Delete_All sm = (None, delete_all sm)"
| "sm_exec Exit_Comm sm = (None, exit_comm sm)"

fun sm_run :: "sm_op list \<Rightarrow> session_manager \<Rightarrow> int option list \<times> session_manager" where
  "sm_run [] sm = ([], sm)"
| "sm_run (p # ps) sm = (let (x, sm) = sm_exec p sm; (xs, sm) = sm_run ps sm in (x # xs, sm))"

definition registry_of :: "session_manager \<Rightarrow> registry" where
  "registry_of sm = \<lparr>live = (\<lambda>i. map_option (\<lambda>s. ((serial s, p_type s, p_fd s), p_exit s)) (get_session i sm)),
     closed = mset (closed_fds sm)\<rparr>"

lemma registry_new: "registry_of new_session_manager = empty_registry"
  by (simp add: registry_of_def empty_registry_def new_session_manager_def get_session_def)

lemma dom_live: "dom (live (registry_of sm)) = set (get_session_ids sm)"
  using get_session_ids_iff by (auto simp: registry_of_def dom_def)

lemma create_keeps_closed: "closed_fds (snd (open_session c sm)) = closed_fds sm"
  by (cases c) (simp add: open_session_def create_session_def Let_def)

lemma registry_open:
  assumes "sm_ok sm" and "open_session c sm = (i, sm')"
  shows "reg_step (Open c) (Some i) (registry_of sm) (registry_of sm')"
proof -
  obtain k ty fd where c: "c = (k, ty, fd)" by (cases c)
  with assms(2) have cr: "create_session k ty fd sm = (i, sm')" by (simp add: open_session_def)
  have "i \<notin> dom (live (registry_of sm))" unfolding dom_live by (rule create_session_fresh(1) [OF assms(1) cr])
  then have free: "live (registry_of sm) i = None" by auto
  have "registry_of sm' = (registry_of sm)\<lparr>live := (live (registry_of sm))(i \<mapsto> (c, False))\<rparr>"
    using create_session_ok(2,3) [OF assms(1) cr] create_keeps_closed [of c sm] assms(2)
    by (auto simp: registry_of_def c fun_eq_iff)
  then show ?thesis using reg_step.intros(1) [OF free create_session_fresh(2) [OF assms(1) cr], of c] by simp
qed

lemma registry_delete:
  "registry_of (delete_session i sm) = (case live (registry_of sm) i of None \<Rightarrow> registry_of sm
    | Some c \<Rightarrow> \<lparr>live = (live (registry_of sm))(i := None), closed = add_mset (socket_of c) (closed (registry_of sm))\<rparr>)"
proof (cases "get_session i sm")
  case None
  then have "i \<notin> set (get_session_ids sm)" using get_session_ids_iff [of i sm] by simp
  then show ?thesis using None delete_session_absent by (simp add: registry_of_def)
next
  case (Some x)
  then have "is_id_in_session_ids i sm" using get_session_ids_iff [of i sm] by (simp add: id_in_ids)
  then have "closed_fds (delete_session i sm) = closed_fds sm @ [p_fd x]" using Some by (simp add: delete_session_def)
  then show ?thesis using Some by (auto simp: registry_of_def get_session_delete fun_eq_iff)
qed

lemma registry_fold_delete:
  "distinct xs \<Longrightarrow> set xs \<subseteq> dom (live (registry_of sm)) \<Longrightarrow>
    registry_of (fold delete_session xs sm) = \<lparr>live = (live (registry_of sm)) |` (- set xs),
      closed = closed (registry_of sm) + image_mset (\<lambda>i. socket_of (the (live (registry_of sm) i))) (mset xs)\<rparr>"
proof (induction xs arbitrary: sm)
  case (Cons x xs)
  then obtain c where c: "live (registry_of sm) x = Some c" by auto
  let ?r = "registry_of (delete_session x sm)"
  have r: "?r = \<lparr>live = (live (registry_of sm))(x := None), closed = add_mset (socket_of c) (closed (registry_of sm))\<rparr>"
    using c by (simp add: registry_delete)
  have sub: "set xs \<subseteq> dom (live ?r)" using Cons.prems by (auto simp: r)
  have im: "image_mset (\<lambda>i. socket_of (the (live ?r i))) (mset xs) =
      image_mset (\<lambda>i. socket_of (the (live (registry_of sm) i))) (mset xs)"
    by (rule image_mset_cong) (use Cons.prems(1) r in auto)
  have "registry_of (fold delete_session (x # xs) sm) = \<lparr>live = (live ?r) |` (- set xs),
      closed = closed ?r + image_mset (\<lambda>i. socket_of (the (live ?r i))) (mset xs)\<rparr>"
    using Cons.IH [OF _ sub] Cons.prems(1) by simp
  moreover have "(live ?r) |` (- set xs) = (live (registry_of sm)) |` (- set (x # xs))"
    by (auto simp: restrict_map_def fun_eq_iff r)
  ultimately show ?case unfolding im by (simp add: r c)
qed (simp add: restrict_map_def)

lemma registry_delete_all:
  assumes "sm_ok sm"
  shows "reg_step Delete_All None (registry_of sm) (registry_of (delete_all sm))"
proof -
  let ?r = "registry_of sm" and ?ids = "get_session_ids sm"
  have "registry_of (delete_all sm) = registry_of (fold delete_session ?ids sm)"
    by (simp add: delete_all_def get_session_ids_def)
  also have "\<dots> = \<lparr>live = (live ?r) |` (- set ?ids), closed = closed ?r + image_mset (\<lambda>i. socket_of (the (live ?r i))) (mset ?ids)\<rparr>"
    by (rule registry_fold_delete) (use sorted_distinct [OF assms] dom_live in simp_all)
  also have "mset ?ids = mset_set (dom (live ?r))"
    unfolding dom_live using sorted_distinct [OF assms] by (simp add: mset_set_set)
  also have "(live ?r) |` (- set ?ids) = Map.empty"
    using dom_live [of sm] by (auto simp: restrict_map_def fun_eq_iff dom_def)
  finally show ?thesis using reg_step.intros(4) [of ?r] by simp
qed

lemma registry_exit: "reg_step Exit_Comm None (registry_of sm) (registry_of (exit_comm sm))"
proof -
  have closed: "closed_fds (exit_comm sm) = closed_fds sm" by (simp add: exit_comm_def)
  have "registry_of (exit_comm sm) =
      (registry_of sm)\<lparr>live := (\<lambda>i. map_option (\<lambda>(c, _). (c, True)) (live (registry_of sm) i))\<rparr>"
    using closed by (simp add: registry_of_def exit_comm_ok(2) option.map_comp comp_def)
  then show ?thesis using reg_step.intros(5) [of "registry_of sm"] by simp
qed

lemma sm_exec_refines:
  assumes "sm_ok sm"
  shows "reg_step p (fst (sm_exec p sm)) (registry_of sm) (registry_of (snd (sm_exec p sm))) \<and> sm_ok (snd (sm_exec p sm))"
proof (cases p)
  case (Open c)
  obtain i sm' where c: "open_session c sm = (i, sm')" by fastforce
  then show ?thesis
    using Open registry_open [OF assms c] pool.create_ok [OF assms c] by simp
next
  case (Delete i)
  have "reg_step (Delete i) None (registry_of sm) (registry_of (delete_session i sm))"
    by (cases "live (registry_of sm) i") (simp_all add: registry_delete reg_step.intros(2,3))
  then show ?thesis using Delete delete_session_ok [OF assms] by simp
next
  case Delete_All
  then show ?thesis using registry_delete_all [OF assms] delete_all_ok(1) [OF assms] by simp
next
  case Exit_Comm
  then show ?thesis using registry_exit exit_comm_ok(1) [OF assms] by simp
qed

lemma sm_run_refines:
  "sm_ok sm \<Longrightarrow> reg_run ps (fst (sm_run ps sm)) (registry_of sm) (registry_of (snd (sm_run ps sm))) \<and> sm_ok (snd (sm_run ps sm))"
proof (induction ps arbitrary: sm)
  case (Cons p ps)
  obtain x sm1 where 1: "sm_exec p sm = (x, sm1)" by fastforce
  obtain xs sm2 where 2: "sm_run ps sm1 = (xs, sm2)" by fastforce
  have s: "reg_step p x (registry_of sm) (registry_of sm1)" "sm_ok sm1" using sm_exec_refines [OF Cons.prems, of p] 1 by simp_all
  have "reg_run ps xs (registry_of sm1) (registry_of sm2)" "sm_ok sm2" using Cons.IH [OF s(2)] 2 by simp_all
  then show ?case using reg_cons [OF s(1)] 1 2 by simp
qed (simp add: reg_nil)

lemma number_of_sessions_card:
  "sm_ok sm \<Longrightarrow> get_number_of_sessions sm = card (dom (live (registry_of sm)))"
  unfolding dom_live using sorted_distinct [of sm]
  by (simp add: distinct_card get_number_of_sessions_def) (simp add: get_session_ids_def)

section \<open>Properties\<close>

text \<open>
  C16: the session manager refines the registry: whatever sequence of operations the threads perform, the identifiers it returns
  are a run of the registry, which ends in the abstraction of the pool; in particular a new connection gets an identifier that
  no live one has, deleting one closes its socket and no other, and no socket is closed twice.
\<close>
theorem session_manager_refines_registry:
  "reg_run ps (fst (sm_run ps new_session_manager)) empty_registry (registry_of (snd (sm_run ps new_session_manager))) \<and>
   get_number_of_sessions (snd (sm_run ps new_session_manager)) =
     card (dom (live (registry_of (snd (sm_run ps new_session_manager)))))"
  using sm_run_refines [OF sm_ok_new, of ps] number_of_sessions_card by (simp add: registry_new)

text \<open>
  C15: the invariant of the session manager: the identifiers in use and those to be reused are
  disjoint and together an initial segment of the integers, without repetition, and the counter is
  the number of sessions. It holds initially and after every operation.
\<close>
theorem session_manager_invariant:
  "sm_ok new_session_manager \<and>
   (sm_ok sm \<longrightarrow> sm_ok (snd (create_session k ty fd sm)) \<and> sm_ok (delete_session sid sm) \<and>
      sm_ok (delete_all sm) \<and> sm_ok (exit_comm sm))"
  using create_session_ok(1) [of sm k ty fd] delete_session_ok delete_all_ok(1) exit_comm_ok(1) sm_ok_new
  by (metis prod.collapse)

theorem session_manager_invariant_witness:
  "sm_ok (snd (create_session 0 TCP 5 new_session_manager)) \<and> sm_ok (delete_session 0 new_session_manager) \<and>
   sm_ok (delete_all new_session_manager) \<and> sm_ok (exit_comm new_session_manager)"
  using session_manager_invariant [of new_session_manager 0 TCP 5 0] by blast

text \<open>
  A new session gets an identifier that no live session has, the pool then maps it to the new session and
  every other identifier to what it was; deleting it removes exactly that session, closes its socket and
  makes the identifier available again.
\<close>
lemma create_delete_session:
  assumes "sm_ok sm" and "create_session k ty fd sm = (sid, sm')"
  shows "get_session sid sm = None \<and>
    get_session sid sm' = Some \<lparr>serial = k, p_fd = fd, p_type = ty, p_exit = False\<rparr> \<and>
    (\<forall>j. get_session j (delete_session sid sm') = get_session j sm) \<and>
    closed_fds (delete_session sid sm') = closed_fds sm @ [fd] \<and>
    reusable_ids (delete_session sid sm') = reusable_ids sm' @ [sid]"
proof -
  have none: "get_session sid sm = None"
    using create_session_fresh(1) [OF assms] get_session_ids_iff [of sid sm] by (cases "get_session sid sm") auto
  moreover have "closed_fds sm' = closed_fds sm"
    using assms(2) by (auto simp: create_session_def Let_def split: if_splits)
  moreover have "sid \<in> set (get_session_ids sm')"
    using create_session_ok(2) [OF assms] get_session_ids_iff [of sid sm'] by simp
  moreover have "\<forall>j. get_session j (delete_session sid sm') = get_session j sm"
    using create_session_ok(3) [OF assms] none by (simp add: get_session_delete)
  ultimately show ?thesis
    using create_session_ok(2) [OF assms] by (simp add: delete_session_def id_in_ids)
qed



text \<open>
  \<open>delete_all\<close> empties the pool and closes the sockets, but the threads of the deleted sessions
  go on: when a connection is accepted before they end, it can get one of their identifiers, and the
  old thread then finds, and deletes, the session of the new one.
\<close>
lemma shutdown_breaks_ownership:
  "\<exists>sm ts k k' sid. server_step\<^sup>*\<^sup>* initial (sm, ts) \<and> (k, sid) \<in> set ts \<and> (k', sid) \<in> set ts \<and> k \<noteq> k' \<and>
     connection_of sid sm = Some k' \<and> connection_of sid (delete_session sid sm) = None"
proof -
  let ?a = "(0, TCP, 5) :: connection" and ?b = "(1, TCP, 6) :: connection"
  let ?s1 = "snd (open_session ?a new_session_manager)"
  let ?s2 = "snd (open_session ?b (delete_all ?s1))"
  have "server_step initial (?s1, [(?a, 0)])"
    unfolding initial_def
    by (intro server_step.thread thread_step.start)
      (simp add: open_session_def create_session_def new_session_manager_def)
  moreover have "server_step (?s1, [(?a, 0)]) (delete_all ?s1, [(?a, 0)])" by (rule server_step.shutdown)
  moreover have "server_step (delete_all ?s1, [(?a, 0)]) (?s2, [(?b, 0), (?a, 0)])"
    by (intro server_step.thread thread_step.start)
      (simp add: open_session_def create_session_def new_session_manager_def delete_all_def get_session_ids_def
        delete_session_def is_id_in_session_ids_def)
  ultimately have "server_step\<^sup>*\<^sup>* initial (?s2, [(?b, 0), (?a, 0)])"
    by (meson converse_rtranclp_into_rtranclp rtranclp.rtrancl_refl)
  moreover have "connection_of 0 ?s2 = Some ?b"
    by (simp add: connection_of_def get_session_def open_session_def create_session_def new_session_manager_def
        delete_all_def get_session_ids_def delete_session_def is_id_in_session_ids_def)
  moreover have "connection_of 0 (delete_session 0 ?s2) = None"
    by (simp add: connection_of_def get_session_delete)
  ultimately show ?thesis
    by (intro exI [of _ ?s2] exI [of _ "[(?b, 0), (?a, 0)]"] exI [of _ ?a] exI [of _ ?b] exI [of _ 0]) simp
qed

end
