(* ===== verification/Signal_Handler.thy ===== *)
theory Signal_Handler
  imports Prelude
begin

text \<open>
  \<^verbatim>\<open>src/server/core/signal_handler.hpp\<close> and \<^verbatim>\<open>signal_handler.cpp\<close>: which signals the server
  handles, and the handler that writes a backtrace to the log. \<open>sigaction\<close>, \<open>backtrace_symbols\<close> and
  the demangler are parameters.
\<close>

section \<open>Installing the handlers\<close>

datatype signal = SIGINT | SIGTERM | SIGPIPE | SIGTSTP | SIGSEGV | SIGBUS | SIGABRT

datatype disposition = Exit_handler | Ignore | Crash_handler

type_synonym 'w sigaction = "signal \<Rightarrow> disposition \<Rightarrow> 'w \<Rightarrow> int \<times> 'w"

definition set_interrupt_signals :: "'w sigaction \<Rightarrow> 'w \<Rightarrow> int \<times> 'w" where
  "set_interrupt_signals sa w = (
     let (r, w) = sa SIGINT Exit_handler w in if r < 0 then (-1, w)
     else let (r, w) = sa SIGTERM Exit_handler w in if r < 0 then (-1, w) else (0, w))"

definition set_ignore_signals :: "'w sigaction \<Rightarrow> 'w \<Rightarrow> int \<times> 'w" where
  "set_ignore_signals sa w = (
     let (r, w) = sa SIGPIPE Ignore w in if r < 0 then (-1, w)
     else let (r, w) = sa SIGTSTP Ignore w in if r < 0 then (-1, w) else (0, w))"

definition set_crash_signals :: "'w sigaction \<Rightarrow> 'w \<Rightarrow> int \<times> 'w" where
  "set_crash_signals sa w = (
     let (r, w) = sa SIGSEGV Crash_handler w in if r < 0 then (-1, w)
     else let (r, w) = sa SIGBUS Crash_handler w in if r < 0 then (-1, w)
     else let (r, w) = sa SIGABRT Crash_handler w in if r < 0 then (-1, w) else (0, w))"

definition signal_init :: "'w sigaction \<Rightarrow> 'w \<Rightarrow> int \<times> 'w" where
  "signal_init sa w = (
     let (r, w) = set_interrupt_signals sa w in if r < 0 then (-1, w)
     else let (r, w) = set_ignore_signals sa w in if r < 0 then (-1, w)
     else let (r, w) = set_crash_signals sa w in if r < 0 then (-1, w) else (0, w))"

section \<open>The handlers\<close>

text \<open>A message of the log: a crash, a line of the backtrace, or the remark that there is none.\<close>

datatype log_line = Crash signal string | No_backtrace | Frame nat string string string string

record handler =
  s_interrupted :: bool
  handler_log :: "log_line list"

definition exit_signal_handler :: "handler \<Rightarrow> handler" where
  "exit_signal_handler s = s\<lparr>s_interrupted := True\<rparr>"

definition signal_name :: "signal \<Rightarrow> string" where
  "signal_name sig = (if sig = SIGBUS then ''(Bus Error)'' else if sig = SIGSEGV then ''(Segmentation Fault)''
     else if sig = SIGABRT then ''(Abort)'' else ''(Unidentify signal)'')"

text \<open>
  The loop over the characters of a line: the last \<open>(\<close> and the last \<open>+\<close> before the first \<open>)\<close>.
\<close>

fun scan_frame :: "string \<Rightarrow> nat \<Rightarrow> nat option \<Rightarrow> nat option \<Rightarrow> nat option \<times> nat option \<times> nat option" where
  "scan_frame [] i mangled plus_at = (mangled, plus_at, None)"
| "scan_frame (c # cs) i mangled plus_at =
     (if c = CHR ''('' then scan_frame cs (Suc i) (Some i) plus_at
      else if c = CHR ''+'' then scan_frame cs (Suc i) mangled (Some i)
      else if c = CHR '')'' then (mangled, plus_at, Some i)
      else scan_frame cs (Suc i) mangled plus_at)"

text \<open>
  The three characters become terminators, so that the line falls into the file, the mangled name, the
  offset and the rest.
\<close>

definition frame_parts :: "string \<Rightarrow> (string \<times> string \<times> string \<times> string) option" where
  "frame_parts msg = (case scan_frame msg 0 None None of
       (Some mangled, Some offset_begin, Some offset_end) \<Rightarrow>
         if mangled < offset_begin
         then Some (take mangled msg, drop (mangled + 1) (take offset_begin msg),
           drop (offset_begin + 1) (take offset_end msg), drop (offset_end + 1) msg)
         else None
     | _ \<Rightarrow> None)"

definition frame_line :: "(string \<Rightarrow> string option) \<Rightarrow> nat \<Rightarrow> string \<Rightarrow> log_line list" where
  "frame_line demangle i msg = (case frame_parts msg of
       None \<Rightarrow> []
     | Some (file, mangled, offset, rest) \<Rightarrow>
         [Frame i file (case demangle mangled of Some real_name \<Rightarrow> real_name | None \<Rightarrow> mangled) offset rest])"

definition crash_signal_handler ::
    "(string \<Rightarrow> string option) \<Rightarrow> string list option \<Rightarrow> signal \<Rightarrow> handler \<Rightarrow> handler" where
  "crash_signal_handler demangle messages sig s =
     (if s_interrupted s then s
      else s\<lparr>handler_log := handler_log s @ [Crash sig (signal_name sig)] @
          (case messages of None \<Rightarrow> [No_backtrace]
           | Some ms \<Rightarrow> concat (map (\<lambda>(i, msg). frame_line demangle i msg) (enumerate 0 ms))),
        s_interrupted := True\<rparr>)"

section \<open>Properties\<close>

lemma scan_frame_segment:
  assumes "CHR '')'' \<notin> set xs"
  shows "\<exists>m' b'. scan_frame (xs @ ys) i m b = scan_frame ys (i + length xs) m' b' \<and>
    (CHR ''('' \<notin> set xs \<longrightarrow> m' = m) \<and> (CHR ''+'' \<notin> set xs \<longrightarrow> b' = b)"
  using assms
proof (induction xs arbitrary: i m b)
  case (Cons c xs)
  have IH: "\<exists>m' b'. scan_frame (xs @ ys) (Suc i) m1 b1 = scan_frame ys (Suc i + length xs) m' b' \<and>
      (CHR ''('' \<notin> set xs \<longrightarrow> m' = m1) \<and> (CHR ''+'' \<notin> set xs \<longrightarrow> b' = b1)" for m1 b1
    using Cons.IH [of "Suc i" m1 b1] Cons.prems by simp
  show ?case
    using IH [of "Some i" b] IH [of m "Some i"] IH [of m b] Cons.prems by auto
qed simp

text \<open>
  A line of the backtrace, \<open>file(name+offset)rest\<close>, is taken apart into exactly these parts.
\<close>
lemma frame_parts_correct:
  assumes "CHR '')'' \<notin> set file" and "set nm \<inter> {CHR ''('', CHR '')''} = {}"
    and "set offset \<inter> {CHR ''('', CHR ''+'', CHR '')''} = {}"
  shows "frame_parts (file @ ''('' @ nm @ ''+'' @ offset @ '')'' @ rest) = Some (file, nm, offset, rest)"
proof -
  let ?o = "length file" and ?p = "length file + 1 + length nm"
  obtain m1 b1 where 1: "scan_frame (file @ ''('' @ nm @ ''+'' @ offset @ '')'' @ rest) 0 None None
      = scan_frame (''('' @ nm @ ''+'' @ offset @ '')'' @ rest) ?o m1 b1"
    using scan_frame_segment [OF assms(1), of "''('' @ nm @ ''+'' @ offset @ '')'' @ rest" 0 None None] by auto
  obtain b2 where 2: "scan_frame (nm @ ''+'' @ offset @ '')'' @ rest) (Suc ?o) (Some ?o) b1
      = scan_frame (''+'' @ offset @ '')'' @ rest) (Suc ?o + length nm) (Some ?o) b2"
    using scan_frame_segment [of nm "''+'' @ offset @ '')'' @ rest" "Suc ?o" "Some ?o" b1] assms(2) by auto
  have 3: "scan_frame (offset @ '')'' @ rest) (Suc ?p) (Some ?o) (Some ?p)
      = scan_frame ('')'' @ rest) (Suc ?p + length offset) (Some ?o) (Some ?p)"
    using scan_frame_segment [of offset "'')'' @ rest" "Suc ?p" "Some ?o" "Some ?p"] assms(3) by auto
  have "scan_frame (file @ ''('' @ nm @ ''+'' @ offset @ '')'' @ rest) 0 None None
      = (Some ?o, Some ?p, Some (Suc ?p + length offset))"
    using 1 2 3 by simp
  then show ?thesis by (simp add: frame_parts_def numeral_3_eq_3)
qed

text \<open>
  \<open>init\<close> returns 0 exactly when every \<open>sigaction\<close> succeeded, and has then asked to end on \<open>SIGINT\<close> and
  \<open>SIGTERM\<close>, to ignore \<open>SIGPIPE\<close> and \<open>SIGTSTP\<close>, and to report the three crash signals, each once; it stops at
  the first failure.
\<close>
lemma signal_init_installs:
  "signal_init (\<lambda>sig d asked. (if fails sig then -1 else 0, asked @ [(sig, d)])) [] =
     (let all = [(SIGINT, Exit_handler), (SIGTERM, Exit_handler), (SIGPIPE, Ignore), (SIGTSTP, Ignore),
        (SIGSEGV, Crash_handler), (SIGBUS, Crash_handler), (SIGABRT, Crash_handler)];
        good = takeWhile (\<lambda>(sig, _). \<not> fails sig) all
      in if good = all then (0, all) else (-1, take (length good + 1) all))"
  by (simp add: signal_init_def set_interrupt_signals_def set_ignore_signals_def set_crash_signals_def Let_def)


end
