(* ===== verification/Server.thy ===== *)
theory Server
  imports Listening_Channel Session_Manager Drivers_Manager Signal_Handler
begin

text \<open>
  \<^verbatim>\<open>src/server/core/server.hpp\<close> and \<^verbatim>\<open>server.cpp\<close>: the server object, its construction, the
  notification of systemd, and the main loop that ends it.

  \<open>exit_all\<close> of the server is the flag the driver manager sets, \<open>dm_exit_all\<close>. What the other threads
  do while the main loop sleeps is a parameter, \<open>others\<close>, a function on the whole state. So is
  what they do until a listening thread that is joined has ended, \<open>joins\<close>.
\<close>

section \<open>The server\<close>

record server =
  exit_comm_flag :: bool
  tcp_listener :: channel
  websock_listener :: channel
  unix_listener :: channel
  drivers :: driver_manager
  sessions :: session_manager
  interrupted :: bool

definition with_listener :: "'w net \<Rightarrow> SockType \<Rightarrow> channel \<Rightarrow> 'w \<Rightarrow> (int \<times> channel \<times> 'w) option" where
  "with_listener N ty ch w = (if worker_connections ty > 0 then channel_init N ty ch w else Some (0, ch, w))"

text \<open>
  \<open>Server::Server\<close>: \<^term>\<open>Some (None, w)\<close> is \<open>exit(EXIT_FAILURE)\<close>. \<open>n\<close> and \<open>deps\<close> are the drivers of the
  instrument, \<open>kc\<close> is \<open>Common\<close>, and \<open>ctx_init\<close> is what \<open>Context::init\<close> returns.
\<close>

definition server_construct :: "'w net \<Rightarrow> 'w sigaction \<Rightarrow> (nat \<Rightarrow> nat list) \<Rightarrow> nat \<Rightarrow> nat \<Rightarrow> int \<Rightarrow> 'w \<Rightarrow>
    (server option \<times> 'w) option" where
  "server_construct N sa deps n kc ctx_init w = (
     let (r, w) = signal_init sa w in
     if r < 0 then Some (None, w)
     else do {
       (r, d) \<leftarrow> dm_init deps (n + 1) kc ctx_init (new_driver_manager n);
       if r < 0 then Some (None, w)
       else do {
         d \<leftarrow> Some (d\<lparr>dm_exit_all := False\<rparr>);
         (r, tcp, w) \<leftarrow> with_listener N TCP new_channel w;
         if r < 0 then Some (None, w)
         else do {
           (r, ws, w) \<leftarrow> with_listener N WEBSOCK new_channel w;
           if r < 0 then Some (None, w)
           else do {
             (r, un, w) \<leftarrow> with_listener N UNIX new_channel w;
             if r < 0 then Some (None, w)
             else Some (Some \<lparr>exit_comm_flag = False, tcp_listener = tcp, websock_listener = ws, unix_listener = un,
               drivers = d, sessions = new_session_manager, interrupted = False\<rparr>, w) } } } })"

text \<open>\<open>joins\<close> is what happens until a listening thread has ended; when it does not end, \<open>join\<close> does not return.\<close>

definition join_listeners_workers :: "(SockType \<Rightarrow> 'w \<Rightarrow> 'w option) \<Rightarrow> server \<Rightarrow> 'w \<Rightarrow> 'w option" where
  "join_listeners_workers joins s w = do {
     w \<leftarrow> join_worker joins TCP (tcp_listener s) w;
     w \<leftarrow> join_worker joins WEBSOCK (websock_listener s) w;
     join_worker joins UNIX (unix_listener s) w }"

definition close_listeners :: "'w net \<Rightarrow> (SockType \<Rightarrow> 'w \<Rightarrow> 'w option) \<Rightarrow> server \<Rightarrow> 'w \<Rightarrow> (server \<times> 'w) option" where
  "close_listeners N joins s w = (
     let s = s\<lparr>exit_comm_flag := True, sessions := exit_comm (sessions s)\<rparr>;
         w = channel_shutdown N TCP (tcp_listener s) w;
         w = channel_shutdown N WEBSOCK (websock_listener s) w;
         w = channel_shutdown N UNIX (unix_listener s) w
     in map_option (Pair s) (join_listeners_workers joins s w))"

definition start_listeners_workers :: "'w net \<Rightarrow> server \<Rightarrow> 'w \<Rightarrow> int \<times> 'w" where
  "start_listeners_workers N s w = (
     let (r, _, w) = start_worker N (tcp_listener s) w in if r < 0 then (-1, w)
     else let (r, _, w) = start_worker N (websock_listener s) w in if r < 0 then (-1, w)
     else let (r, _, w) = start_worker N (unix_listener s) w in if r < 0 then (-1, w) else (0, w))"

definition server_is_ready :: "server \<Rightarrow> bool" where
  "server_is_ready s = (
     let ready = True;
         ready = (if tcp_worker_connections > 0 then ready \<and> is_ready (tcp_listener s) else ready);
         ready = (if websocket_worker_connections > 0 then ready \<and> is_ready (websock_listener s) else ready);
         ready = (if unix_socket_worker_connections > 0 then ready \<and> is_ready (unix_listener s) else ready)
     in ready)"

text \<open>
  \<open>notify_systemd_ready\<close>. The name of the socket has \<open>len\<close> bytes in \<open>sun_path\<close>, the rest of which is
  not part of the address; \<open>alloc_ok\<close> tells whether \<open>malloc\<close> returned memory.
\<close>

definition notify_systemd :: bool where "notify_systemd = True"

definition sd_notify_socket :: string where "sd_notify_socket = ''/run/systemd/notify''"

definition sd_address :: "string \<Rightarrow> byte list" where
  "sd_address path = (
     let len = length path;
         sun_path = patch (replicate 108 0) 0 (map of_char (take (min len 108) path));
         sun_path = (if sun_path ! 0 = of_char (CHR ''@'') then sun_path[0 := 0] else sun_path)
     in take (110 - (108 - len) - 2) sun_path)"

definition sd_state :: string where
  "sd_state = ''STATUS=Koheron server is ready'' @ [CHR 0x0A] @ ''READY=1'' @ [CHR 0x0A]"

definition notify_systemd_ready :: "'w net \<Rightarrow> bool \<Rightarrow> 'w \<Rightarrow> 'w" where
  "notify_systemd_ready N alloc_ok w = (
     let (sd_notif_fd, w) = sys_socket N AF_UNIX w
     in if sd_notif_fd < 0 then w
        else let w = (if \<not> alloc_ok then w
                      else snd (sys_sendmsg N sd_notif_fd (sd_address sd_notify_socket) sd_state w));
                 w = snd (sys_shutdown N sd_notif_fd w)
             in sys_close N sd_notif_fd w)"

section \<open>The main loop\<close>

definition server_notify :: "'w net \<Rightarrow> bool \<Rightarrow> bool \<Rightarrow> server \<Rightarrow> 'w \<Rightarrow> bool \<times> 'w" where
  "server_notify N alloc_ok ready_notified s w =
     (if \<not> ready_notified \<and> server_is_ready s
      then (True, if notify_systemd then notify_systemd_ready N alloc_ok w else w) else (ready_notified, w))"

definition server_stops :: "server \<Rightarrow> bool" where
  "server_stops s \<longleftrightarrow> interrupted s \<or> dm_exit_all (drivers s)"

definition server_shutdown :: "'w net \<Rightarrow> (SockType \<Rightarrow> 'w \<Rightarrow> 'w option) \<Rightarrow> server \<Rightarrow> 'w \<Rightarrow> (server \<times> 'w) option" where
  "server_shutdown N joins s w = close_listeners N joins (s\<lparr>sessions := delete_all (sessions s)\<rparr>) w"

type_synonym 'w others = "server \<times> 'w \<Rightarrow> server \<times> 'w"

partial_function (option) server_loop ::
    "'w net \<Rightarrow> (SockType \<Rightarrow> 'w \<Rightarrow> 'w option) \<Rightarrow> bool \<Rightarrow> 'w others \<Rightarrow> bool \<Rightarrow> server \<Rightarrow> 'w \<Rightarrow> (int \<times> server \<times> 'w) option" where
  "server_loop N joins alloc_ok others ready_notified s w = (
     let (ready_notified, w) = server_notify N alloc_ok ready_notified s w
     in if server_stops s then map_option (Pair 0) (server_shutdown N joins s w)
        else let (s, w) = others (s, w) in server_loop N joins alloc_ok others ready_notified s w)"

definition server_run ::
    "'w net \<Rightarrow> (SockType \<Rightarrow> 'w \<Rightarrow> 'w option) \<Rightarrow> bool \<Rightarrow> 'w others \<Rightarrow> server \<Rightarrow> 'w \<Rightarrow> (int \<times> server \<times> 'w) option" where
  "server_run N joins alloc_ok others s w = (
     let (r, w) = start_listeners_workers N s w
     in if r < 0 then Some (-1, s, w) else server_loop N joins alloc_ok others False s w)"

section \<open>Properties\<close>

lemma notify_systemd_ready_message_parts:
  assumes "socket_api N fds"
  shows "fds (notify_systemd_ready N alloc_ok w) = fds w"
    and "sys_socket N AF_UNIX w = (fd, w1) \<Longrightarrow> fd \<ge> 0 \<Longrightarrow>
      notify_systemd_ready N True w = sys_close N fd (snd (sys_shutdown N fd (snd (sys_sendmsg N fd
        (map of_char ''/run/systemd/notify'') sd_state w1))))"
proof -
  have addr: "sd_address sd_notify_socket = map of_char ''/run/systemd/notify''"
    by (simp add: sd_address_def sd_notify_socket_def patch_def Let_def)
  show "sys_socket N AF_UNIX w = (fd, w1) \<Longrightarrow> fd \<ge> 0 \<Longrightarrow>
      notify_systemd_ready N True w = sys_close N fd (snd (sys_shutdown N fd (snd (sys_sendmsg N fd
        (map of_char ''/run/systemd/notify'') sd_state w1))))"
    unfolding notify_systemd_ready_def addr by (simp add: Let_def)
  obtain fd1 w2 where soc: "sys_socket N AF_UNIX w = (fd1, w2)" by force
  show "fds (notify_systemd_ready N alloc_ok w) = fds w"
    using soc socket_api.socket_fds [OF assms soc]
    by (auto simp: notify_systemd_ready_def Let_def socket_api.keeps_fds [OF assms])
qed

text \<open>
  \<open>notify_systemd_ready\<close> leaves no descriptor open, whatever fails; when the socket and the memory are there,
  it sends the ready state to \<open>/run/systemd/notify\<close> in one message and then closes the socket.
\<close>
lemma notify_systemd_ready_message:
  assumes "socket_api N fds"
  shows "fds (notify_systemd_ready N alloc_ok w) = fds w \<and>
    (sys_socket N AF_UNIX w = (fd, w1) \<and> fd \<ge> 0 \<longrightarrow>
      notify_systemd_ready N True w = sys_close N fd (snd (sys_shutdown N fd (snd (sys_sendmsg N fd
        (map of_char ''/run/systemd/notify'') sd_state w1)))))"
  using notify_systemd_ready_message_parts [OF assms] by blast

text \<open>The state after a number of rounds in which the loop does not end.\<close>

fun server_rounds :: "'w net \<Rightarrow> bool \<Rightarrow> 'w others \<Rightarrow> nat \<Rightarrow> bool \<Rightarrow> server \<Rightarrow> 'w \<Rightarrow> bool \<times> server \<times> 'w" where
  "server_rounds N alloc_ok others 0 nt s w = (nt, s, w)"
| "server_rounds N alloc_ok others (Suc n) nt s w = (
     let (nt, w) = server_notify N alloc_ok nt s w; (s, w) = others (s, w)
     in server_rounds N alloc_ok others n nt s w)"

definition stops_after :: "'w net \<Rightarrow> bool \<Rightarrow> 'w others \<Rightarrow> bool \<Rightarrow> server \<Rightarrow> 'w \<Rightarrow> nat \<Rightarrow> bool" where
  "stops_after N alloc_ok others nt s w n \<longleftrightarrow> server_stops (fst (snd (server_rounds N alloc_ok others n nt s w)))"

lemma stops_after_Suc:
  "server_notify N alloc_ok nt s w = (nt', w') \<Longrightarrow> others (s, w') = (s2, w2) \<Longrightarrow>
    stops_after N alloc_ok others nt s w (Suc n) = stops_after N alloc_ok others nt' s2 w2 n"
  by (simp add: stops_after_def)

lemma server_loop_ends:
  assumes "server_rounds N alloc_ok others n nt s w = (ntn, sn, wn)" and "server_stops sn"
    and "\<And>j. j < n \<Longrightarrow> \<not> stops_after N alloc_ok others nt s w j"
  shows "server_loop N joins alloc_ok others nt s w =
    map_option (Pair 0) (server_shutdown N joins sn (snd (server_notify N alloc_ok ntn sn wn)))"
  using assms
proof (induction n arbitrary: nt s w)
  case 0
  then show ?case by (simp add: server_loop.simps Let_def split: prod.splits)
next
  case (Suc n)
  obtain nt' w' where 1: "server_notify N alloc_ok nt s w = (nt', w')" by force
  obtain s2 w2 where 2: "others (s, w') = (s2, w2)" by force
  have "\<not> server_stops s" using Suc.prems(3) [of 0] by (simp add: stops_after_def)
  then have "server_loop N joins alloc_ok others nt s w = server_loop N joins alloc_ok others nt' s2 w2"
    using 1 2 by (subst server_loop.simps) simp
  also have "\<dots> = map_option (Pair 0) (server_shutdown N joins sn (snd (server_notify N alloc_ok ntn sn wn)))"
  proof (rule Suc.IH)
    show "server_rounds N alloc_ok others n nt' s2 w2 = (ntn, sn, wn)" using Suc.prems(1) 1 2 by simp
    show "server_stops sn" by (rule Suc.prems(2))
    show "\<not> stops_after N alloc_ok others nt' s2 w2 j" if "j < n" for j
      using Suc.prems(3) [of "Suc j"] that stops_after_Suc [where others = others, OF 1 2] by simp
  qed
  finally show ?case .
qed

lemma server_loop_returned:
  assumes H: "server_loop N joins alloc_ok others nt s w = Some r"
  shows "\<exists>n. stops_after N alloc_ok others nt s w n"
proof -
  have "N = N \<and> joins = joins \<and> alloc_ok = alloc_ok \<and> others = others \<longrightarrow> (\<exists>n. stops_after N alloc_ok others nt s w n)"
  proof (rule server_loop.raw_induct [where P = "\<lambda>N' j' a' o' nt s w r. N' = N \<and> j' = joins \<and> a' = alloc_ok \<and> o' = others \<longrightarrow>
        (\<exists>n. stops_after N alloc_ok others nt s w n)", OF _ H], goal_cases)
    case (1 loop N' j' a' o' nt s w r)
    show ?case
    proof (intro impI, elim conjE)
      assume eq: "N' = N" "j' = joins" "a' = alloc_ok" "o' = others"
      obtain nt' w' where n: "server_notify N alloc_ok nt s w = (nt', w')" by force
      obtain s2 w2 where o2: "others (s, w') = (s2, w2)" by force
      show "\<exists>n. stops_after N alloc_ok others nt s w n"
      proof (cases "server_stops s")
        case True
        then have "stops_after N alloc_ok others nt s w 0" by (simp add: stops_after_def)
        then show ?thesis ..
      next
        case False
        then have "loop N joins alloc_ok others nt' s2 w2 = Some r" using 1(2) eq n o2 by simp
        then obtain k where "stops_after N alloc_ok others nt' s2 w2 k" using 1(1) by blast
        then have "stops_after N alloc_ok others nt s w (Suc k)" using stops_after_Suc [where others = others, OF n o2] by simp
        then show ?thesis ..
      qed
    qed
  qed
  then show ?thesis by simp
qed

text \<open>The listening threads end, and leave no new descriptor behind.\<close>

definition threads_end :: "(SockType \<Rightarrow> 'w \<Rightarrow> 'w option) \<Rightarrow> ('w \<Rightarrow> int set) \<Rightarrow> int set \<Rightarrow> bool" where
  "threads_end joins fds lfds \<longleftrightarrow> (\<forall>ty w. \<exists>w'. joins ty w = Some w' \<and> (lfds \<inter> fds w = {} \<longrightarrow> lfds \<inter> fds w' = {}))"

lemma join_worker_ends:
  assumes "threads_end joins fds lfds" and "lfds \<inter> fds w = {}"
  obtains w' where "join_worker joins ty ch w = Some w'" and "lfds \<inter> fds w' = {}"
  using assms unfolding threads_end_def join_worker_def by (cases "listen_fd ch \<ge> 0") (simp_all, blast+)

abbreviation listening_fds :: "server \<Rightarrow> int set" where
  "listening_fds s \<equiv> {listen_fd (tcp_listener s), listen_fd (websock_listener s), listen_fd (unix_listener s)}"

lemma close_listeners_fds:
  assumes api: "socket_api N fds" and thr: "threads_end joins fds (listening_fds s)"
  shows "\<exists>s' w'. close_listeners N joins s w = Some (s', w') \<and> listening_fds s \<inter> fds w' = {} \<and> exit_comm_flag s' \<and>
    sessions s' = exit_comm (sessions s)"
proof -
  define w1 where "w1 = channel_shutdown N UNIX (unix_listener s) (channel_shutdown N WEBSOCK (websock_listener s)
    (channel_shutdown N TCP (tcp_listener s) w))"
  have "fds w1 = fds w - listening_fds s"
    by (auto simp: w1_def channel_specials Let_def socket_api.keeps_fds [OF api] worker_connections_def tcp_worker_connections_def
        websocket_worker_connections_def unix_socket_worker_connections_def split_beta)
  then have 1: "listening_fds s \<inter> fds w1 = {}" by auto
  obtain w2 where 2: "join_worker joins TCP (tcp_listener s) w1 = Some w2" "listening_fds s \<inter> fds w2 = {}"
    using join_worker_ends [OF thr 1] .
  obtain w3 where 3: "join_worker joins WEBSOCK (websock_listener s) w2 = Some w3" "listening_fds s \<inter> fds w3 = {}"
    using join_worker_ends [OF thr 2(2)] .
  obtain w4 where 4: "join_worker joins UNIX (unix_listener s) w3 = Some w4" "listening_fds s \<inter> fds w4 = {}"
    using join_worker_ends [OF thr 3(2)] .
  have "join_listeners_workers joins (s\<lparr>exit_comm_flag := True, sessions := exit_comm (sessions s)\<rparr>) w1 = Some w4"
    using 2(1) 3(1) 4(1) by (simp add: join_listeners_workers_def)
  then show ?thesis using 4(2) by (simp add: close_listeners_def w1_def Let_def)
qed

lemma server_run_shutdown_parts:
  assumes api: "socket_api N fds" and start: "start_listeners_workers N s w = (0, w0)"
  shows "server_rounds N alloc_ok others n False s w0 = (ntn, sn, wn) \<Longrightarrow> server_stops sn \<Longrightarrow>
      (\<And>j. j < n \<Longrightarrow> \<not> stops_after N alloc_ok others False s w0 j) \<Longrightarrow> sm_ok (sessions sn) \<Longrightarrow>
      threads_end joins fds (listening_fds sn) \<Longrightarrow>
      \<exists>s' w'. server_run N joins alloc_ok others s w = Some (0, s', w') \<and> exit_comm_flag s' \<and>
        session_pool (sessions s') = [] \<and> listening_fds sn \<inter> fds w' = {}"
    and "(\<And>j. \<not> stops_after N alloc_ok others False s w0 j) \<Longrightarrow> server_run N joins alloc_ok others s w = None"
    and "server_rounds N alloc_ok others n False s w0 = (ntn, sn, wn) \<Longrightarrow> server_stops sn \<Longrightarrow>
      (\<And>j. j < n \<Longrightarrow> \<not> stops_after N alloc_ok others False s w0 j) \<Longrightarrow>
      (\<And>v. joins TCP v = None) \<Longrightarrow> 0 \<le> listen_fd (tcp_listener sn) \<Longrightarrow> server_run N joins alloc_ok others s w = None"
proof -
  have run: "server_run N joins alloc_ok others s w = server_loop N joins alloc_ok others False s w0"
    using start by (simp add: server_run_def)
  show "server_run N joins alloc_ok others s w = None" if "\<And>j. \<not> stops_after N alloc_ok others False s w0 j"
    using server_loop_returned [of N joins alloc_ok others False s w0] that run
    by (cases "server_loop N joins alloc_ok others False s w0") auto
  assume n: "server_rounds N alloc_ok others n False s w0 = (ntn, sn, wn)" "server_stops sn"
    "\<And>j. j < n \<Longrightarrow> \<not> stops_after N alloc_ok others False s w0 j"
  note ends = server_loop_ends [where joins = joins, OF n]
  show "server_run N joins alloc_ok others s w = None" if "\<And>v. joins TCP v = None" "0 \<le> listen_fd (tcp_listener sn)"
    using ends run that
    by (simp add: server_shutdown_def close_listeners_def join_listeners_workers_def join_worker_def Let_def)
  assume sm: "sm_ok (sessions sn)" and thr: "threads_end joins fds (listening_fds sn)"
  let ?s = "sn\<lparr>sessions := delete_all (sessions sn)\<rparr>"
  have "threads_end joins fds (listening_fds ?s)" using thr by simp
  from close_listeners_fds [OF api this, of "snd (server_notify N alloc_ok ntn sn wn)"] obtain s' w' where
    "close_listeners N joins ?s (snd (server_notify N alloc_ok ntn sn wn)) = Some (s', w')"
    "listening_fds sn \<inter> fds w' = {}" "exit_comm_flag s'" "sessions s' = exit_comm (delete_all (sessions sn))"
    by auto
  moreover from this have "session_pool (sessions s') = []" using delete_all_ok(2) [OF sm] by (simp add: exit_comm_def)
  ultimately show "\<exists>s' w'. server_run N joins alloc_ok others s w = Some (0, s', w') \<and> exit_comm_flag s' \<and>
        session_pool (sessions s') = [] \<and> listening_fds sn \<inter> fds w' = {}"
    using ends run by (simp add: server_shutdown_def)
qed


definition sample_server :: server where
  "sample_server = \<lparr>exit_comm_flag = False, tcp_listener = new_channel\<lparr>listen_fd := 3\<rparr>,
     websock_listener = new_channel\<lparr>listen_fd := 4\<rparr>, unix_listener = new_channel\<lparr>listen_fd := 5\<rparr>,
     drivers = new_driver_manager 1, sessions = new_session_manager, interrupted = False\<rparr>"


text \<open>
  The constructor clears \<open>exit_all\<close> after the drivers were initialised: when \<open>Common\<close> could not be allocated, the
  request to exit is lost and the server runs without it.
\<close>
lemma startup_failure_forgotten:
  assumes "signal_init sa w = (0, w1)" and "dm_init deps (n + 1) kc ctx_init (new_driver_manager n) = Some (0, d)"
    and "dm_exit_all d"
    and "with_listener N TCP new_channel w1 = Some (r2, tcp, w2)" and "r2 \<ge> 0"
    and "with_listener N WEBSOCK new_channel w2 = Some (r3, ws, w3)" and "r3 \<ge> 0"
    and "with_listener N UNIX new_channel w3 = Some (r4, un, w4)" and "r4 \<ge> 0"
  shows "\<exists>s. server_construct N sa deps n kc ctx_init w = Some (Some s, w4) \<and> \<not> server_stops s \<and>
    null_ref (drivers s) = null_ref d \<and> m_started (drivers s) = m_started d"
  using assms by (simp add: server_construct_def server_stops_def)

end
