(* ===== verification/Resources.thy ===== *)
theory Resources
  imports Context "HOL-Library.Multiset"
begin

text \<open>
  The destructors of the context and its members (\<^verbatim>\<open>src/server/context\<close>): \<open>Memory\<close>, \<open>MemoryManagerImpl\<close>, \<open>I2cDev\<close>, \<open>SpiDev\<close> and \<open>Context\<close>, and
  that they give back what was acquired. A destructor is the list of the calls it makes.
\<close>

section \<open>Destructors\<close>

datatype release = Munmap u32 u32 | Close int

definition mem_destroy :: "mem_region \<Rightarrow> memory \<Rightarrow> release list" where
  "mem_destroy d m = (if is_opened m then [Munmap (mapped_base m) (get_total_size d)] else [])"

text \<open>\<open>close(fd)\<close>, also when the device was never opened, and then the maps of the tuple.\<close>

definition mm_destroy :: "mem_region list \<Rightarrow> memory_manager \<Rightarrow> release list" where
  "mm_destroy regions mm = Close (mm_fd mm) # concat (map (\<lambda>(d, m). mem_destroy d m) (zip regions (mem_maps mm)))"

definition i2c_destroy :: "i2c_dev \<Rightarrow> release list" where
  "i2c_destroy dev = (if i2c_fd dev \<ge> 0 then [Close (i2c_fd dev)] else [])"

definition spi_destroy :: "spi_dev \<Rightarrow> release list" where
  "spi_destroy dev = (if spi_fd dev \<ge> 0 then [Close (spi_fd dev)] else [])"

text \<open>The members of the context in the reverse order of their declaration.\<close>

definition context_destroy :: "mem_region list \<Rightarrow> koheron_context \<Rightarrow> release list" where
  "context_destroy regions ctx = concat (map (i2c_destroy \<circ> snd) (ctx_i2c ctx)) @ concat (map (spi_destroy \<circ> snd) (ctx_spi ctx)) @
     mm_destroy regions (ctx_mm ctx)"

section \<open>Maps\<close>

primrec unmapped :: "release \<Rightarrow> (u32 \<times> u32) multiset" where
  "unmapped (Munmap p sz) = {#(p, sz)#}"
| "unmapped (Close fd) = {#}"

definition all_unmapped :: "release list \<Rightarrow> (u32 \<times> u32) multiset" where
  "all_unmapped rs = sum_list (map unmapped rs)"

lemma all_unmapped_simps [simp]:
  "all_unmapped [] = {#}" "all_unmapped (r # rs) = unmapped r + all_unmapped rs" "all_unmapped (rs @ rs') = all_unmapped rs + all_unmapped rs'"
  by (simp_all add: all_unmapped_def)

text \<open>What the objects of the maps hold.\<close>

definition held :: "mem_region list \<Rightarrow> memory list \<Rightarrow> (u32 \<times> u32) multiset" where
  "held regions ms = all_unmapped (concat (map (\<lambda>(d, m). mem_destroy d m) (zip regions ms)))"

lemma held_update:
  assumes "k < length ms" and "length regions = length ms" and "\<not> is_opened (ms ! k)"
  shows "held regions (ms[k := m]) = held regions ms + all_unmapped (mem_destroy (regions ! k) m)"
  using assms
proof (induction ms arbitrary: k regions)
  case (Cons x ms)
  then obtain d ds where "regions = d # ds" by (cases regions) auto
  then show ?case using Cons by (cases k) (auto simp: held_def mem_destroy_def)
qed simp

lemma held_new: "held regions (replicate (length regions) new_memory) = {#}"
  by (induction regions) (simp_all add: held_def mem_destroy_def new_memory_def)

text \<open>\<open>maps\<close> are the mappings of the process: \<open>mmap\<close> fails or adds one.\<close>

locale mapper =
  fixes mmap :: "'w mmap_call" and maps :: "'w \<Rightarrow> (u32 \<times> u32) multiset"
  assumes mmap_adds: "mmap sz pr off w = (p, w') \<Longrightarrow> maps w' = (if p = - 1 then maps w else add_mset (p, sz) (maps w))"
begin

lemma mem_open_adds:
  assumes "mem_open mmap d m w = (m', w')"
  shows "maps w' = maps w + all_unmapped (mem_destroy d m')"
proof -
  obtain p w1 where 1: "mmap (get_total_size d) (get_protection d) (get_mmap_offset (get_base_addr d) (get_total_size d)) w = (p, w1)" by fastforce
  then show ?thesis
    using assms mmap_adds [OF 1] by (auto simp: mem_open_def Let_def mem_destroy_def split: if_splits)
qed

text \<open>\<open>open_maps\<close> goes through the maps once, from the last to the first; the maps below \<open>k\<close> are still closed.\<close>

lemma open_maps_adds:
  assumes "k \<le> length (mem_maps mm)" and "length regions = length (mem_maps mm)" and "\<forall>j < k. \<not> is_opened (mem_maps mm ! j)"
    and "open_maps mmap regions k mm w = (mm', w')"
  shows "maps w' + held regions (mem_maps mm) = maps w + held regions (mem_maps mm') \<and> mm_fd mm' = mm_fd mm \<and>
    length (mem_maps mm') = length (mem_maps mm)"
  using assms
proof (induction k arbitrary: mm w)
  case (Suc k)
  obtain m w1 where 1: "mem_open mmap (regions ! k) (mem_maps mm ! k) w = (m, w1)" by fastforce
  obtain mm1 w2 where 2: "open_memory_map mmap regions k mm w = (mm1, w2)" by fastforce
  have eq: "mem_maps mm1 = (mem_maps mm)[k := m]" "mm_fd mm1 = mm_fd mm" "w2 = w1"
    using 1 2 by (auto simp: open_memory_map_def Let_def split: if_splits)
  have "held regions (mem_maps mm1) = held regions (mem_maps mm) + all_unmapped (mem_destroy (regions ! k) m)"
    unfolding eq by (rule held_update) (use Suc.prems in simp_all)
  moreover have "maps w1 = maps w + all_unmapped (mem_destroy (regions ! k) m)" by (rule mem_open_adds [OF 1])
  moreover have "maps w' + held regions (mem_maps mm1) = maps w2 + held regions (mem_maps mm') \<and> mm_fd mm' = mm_fd mm1 \<and>
      length (mem_maps mm') = length (mem_maps mm1)"
    using Suc.IH [of mm1 w2] Suc.prems 2 eq(1) by simp
  ultimately show ?case using eq by simp
qed simp

text \<open>Whether the manager opens or fails half-way, its destructor unmaps exactly what it has mapped, and closes the device.\<close>

lemma mm_open_destroy:
  assumes fresh: "mm = new_memory_manager (length regions)" and dev: "\<And>w fd w'. open_dev w = (fd, w') \<Longrightarrow> maps w' = maps w"
    and run: "mm_open open_dev mmap regions mm w = (r, mm', w')"
  shows "maps w' = maps w + all_unmapped (mm_destroy regions mm') \<and> hd (mm_destroy regions mm') = Close (mm_fd mm') \<and>
    (0 \<le> r \<longrightarrow> mm_fd mm' = r)"
proof -
  obtain fd w1 where 1: "open_dev w = (fd, w1)" by fastforce
  note none = held_new [of regions]
  have d: "all_unmapped (mm_destroy regions x) = held regions (mem_maps x)" for x by (simp add: mm_destroy_def held_def)
  have h: "hd (mm_destroy regions x) = Close (mm_fd x)" for x by (simp add: mm_destroy_def)
  show ?thesis
  proof (cases "fd = - 1")
    case True
    then have "mm' = mm\<lparr>mm_fd := fd\<rparr>" "w' = w1" "r = - 1" using run 1 by (auto simp: mm_open_def)
    then show ?thesis using dev [OF 1] none fresh by (simp add: d h new_memory_manager_def)
  next
    case False
    obtain mm1 w2 where 2: "open_maps mmap regions (length regions) (mm\<lparr>mm_fd := fd\<rparr>) w1 = (mm1, w2)" by fastforce
    have "mem_maps mm = replicate (length regions) new_memory" using fresh by (simp add: new_memory_manager_def)
    then have len: "mem_maps (mm\<lparr>mm_fd := fd\<rparr>) = replicate (length regions) new_memory" by simp
    have "maps w2 + held regions (mem_maps (mm\<lparr>mm_fd := fd\<rparr>)) = maps w1 + held regions (mem_maps mm1) \<and>
        mm_fd mm1 = mm_fd (mm\<lparr>mm_fd := fd\<rparr>) \<and> length (mem_maps mm1) = length (mem_maps (mm\<lparr>mm_fd := fd\<rparr>))"
      by (rule open_maps_adds [OF _ _ _ 2]) (simp_all only: len length_replicate nth_replicate new_memory_def, simp_all)
    then have m: "maps w2 = maps w1 + held regions (mem_maps mm1)" "mm_fd mm1 = fd" unfolding len none by simp_all
    have "mm_open open_dev mmap regions mm w = (if failed_maps mm1 \<noteq> [] then - 1 else mm_fd mm1, mm1, w2)"
      using 1 2 False by (simp add: mm_open_def Let_def)
    then have "mm' = mm1" "w' = w2" "r = - 1 \<or> r = mm_fd mm1" using run by (simp_all split: if_splits)
    then show ?thesis unfolding d h by (intro conjI impI) (use m dev [OF 1] in auto)
  qed
qed

end

text \<open>A process that maps at increasing addresses.\<close>

definition next_map :: "(u32 \<times> u32) list mmap_call" where
  "next_map sz pr off w = (let p = push_bit 12 (of_nat (length w + 1)) in (p, (p, sz) # w))"

interpretation process: mapper next_map mset
proof
  fix sz pr off p :: u32 and w w' :: "(u32 \<times> u32) list"
  assume a: "next_map sz pr off w = (p, w')"
  then have "\<not> bit p 0" "bit (- 1 :: u32) 0" by (auto simp: next_map_def Let_def bit_simps)
  then have "p \<noteq> - 1" by metis
  then show "mset w' = (if p = - 1 then mset w else add_mset (p, sz) (mset w))" using a by (auto simp: next_map_def Let_def)
qed

lemma process_maps_released:
  assumes "mm_open (\<lambda>w. (3, w)) next_map regions (new_memory_manager (length regions)) [] = (r, mm, w)"
  shows "mset w = all_unmapped (mm_destroy regions mm)"
  using process.mm_open_destroy [OF refl _ assms] by simp

end
