(* ===== verification/Log.thy ===== *)
theory Log
  imports Prelude
begin

text \<open>
  The log of the server (\<^verbatim>\<open>src/server/core/syslog.hpp\<close>, \<^verbatim>\<open>string_utils.hpp\<close>, and the forwarding of \<^verbatim>\<open>context_base.hpp\<close>): where a
  message of a severity goes under a configuration (\<^verbatim>\<open>config.hpp\<close>). The functions are chosen by the compiler among overloads
  that are enabled by the severity and the configuration; \<^term>\<open>None\<close> is a call that does not compile, because no overload is enabled
  or more than one is. How \<open>printf\<close> formats a message is a parameter.
\<close>

section \<open>Severities\<close>

datatype severity = PANIC | CRITICAL | ERROR | WARNING | INFO | DEBUG

primrec severity_num :: "severity \<Rightarrow> nat" where
  "severity_num PANIC = 0"
| "severity_num CRITICAL = 1"
| "severity_num ERROR = 2"
| "severity_num WARNING = 3"
| "severity_num INFO = 4"
| "severity_num DEBUG = 5"

instantiation severity :: linorder
begin

definition less_eq_severity :: "severity \<Rightarrow> severity \<Rightarrow> bool" where
  "less_eq_severity a b \<longleftrightarrow> severity_num a \<le> severity_num b"

definition less_severity :: "severity \<Rightarrow> severity \<Rightarrow> bool" where
  "less_severity a b \<longleftrightarrow> severity_num a < severity_num b"

instance
proof
  fix a b :: severity
  show "a \<le> b \<Longrightarrow> b \<le> a \<Longrightarrow> a = b" by (cases a; cases b) (simp_all add: less_eq_severity_def)
qed (auto simp: less_eq_severity_def less_severity_def)

end

text \<open>The priorities of syslog: \<open>LOG_ALERT\<close> is 1, \<open>LOG_DEBUG\<close> is 7.\<close>

definition log_array :: "(nat \<times> string) list" where
  "log_array = [(1, ''KOHERON PANIC''), (2, ''KOHERON CRITICAL''), (3, ''KOHERON ERROR''), (4, ''KOHERON WARNING''), (5, ''KOHERON INFO''),
     (7, ''KOHERON DEBUG'')]"

definition severity_msg :: "severity \<Rightarrow> string" where
  "severity_msg s = snd (log_array ! severity_num s)"

definition to_priority :: "severity \<Rightarrow> nat" where
  "to_priority s = fst (log_array ! severity_num s)"

section \<open>Compile-time strings\<close>

text \<open>\<open>str_const\<close> of an array of characters, the terminating zero included; an index out of range throws.\<close>

record str_const =
  sc_chars :: string
  sc_size :: nat

definition new_str_const :: "string \<Rightarrow> str_const" where
  "new_str_const a = \<lparr>sc_chars = a, sc_size = length a - 1\<rparr>"

definition str_at :: "str_const \<Rightarrow> nat \<Rightarrow> char option" where
  "str_at s i = (if i < sc_size s then Some (sc_chars s ! i) else None)"

definition str_to_string :: "str_const \<Rightarrow> string" where
  "str_to_string s = takeWhile (\<lambda>c. c \<noteq> CHR 0x00) (sc_chars s)"

section \<open>Messages\<close>

record log_config =
  cfg_verbose :: bool
  cfg_use_stderr :: bool
  cfg_syslog :: bool

datatype log_output = To_stderr string | To_stdout string | To_syslog nat string

text \<open>Without arguments the message is printed as it is (\<open>"%s"\<close>), otherwise it is the format.\<close>

definition formatted :: "('a list \<Rightarrow> string \<Rightarrow> string) \<Rightarrow> 'a list \<Rightarrow> string \<Rightarrow> string" where
  "formatted fmt args msg = (if args = [] then msg else fmt args msg)"

definition overload :: "(bool \<times> 'b) list \<Rightarrow> 'b option" where
  "overload candidates = (case filter fst candidates of [c] \<Rightarrow> Some (snd c) | _ \<Rightarrow> None)"

definition print_msg :: "log_config \<Rightarrow> ('a list \<Rightarrow> string \<Rightarrow> string) \<Rightarrow> severity \<Rightarrow> 'a list \<Rightarrow> string \<Rightarrow> log_output list option" where
  "print_msg cfg fmt sev args msg = overload [
     (sev \<le> WARNING \<and> cfg_use_stderr cfg, [To_stderr (formatted fmt args (severity_msg sev @ '': '' @ msg))]),
     (sev \<le> WARNING \<and> \<not> cfg_use_stderr cfg, []),
     (WARNING \<le> sev \<and> cfg_verbose cfg, [To_stdout (formatted fmt args msg)]),
     (INFO \<le> sev \<and> \<not> cfg_verbose cfg, [])]"

definition call_syslog :: "log_config \<Rightarrow> ('a list \<Rightarrow> string \<Rightarrow> string) \<Rightarrow> severity \<Rightarrow> 'a list \<Rightarrow> string \<Rightarrow> log_output list option" where
  "call_syslog cfg fmt sev args msg = overload [
     (sev \<le> INFO \<and> cfg_syslog cfg, [To_syslog (to_priority sev) (formatted fmt args msg)]),
     (DEBUG \<le> sev, [])]"

definition log_print :: "log_config \<Rightarrow> ('a list \<Rightarrow> string \<Rightarrow> string) \<Rightarrow> severity \<Rightarrow> 'a list \<Rightarrow> string \<Rightarrow> log_output list option" where
  "log_print cfg fmt sev args msg = Option.bind (print_msg cfg fmt sev args msg) (\<lambda>out.
     map_option (\<lambda>out'. out @ out') (call_syslog cfg fmt sev args msg))"

text \<open>\<open>Context::print\<close> does not look at the severity.\<close>

definition context_print :: "('a list \<Rightarrow> string \<Rightarrow> string) \<Rightarrow> severity \<Rightarrow> 'a list \<Rightarrow> string \<Rightarrow> log_output list" where
  "context_print fmt sev args msg = [To_stdout (formatted fmt args msg)]"

definition log_close :: "log_config \<Rightarrow> ('a list \<Rightarrow> string \<Rightarrow> string) \<Rightarrow> log_output list option" where
  "log_close cfg fmt = (if cfg_syslog cfg then log_print cfg fmt INFO [] (''Close syslog ...'' @ [CHR 0x0A]) else Some [])"

definition server_log_config :: log_config where
  "server_log_config = \<lparr>cfg_verbose = False, cfg_use_stderr = True, cfg_syslog = True\<rparr>"

definition local_log_config :: log_config where
  "local_log_config = \<lparr>cfg_verbose = False, cfg_use_stderr = True, cfg_syslog = False\<rparr>"

section \<open>Where messages go\<close>

lemma severity_simps [simp]:
  "(PANIC \<le> s) = True" "(s \<le> DEBUG) = True" "(CRITICAL \<le> PANIC) = False" "(WARNING \<le> INFO) = True" "(INFO \<le> WARNING) = False"
  "(DEBUG \<le> WARNING) = False" "(DEBUG \<le> INFO) = False" "(ERROR \<le> WARNING) = True" "(CRITICAL \<le> WARNING) = True"
  "(WARNING \<le> ERROR) = False" "(WARNING \<le> CRITICAL) = False" "(WARNING \<le> PANIC) = False" "(INFO \<le> ERROR) = False" "(INFO \<le> CRITICAL) = False"
  "(INFO \<le> PANIC) = False" "(WARNING \<le> DEBUG) = True" "(INFO \<le> DEBUG) = True" "(ERROR \<le> INFO) = True" "(CRITICAL \<le> INFO) = True"
  "(DEBUG \<le> ERROR) = False" "(DEBUG \<le> CRITICAL) = False" "(DEBUG \<le> PANIC) = False"
  by (cases s; simp add: less_eq_severity_def)+

text \<open>
  With the configuration of the server every call compiles: warnings and worse go to the error stream, with their severity, and
  to syslog, information to syslog alone, and debug messages nowhere.
\<close>

lemma server_log:
  "log_print server_log_config fmt sev args msg = Some (
     (if sev \<le> WARNING then [To_stderr (formatted fmt args (severity_msg sev @ '': '' @ msg))] else []) @
     (if sev \<le> INFO then [To_syslog (to_priority sev) (formatted fmt args msg)] else []))"
  by (cases sev) (simp_all add: log_print_def print_msg_def call_syslog_def overload_def server_log_config_def)

text \<open>
  Without syslog only debug messages compile, since the overload for the other severities asks for it; with \<open>verbose\<close> warnings do not,
  because two overloads are enabled for them.
\<close>

lemma log_does_not_compile:
  "(\<not> cfg_syslog cfg \<and> sev \<le> INFO \<longrightarrow> log_print cfg fmt sev args msg = None) \<and>
   (cfg_verbose cfg \<longrightarrow> log_print cfg fmt WARNING args msg = None)"
  by (cases sev; cases "cfg_use_stderr cfg")
    (auto simp: log_print_def print_msg_def call_syslog_def overload_def bind_eq_None_conv)

lemma severity_names:
  "severity_msg PANIC = ''KOHERON PANIC'' \<and> severity_msg DEBUG = ''KOHERON DEBUG'' \<and> to_priority PANIC = 1 \<and> to_priority INFO = 5"
  by (simp add: severity_msg_def to_priority_def log_array_def)

text \<open>A literal is read back whole, and its characters are those below the size.\<close>

lemma str_const_literal:
  assumes "CHR 0x00 \<notin> set s"
  shows "str_to_string (new_str_const (s @ [CHR 0x00])) = s" and "sc_size (new_str_const (s @ [CHR 0x00])) = length s"
    and "map (str_at (new_str_const (s @ [CHR 0x00]))) [0 ..< length s] = map Some s" and "str_at (new_str_const (s @ [CHR 0x00])) (length s) = None"
proof -
  have "takeWhile (\<lambda>c. c \<noteq> CHR 0x00) (s @ [CHR 0x00]) = s @ takeWhile (\<lambda>c. c \<noteq> CHR 0x00) [CHR 0x00]"
    by (rule takeWhile_append2) (use assms in auto)
  then show "str_to_string (new_str_const (s @ [CHR 0x00])) = s" by (simp add: str_to_string_def new_str_const_def)
  show "map (str_at (new_str_const (s @ [CHR 0x00]))) [0 ..< length s] = map Some s"
    by (rule nth_equalityI) (simp_all add: str_at_def new_str_const_def nth_append)
qed (simp_all add: new_str_const_def str_at_def)

end
