(* ===== verification/Fft_Window.thy ===== *)
theory Fft_Window
  imports Complex_Main Prelude
begin

text \<open>
  \<^verbatim>\<open>src/server/fft-windows.hpp\<close>: windows for Fourier transforms as sums of cosines, over an arithmetic of \<open>float\<close> that is a parameter;
  \<open>ff_const m k\<close> is the literal \<open>m / 10\<^sup>k\<close>. Over the real numbers the windows are those of their definitions.
\<close>

section \<open>Windows\<close>

record 'f fft_flt =
  ff_add :: "'f \<Rightarrow> 'f \<Rightarrow> 'f"
  ff_mul :: "'f \<Rightarrow> 'f \<Rightarrow> 'f"
  ff_div :: "'f \<Rightarrow> 'f \<Rightarrow> 'f"
  ff_cos :: "'f \<Rightarrow> 'f"
  ff_pi :: 'f
  ff_of_nat :: "nat \<Rightarrow> 'f"
  ff_const :: "int \<Rightarrow> nat \<Rightarrow> 'f"

datatype window_type = Rectangular | Hann | Flat_top | Blackman_harris

primrec fft_windows_coeffs :: "'f fft_flt \<Rightarrow> window_type \<Rightarrow> 'f list" where
  "fft_windows_coeffs F Rectangular = [ff_const F 10 1, ff_const F 0 0, ff_const F 0 0, ff_const F 0 0, ff_const F 0 0, ff_const F 10 1]"
| "fft_windows_coeffs F Hann = [ff_const F 5 1, ff_const F 5 1, ff_const F 0 0, ff_const F 0 0, ff_const F 0 0, ff_const F 10 1]"
| "fft_windows_coeffs F Flat_top = [ff_const F 10 1, ff_const F 193 2, ff_const F 129 2, ff_const F 388 3, ff_const F 28 3, ff_const F 2 1]"
| "fft_windows_coeffs F Blackman_harris =
     [ff_const F 35875 5, ff_const F 48829 5, ff_const F 14128 5, ff_const F 1168 5, ff_const F 0 0, ff_const F 10 1]"

record 'f fft_window =
  window_values :: "'f list"
  w1 :: 'f
  w2 :: 'f
  wintype :: window_type

text \<open>The sum of one sample; \<open>fft_size - 1\<close> is not negative, because the loop runs.\<close>

definition window_sum :: "'f fft_flt \<Rightarrow> 'f list \<Rightarrow> nat \<Rightarrow> nat \<Rightarrow> 'f" where
  "window_sum F a fft_size i = fold (\<lambda>j x.
     let sign = (if j mod 2 = 0 then ff_const F 10 1 else ff_const F (- 10) 1)
     in ff_add F x (ff_mul F (ff_mul F sign (a ! j))
          (ff_cos F (ff_div F (ff_mul F (ff_mul F (ff_mul F (ff_of_nat F 2) (ff_pi F)) (ff_of_nat F i)) (ff_of_nat F j)) (ff_of_nat F (fft_size - 1))))))
     [0 ..< length a - 1] (ff_const F 0 0)"

definition compute_window :: "'f fft_flt \<Rightarrow> 'f fft_window \<Rightarrow> 'f fft_window" where
  "compute_window F w = (
     let a = fft_windows_coeffs F (wintype w); fft_size = length (window_values w);
       (window, res1, res2) = fold (\<lambda>i (window, res1, res2).
         let x = ff_mul F (window_sum F a fft_size i) (a ! (length a - 1))
         in (window[i := x], ff_add F res1 x, ff_add F res2 (ff_mul F x x)))
         [0 ..< fft_size] (window_values w, ff_const F 0 0, ff_const F 0 0)
     in w\<lparr>window_values := window, w1 := ff_mul F res1 res1, w2 := res2\<rparr>)"

text \<open>The vector starts with zeros; the factors are not initialised, and written before they are read.\<close>

definition new_fft_window :: "'f fft_flt \<Rightarrow> 'f \<Rightarrow> 'f \<Rightarrow> window_type \<Rightarrow> nat \<Rightarrow> 'f fft_window" where
  "new_fft_window F m1 m2 ty fft_size = compute_window F
     \<lparr>window_values = replicate fft_size (ff_const F 0 0), w1 = m1, w2 = m2, wintype = ty\<rparr>"

definition set_window :: "'f fft_flt \<Rightarrow> window_type \<Rightarrow> 'f fft_window \<Rightarrow> 'f fft_window" where
  "set_window F ty w = compute_window F (w\<lparr>wintype := ty\<rparr>)"

definition resize_window :: "'f fft_flt \<Rightarrow> nat \<Rightarrow> 'f fft_window \<Rightarrow> 'f fft_window" where
  "resize_window F fft_size w = compute_window F
     (w\<lparr>window_values := take fft_size (window_values w) @ replicate (fft_size - length (window_values w)) (ff_const F 0 0)\<rparr>)"

definition window_at :: "'f fft_window \<Rightarrow> nat \<Rightarrow> 'f option" where
  "window_at w i = (if i < length (window_values w) then Some (window_values w ! i) else None)"

section \<open>What they compute\<close>

definition window_sample :: "'f fft_flt \<Rightarrow> window_type \<Rightarrow> nat \<Rightarrow> nat \<Rightarrow> 'f" where
  "window_sample F ty fft_size i = (let a = fft_windows_coeffs F ty in ff_mul F (window_sum F a fft_size i) (a ! (length a - 1)))"

lemma fill_fold:
  assumes "m \<le> length xs"
  shows "fold (\<lambda>i (ys, r, s). (ys[i := f i], ff_add F r (f i), ff_add F s (ff_mul F (f i) (f i)))) [0 ..< m] (xs, r0, s0) =
    (map f [0 ..< m] @ drop m xs, fold (\<lambda>i r. ff_add F r (f i)) [0 ..< m] r0, fold (\<lambda>i s. ff_add F s (ff_mul F (f i) (f i))) [0 ..< m] s0)"
  using assms
proof (induction m)
  case (Suc m)
  then have "(map f [0 ..< m] @ drop m xs)[m := f m] = map f [0 ..< Suc m] @ drop (Suc m) xs"
    by (simp add: list_update_append Cons_nth_drop_Suc [symmetric])
  then show ?case using Suc by simp
qed simp

text \<open>
  The window depends on its type and size only: a window that was changed or resized is the one that would have been constructed.
\<close>

lemma compute_window_values:
  "window_values (compute_window F w) = map (window_sample F (wintype w) (length (window_values w))) [0 ..< length (window_values w)] \<and>
   wintype (compute_window F w) = wintype w"
  unfolding compute_window_def Let_def window_sample_def
  using fill_fold [of "length (window_values w)" "window_values w" "\<lambda>i. ff_mul F (window_sum F (fft_windows_coeffs F (wintype w)) (length (window_values w)) i)
      (fft_windows_coeffs F (wintype w) ! (length (fft_windows_coeffs F (wintype w)) - 1))" F]
  by (simp add: split_def)

lemma compute_window_factors:
  "let f = window_sample F (wintype w) (length (window_values w)); is = [0 ..< length (window_values w)];
     s = fold (\<lambda>i r. ff_add F r (f i)) is (ff_const F 0 0)
   in w1 (compute_window F w) = ff_mul F s s \<and> w2 (compute_window F w) = fold (\<lambda>i s. ff_add F s (ff_mul F (f i) (f i))) is (ff_const F 0 0)"
  unfolding compute_window_def Let_def window_sample_def
  using fill_fold [of "length (window_values w)" "window_values w" "\<lambda>i. ff_mul F (window_sum F (fft_windows_coeffs F (wintype w)) (length (window_values w)) i)
      (fft_windows_coeffs F (wintype w) ! (length (fft_windows_coeffs F (wintype w)) - 1))" F]
  by (simp add: split_def)

lemma resized_window:
  "window_values (resize_window F n w) = window_values (new_fft_window F m1 m2 (wintype w) n)"
  "window_values (set_window F ty w) = window_values (new_fft_window F m1 m2 ty (length (window_values w)))"
  by (cases "length (window_values w) \<le> n"; simp add: resize_window_def new_fft_window_def compute_window_values)
    (simp add: set_window_def new_fft_window_def compute_window_values)

section \<open>Over the real numbers\<close>

definition real_flt :: "real fft_flt" where
  "real_flt = \<lparr>ff_add = (+), ff_mul = (*), ff_div = (/), ff_cos = cos, ff_pi = pi, ff_of_nat = real, ff_const = (\<lambda>m k. real_of_int m / 10 ^ k)\<rparr>"

lemma rectangular_window: "window_sample real_flt Rectangular n i = 1"
  by (simp add: window_sample_def window_sum_def real_flt_def upt_rec)

lemma hann_window: "window_sample real_flt Hann n i = (sin (pi * real i / real (n - 1)))\<^sup>2"
proof -
  have "cos (2 * (pi * real i / real (n - 1))) = 1 - 2 * (sin (pi * real i / real (n - 1)))\<^sup>2" by (rule cos_double_sin)
  then show ?thesis by (simp add: window_sample_def window_sum_def real_flt_def upt_rec mult.assoc add_divide_distrib diff_divide_distrib)
qed

lemma rectangular_factors:
  "w1 (new_fft_window real_flt m1 m2 Rectangular n) = (real n)\<^sup>2" "w2 (new_fft_window real_flt m1 m2 Rectangular n) = real n"
proof -
  have "fold (\<lambda>i r. r + 1) [0 ..< n] (0 :: real) = real n" by (induction n) simp_all
  then show "w1 (new_fft_window real_flt m1 m2 Rectangular n) = (real n)\<^sup>2" "w2 (new_fft_window real_flt m1 m2 Rectangular n) = real n"
    using compute_window_factors [of real_flt "\<lparr>window_values = replicate n (ff_const real_flt 0 0), w1 = m1, w2 = m2, wintype = Rectangular\<rparr>"]
    by (simp_all add: new_fft_window_def Let_def rectangular_window) (simp_all add: real_flt_def power2_eq_square)
qed

end
