(* ===== verification/Spec2Isabelle.thy ===== *)
theory Spec2Isabelle
  imports Generator WebSocket_Session Instrument Threads Build Modulation Session_Manager Server Resources Log Fft_Window
begin

text \<open>
  Verification of the acoustic imaging instrument of this repository: the Koheron server that runs on the processor of a
  Zynq board, the driver \<open>Sesenta\<close> of the microphone array, and the C++ client.

  \<^bold>\<open>The program.\<close> A server (\<^verbatim>\<open>src/server/core\<close>) listens on TCP, on WebSocket and on a Unix socket. Each connection gets a
  session in a pool and a thread, which reads commands: a header with the identifiers of a driver and of an operation, and
  arguments in network byte order. The drivers manager starts the driver when it is first needed and runs the operation,
  which answers through the session. Drivers (\<^verbatim>\<open>src/server/drivers\<close>, \<^verbatim>\<open>src/projects/sesenta\<close>) read and write registers of
  the FPGA through memory maps (\<^verbatim>\<open>src/server/context\<close>). A client (\<^verbatim>\<open>src/server/client\<close>) builds the commands and decodes
  the answers.

  \<^bold>\<open>How it is modelled.\<close> A C++ buffer is a list of bytes with checked accesses; \<^term>\<open>None\<close> is an access outside of it, another
  undefined behaviour, an assertion that fails, or a loop that does not return. Error codes of the program are values of
  type \<^typ>\<open>int\<close>, exceptions are values of a sum. Machine integers are words, or \<^typ>\<open>int\<close> in their range. State is passed
  explicitly: a class is a record. System calls and hardware are parameters over the state \<open>'w\<close> of the outside world; what
  the code relies on of them is a named predicate or a locale, interpreted on a concrete instance. Threads are step
  relations. Log messages are left out.

  \<^bold>\<open>The theories.\<close>
    \<^item> \<open>Prelude\<close>: machine types, buffers, counted loops, words as bytes. \<open>Posix_IO\<close>: \<open>read\<close> and \<open>write\<close> on a stream.
    \<^item> \<open>Serializer\<close> (\<^verbatim>\<open>serializer_deserializer.hpp\<close>): the scalar codecs (locale \<open>codec\<close>), tuples, and the command builder;
      the wire format and that it is inverted.
    \<^item> \<open>Commands\<close> (\<^verbatim>\<open>commands.hpp\<close>), \<open>Session_Reader\<close> (the generated parsers, locale \<open>session_reader\<close>), \<open>Tcp_Session\<close>,
      \<open>WebSocket\<close> (\<^verbatim>\<open>websocket.cpp\<close>), \<open>Base64\<close>, \<open>Sha1\<close>, and \<open>Session\<close> (\<^verbatim>\<open>session.hpp\<close>, \<^verbatim>\<open>session.cpp\<close>): commands arrive as they
      were sent over both protocols, the handshake and the frames are those of RFC 6455, the digest that of FIPS 180-1, and
      a session executes every command once and in order; \<open>WebSocket_Session\<close>: a session over WebSocket from its construction to
      the end of the connection.
    \<^item> \<open>Typing\<close> (locales \<open>typed_session\<close>, \<open>total_session\<close>): operations get arguments of their types, whatever the peer sends.
    \<^item> \<open>Session_Manager\<close> (\<^verbatim>\<open>session_manager.cpp\<close>): the pool, its invariant, the threads that own sessions, and that it refines
      an abstract registry of connections.
    \<^item> \<open>Drivers_Manager\<close> (\<^verbatim>\<open>drivers_manager.cpp\<close>) and \<open>Dispatch\<close> (\<^verbatim>\<open>server_commands.cpp\<close>): drivers are constructed once and
      after the drivers they need; the commands of a session reach their drivers. \<open>Threads\<close> (\<^verbatim>\<open>interface_driver.hpp\<close>): the threads of
      the sessions step by step over the mutexes of the manager and of the drivers, with an invariant by rule induction.
    \<^item> \<open>Listening_Channel\<close> (\<^verbatim>\<open>listening_channel.cpp\<close>, \<^verbatim>\<open>server.hpp\<close>; locale \<open>socket_api\<close>), \<open>Signal_Handler\<close>, \<open>Server\<close>
      (\<^verbatim>\<open>server.cpp\<close>): descriptors, the counters of the threads, the loop of a listening thread, start and shutdown, in which
      the listening threads are joined.
    \<^item> \<open>Memory_Map\<close> (locale \<open>storage\<close>), \<open>Memory_Manager\<close>, \<open>Dma_S2MM\<close>, \<open>Sesenta\<close> (locale \<open>fpu_laws\<close>): registers and the
      bits they change, the order in which the DMA engines are programmed, the layout of the samples, the direction the
      beamformer finds.
    \<^item> \<open>Laser\<close> (\<^verbatim>\<open>laser.hpp\<close>, \<^verbatim>\<open>xadc.hpp\<close>, \<^verbatim>\<open>eeprom.hpp\<close>, \<^verbatim>\<open>common.hpp\<close>) and \<open>Modulation\<close> (\<^verbatim>\<open>modulation.hpp\<close>), over an
      arithmetic of \<open>float\<close> that is a parameter: the flags of the laser agree with its registers, and the words of a waveform.
    \<^item> \<open>Bus_Devices\<close> (\<^verbatim>\<open>i2c_dev\<close>, \<^verbatim>\<open>spi_dev\<close>) and \<open>Context\<close> (\<^verbatim>\<open>zynq_fclk.hpp\<close>, \<^verbatim>\<open>fpga_manager.hpp\<close>, \<^verbatim>\<open>context.hpp\<close>): I2C transactions
      go to the address they name, no file is left open, and what the context needs to be initialised. \<open>Resources\<close> (locale
      \<open>mapper\<close>): the destructors, which give back the mappings and descriptors that were acquired.
    \<^item> \<open>Client_Serdes\<close>, \<open>Client\<close> (\<^verbatim>\<open>koheron-client.hpp\<close>): the client's own serializer agrees with the server's, and a remote
      call returns what the operation answered.
    \<^item> \<open>Instrument\<close> (\<^verbatim>\<open>interface_driver.cpp\<close>, \<^verbatim>\<open>src/server/__init__.py\<close>, \<^verbatim>\<open>config.yml\<close>): the interfaces that are generated for the three
      drivers, and a capture from the call of the client to the samples it gets, through every layer above.
    \<^item> \<open>Type_Dispatch\<close> (\<^verbatim>\<open>serializer_deserializer.hpp\<close>, \<^verbatim>\<open>koheron-client.hpp\<close>): the types of C++, the traits and the overloads by which
      each serializer selects its code, and the static assertions of the client; the operations an interface can have, and the
      results a client can receive.
    \<^item> \<open>Generator\<close> (\<^verbatim>\<open>src/server/__init__.py\<close>): the generator of the interfaces on the texts of the types and signatures it reads;
      from the declarations of the drivers it gets the interfaces of \<open>Instrument\<close>, and a text that packs what a session reads.
    \<^item> \<open>Build\<close> (\<^verbatim>\<open>src/make.py\<close>, \<^verbatim>\<open>src/server/templates\<close>): the memory map, the registers, the clocks and the identifiers that are generated;
      those of the instrument are the constants of \<open>Sesenta\<close>, and the three numberings of the drivers agree.
    \<^item> \<open>Log\<close> (\<^verbatim>\<open>syslog.hpp\<close>, \<^verbatim>\<open>string_utils.hpp\<close>) and \<open>Fft_Window\<close> (\<^verbatim>\<open>fft-windows.hpp\<close>): where messages go, and the windows over the reals.

  \<^bold>\<open>Bounds and fuel.\<close> Loops that count are total functions with a measure. Loops that may run for ever (\<open>run_loop\<close>,
  \<open>server_loop\<close>, \<open>comm_loop\<close>, \<open>rnb_outer\<close>, \<open>wait_done\<close>) are \<open>partial_function\<close>s over \<open>option\<close>, and the theorems say when they return and
  when they do not. \<open>alloc_driver\<close> has fuel for the nesting of constructors: \<open>n + 1\<close> for \<open>n\<close> drivers is enough, because a
  constructor that is running is not entered again.

  \<^bold>\<open>Not modelled.\<close> The text of log messages where the code prints one, the Windows branch of the client, weak memory, the Python
  and web clients, the FPGA sources, the parser of C++ headers the generator calls, and the build scripts beyond the headers they
  generate. \<^verbatim>\<open>src/client\<close> holds copies of files of
  the server, of which the loader of the bitstream differs (\<open>Context\<close>), and a program (\<^verbatim>\<open>main.cpp\<close>) that calls methods
  \<open>Sesenta\<close> does not have.
\<close>

end
